(* ===== verification/Prelude.thy ===== *)
theory Prelude
  imports Main "HOL-Library.Word"
begin

text \<open>
  What every component of the registry model shares: the machine types of the Go source, the
  outcome of a Go call (a normal return, a run-time panic, a loop that never ends), Go's
  truncating integer division, nil-able slices, and the generic list and option lemmas the
  component proofs rewrite with.
\<close>

unbundle bit_operations_syntax

section \<open>Machine types\<close>

type_synonym u8 = "8 word"
type_synonym u32 = "32 word"
type_synonym u64 = "64 word"
type_synonym bytes = "u8 list"

text \<open>A Go map from strings. \<open>m(k \<mapsto> v)\<close> is the assignment, \<open>m k\<close> the two-valued lookup.\<close>

type_synonym 'v gomap = "string \<rightharpoonup> 'v"

section \<open>Outcomes of Go calls\<close>

text \<open>
  A call returns (\<open>Ret\<close>), or stops with a run-time panic (a nil dereference, an index out of
  range, a failed type assertion, a call of \<open>panic\<close>), or never returns (\<open>Hang\<close>). A panic in any goroutine of the
  server ends the whole process, so no state is kept with it.
\<close>

datatype gopanic = NilDereference | IndexOutOfRange | BadTypeAssertion | PanicCall string

datatype 'a outcome = Ret 'a | Panic gopanic | Hang

fun obind :: "'a outcome \<Rightarrow> ('a \<Rightarrow> 'b outcome) \<Rightarrow> 'b outcome" where
  "obind (Ret x) f = f x"
| "obind (Panic p) f = Panic p"
| "obind Hang f = Hang"

text \<open>A loop defined with \<open>partial_function (option)\<close>: \<open>None\<close> is the loop that never ends.\<close>

definition of_loop :: "'a outcome option \<Rightarrow> 'a outcome" where
  "of_loop r = (case r of None \<Rightarrow> Hang | Some x \<Rightarrow> x)"

named_theorems go_simps \<open>unfolding rules of the sequencing of Go calls\<close>
named_theorems model_defs \<open>definitions of the operations, for symbolic execution\<close>

lemma of_loop_simps [simp]: "of_loop None = Hang" "of_loop (Some x) = x"
  by (simp_all add: of_loop_def)

lemma obind_Ret_iff [go_simps]: "obind m f = Ret y \<longleftrightarrow> (\<exists>x. m = Ret x \<and> f x = Ret y)"
  by (cases m) auto

lemma obind_RetE: "obind m f = Ret y \<Longrightarrow> (\<And>x. m = Ret x \<Longrightarrow> f x = Ret y \<Longrightarrow> P) \<Longrightarrow> P"
  by (cases m) auto

lemma obind_Hang_iff [go_simps]: "obind m f = Hang \<longleftrightarrow> m = Hang \<or> (\<exists>x. m = Ret x \<and> f x = Hang)"
  by (cases m) auto

text \<open>A property of what a call returns, if it returns.\<close>

definition oall :: "('a \<Rightarrow> bool) \<Rightarrow> 'a outcome \<Rightarrow> bool" where
  "oall P m \<longleftrightarrow> (case m of Ret x \<Rightarrow> P x | _ \<Rightarrow> True)"

lemma oall_simps [simp]: "oall P (Ret x) = P x" "oall P (Panic p)" "oall P Hang"
  by (simp_all add: oall_def)

lemma oallD: "oall P m \<Longrightarrow> m = Ret x \<Longrightarrow> P x"
  by simp

lemma oall_obind: "oall P (obind m f) \<longleftrightarrow> oall (\<lambda>x. oall P (f x)) m"
  by (cases m) auto

lemma oall_obindI: "(\<And>x. m = Ret x \<Longrightarrow> oall P (f x)) \<Longrightarrow> oall P (obind m f)"
  by (cases m) auto

lemma obind_assoc: "obind (obind m f) g = obind m (\<lambda>x. obind (f x) g)"
  by (cases m) auto

section \<open>Go's integer division\<close>

text \<open>Go divides towards zero, unlike \<open>div\<close> on \<open>int\<close>, which rounds down.\<close>

definition go_div :: "int \<Rightarrow> int \<Rightarrow> int" where
  "go_div a b = sgn a * sgn b * (\<bar>a\<bar> div \<bar>b\<bar>)"

lemma go_div_nonneg: "0 \<le> a \<Longrightarrow> 0 < b \<Longrightarrow> go_div a b = a div b"
  by (cases "a = 0") (auto simp: go_div_def sgn_if)

lemma go_div_neg: "a < 0 \<Longrightarrow> 0 < b \<Longrightarrow> go_div a b = - ((- a) div b)"
  by (auto simp: go_div_def sgn_if)

section \<open>Nil-able values\<close>

text \<open>
  A Go slice can be nil, and nil differs from an empty slice in a comparison with nil; where the
  source makes that comparison the model has an \<open>option\<close>. Reading a nil slice sees no elements.
\<close>

definition slice_of :: "'a list option \<Rightarrow> 'a list" where
  "slice_of s = (case s of None \<Rightarrow> [] | Some xs \<Rightarrow> xs)"

lemma slice_of_simps [simp]: "slice_of None = []" "slice_of (Some xs) = xs"
  by (simp_all add: slice_of_def)

text \<open>Appending to a nil slice makes a non-nil one.\<close>

definition append_slice :: "'a list option \<Rightarrow> 'a \<Rightarrow> 'a list option" where
  "append_slice s x = Some (slice_of s @ [x])"

lemma append_slice_simps [simp]:
  "append_slice None x = Some [x]" "append_slice (Some xs) x = Some (xs @ [x])"
  by (simp_all add: append_slice_def)

section \<open>Lists\<close>

text \<open>\<open>t[i][j]\<close> with Go's checks of the indexes: \<open>None\<close> is an index out of range.\<close>

definition index2 :: "'a list list \<Rightarrow> nat \<Rightarrow> int \<Rightarrow> 'a option" where
  "index2 t i j = (if i < length t \<and> 0 \<le> j \<and> nat j < length (t ! i) then Some (t ! i ! nat j) else None)"

lemma distinct_map_snoc [simp]:
  "distinct (map f (xs @ [x])) \<longleftrightarrow> distinct (map f xs) \<and> f x \<notin> f ` set xs"
  by auto

lemma nth_snoc_cases:
  "i < length (xs @ [x]) \<Longrightarrow> (xs @ [x]) ! i = (if i < length xs then xs ! i else x)"
  by (auto simp: nth_append less_Suc_eq)

lemma sum_Inr_iff: "(\<exists>e. r = Inl e) \<or> (\<exists>v. r = Inr v)"
  by (cases r) auto

end
