(* ===== verification/Errors.thy ===== *)
theory Errors
  imports Prelude
begin

text \<open>
  The error values of the registry: the sentinel errors of \<open>xlreg_errors.go\<close> with their texts,
  and the parallel tables of error numbers (\<open>xlreg_error_const.go\<close>) and strings
  (\<open>xlreg_error_str.go\<close>) that the other language bindings use.
\<close>

section \<open>Error values\<close>

text \<open>
  One constructor per sentinel of \<open>xlreg_errors.go\<close>. Sentinels are compared by identity in the
  source (\<open>err == IDAlreadyInUse\<close>), so an error made on the spot with \<open>errors.New\<close> (\<open>ErrNew\<close>),
  \<open>io.EOF\<close>, and an error that comes out of a library (\<open>Ext\<close>) are never equal to one of them,
  even with the same text.
\<close>

datatype gerror =
    BadAttrsLine | BadOrNilCnx | BadVersion | CantFindClusterByID | CantFindClusterByName
  | ClusterMemberIDInUse | ClusterMembersMustHaveEndPoint | ClusterMemberNameInUse
  | ClusterMustHaveMember | ClusterMustHaveTwo | IDAlreadyInUse | IllFormedCluster
  | IllFormedClusterMember | IllFormedRegCred | MemberMustHaveEndPoint | MissingClosingBrace
  | MissingClusterNameOrID | MissingEndPointsSection | MissingMembersList | MissingNode
  | MissingPrivateKey | MissingRegNodeLine | MissingServerInfo | NameAlreadyInUse | NilCluster
  | NilClusterMember | NilNode | NilPrivateKey | NilRegistry | NilRegNode | NilToken
  | RcvdInvalidMsgForState | TagOutOfRange | UnexpectedMsgType | WrongNumberOfBytesInAttrs
  | ErrNew string | IoEOF | Ext string

fun ErrorText :: "gerror \<Rightarrow> string" where
  "ErrorText BadAttrsLine = ''badly formed attrs line''"
| "ErrorText BadOrNilCnx = ''bad or nil connection''"
| "ErrorText BadVersion = ''badly formated VERSION''"
| "ErrorText CantFindClusterByID = ''cannot find cluster with this ID''"
| "ErrorText CantFindClusterByName = ''cannot find cluster with this name''"
| "ErrorText ClusterMemberIDInUse = ''cluster member id already in use''"
| "ErrorText ClusterMembersMustHaveEndPoint =
     ''cluster members must have at least one endPoint''"
| "ErrorText ClusterMemberNameInUse = ''cluster member name already in use''"
| "ErrorText ClusterMustHaveMember = ''cluster must have a member!''"
| "ErrorText ClusterMustHaveTwo = ''cluster must have at least two members''"
| "ErrorText IDAlreadyInUse = ''ID already in use''"
| "ErrorText IllFormedCluster = ''ill-formed cluster serialization''"
| "ErrorText IllFormedClusterMember = ''ill-formed cluster member serialization''"
| "ErrorText IllFormedRegCred = ''ill-formed regCred serialization''"
| "ErrorText MemberMustHaveEndPoint = ''member must have at least one endPoint''"
| "ErrorText MissingClosingBrace = ''missing closing brace''"
| "ErrorText MissingClusterNameOrID = ''missing cluster name or ID''"
| "ErrorText MissingEndPointsSection = ''missing endPoints section''"
| "ErrorText MissingMembersList = ''missing members list''"
| "ErrorText MissingNode = ''missing node parameter''"
| "ErrorText MissingPrivateKey = ''missing private key line''"
| "ErrorText MissingRegNodeLine = ''missing regNode line''"
| "ErrorText MissingServerInfo = ''missing server info''"
| "ErrorText NameAlreadyInUse = ''name already in use''"
| "ErrorText NilCluster = ''nil cluster argument''"
| "ErrorText NilClusterMember = ''nil cluster member argument''"
| "ErrorText NilNode = ''nil node argument''"
| "ErrorText NilPrivateKey = ''nil private key argument''"
| "ErrorText NilRegistry = ''nil registry argument''"
| "ErrorText NilRegNode = ''nil RegNode argument''"
| "ErrorText NilToken = ''nil XLRegMsg_Token argument''"
| "ErrorText RcvdInvalidMsgForState = ''invalid msg type for current state''"
| "ErrorText TagOutOfRange = ''message tag out of range''"
| "ErrorText UnexpectedMsgType = ''unexpected message type''"
| "ErrorText WrongNumberOfBytesInAttrs = ''wrong number of bytes in attrs''"
| "ErrorText (ErrNew s) = s"
| "ErrorText IoEOF = ''EOF''"
| "ErrorText (Ext s) = s"

text \<open>An error that comes out of a library call, as the caller sees it.\<close>

definition ext :: "string + 'a \<Rightarrow> gerror + 'a" where
  "ext r = (case r of Inl e \<Rightarrow> Inl (Ext e) | Inr x \<Rightarrow> Inr x)"

lemma ext_simps [simp]:
  "ext (Inl e) = Inl (Ext e)" "ext (Inr x) = Inr x"
  "ext r = Inr x \<longleftrightarrow> r = Inr x" "Inr x = ext r \<longleftrightarrow> r = Inr x"
  "ext r = Inl g \<longleftrightarrow> (\<exists>e. r = Inl e \<and> g = Ext e)"
  by (auto simp: ext_def split: sum.splits)

section \<open>Error numbers and the string table\<close>

text \<open>The constants are \<open>-1 - iota\<close>, in the order of the declaration.\<close>

datatype errconst =
    BAD_ATTRS_LINE | BAD_VERSION | CANT_FIND_CLUSTER_BY_ID | CANT_FIND_CLUSTER_BY_NAME
  | CLIENT_MUST_HAVE_END_POINT | CLUSTER_MEMBERS_MUST_HAVE_END_POINT | CLUSTER_MUST_HAVE_MEMBER
  | CLUSTER_MUST_HAVE_TWO | ID_ALREADY_IN_USE | ILL_FORMED_CLUSTER | ILL_FORMED_CLUSTER_MEMBER
  | ILL_FORMED_REG_CRED | MISSING_CLOSING_BRACE | MISSING_CLUSTER_NAME_OR_ID
  | MISSING_END_POINTS_SECTION | MISSING_MEMBERS_LIST | MISSING_PRIVATE_KEY
  | MISSING_REG_NODE_LINE | MISSING_SERVER_INFO | NAME_ALREADY_IN_USE | NIL_CLUSTER | NIL_NODE
  | NIL_PRIVATE_KEY | NIL_REGISTRY | NIL_REG_NODE | NIL_TOKEN | NO_NODE_NO_KEYS
  | RCVD_INVALID_MSG_FOR_STATE | TAG_OUT_OF_RANGE | UNEXPECTED_MSG_TYPE | UNKNOWN_CLIENT
  | WRONG_NUMBER_OF_BYTES_IN_ATTRS

definition errconst_order :: "errconst list" where
  "errconst_order =
    [BAD_ATTRS_LINE, BAD_VERSION, CANT_FIND_CLUSTER_BY_ID, CANT_FIND_CLUSTER_BY_NAME,
     CLIENT_MUST_HAVE_END_POINT, CLUSTER_MEMBERS_MUST_HAVE_END_POINT, CLUSTER_MUST_HAVE_MEMBER,
     CLUSTER_MUST_HAVE_TWO, ID_ALREADY_IN_USE, ILL_FORMED_CLUSTER, ILL_FORMED_CLUSTER_MEMBER,
     ILL_FORMED_REG_CRED, MISSING_CLOSING_BRACE, MISSING_CLUSTER_NAME_OR_ID,
     MISSING_END_POINTS_SECTION, MISSING_MEMBERS_LIST, MISSING_PRIVATE_KEY,
     MISSING_REG_NODE_LINE, MISSING_SERVER_INFO, NAME_ALREADY_IN_USE, NIL_CLUSTER, NIL_NODE,
     NIL_PRIVATE_KEY, NIL_REGISTRY, NIL_REG_NODE, NIL_TOKEN, NO_NODE_NO_KEYS,
     RCVD_INVALID_MSG_FOR_STATE, TAG_OUT_OF_RANGE, UNEXPECTED_MSG_TYPE, UNKNOWN_CLIENT,
     WRONG_NUMBER_OF_BYTES_IN_ATTRS]"

fun iota_of :: "errconst \<Rightarrow> errconst list \<Rightarrow> int" where
  "iota_of c [] = 0"
| "iota_of c (x # xs) = (if c = x then 0 else 1 + iota_of c xs)"

definition errcode :: "errconst \<Rightarrow> int" where
  "errcode c = - 1 - iota_of c errconst_order"

definition XLREG_ERRORS :: "string list" where
  "XLREG_ERRORS =
    [''badly formed attrs line'', ''badly formated VERSION'',
     ''cannot find cluster with this ID'', ''cannot find cluster with this name'',
     ''client must have at least one endPoint'',
     ''cluster members must have at least one endPoint'', ''cluster must have a member!'',
     ''cluster must have at least two members'', ''ID already in use'',
     ''ill-formed cluster serialization'', ''ill-formed cluster member serialization'',
     ''ill-formed regCred serialization'', ''missing closing brace'',
     ''missing cluster name or ID'', ''missing endPoints section'', ''missing members list'',
     ''missing private key line'', ''missing regNode line'', ''missing server info'',
     ''name already in use'', ''nil cluster argument'', ''nil node argument'',
     ''nil private key argument'', ''nil registry argument'', ''nil RegNode argument'',
     ''nil XLRegMsg_Token argument'', ''no node and no keys to build one'',
     ''invalid msg type for current state'', ''message tag out of range'',
     ''unexpected message type'', ''client unknown, not in registry'',
     ''wrong number of bytes in attrs'']"

text \<open>
  The sentinel that a number stands for, by name. Three numbers have no sentinel in
  \<open>xlreg_errors.go\<close>.
\<close>

fun sentinel_of :: "errconst \<Rightarrow> gerror option" where
  "sentinel_of BAD_ATTRS_LINE = Some BadAttrsLine"
| "sentinel_of BAD_VERSION = Some BadVersion"
| "sentinel_of CANT_FIND_CLUSTER_BY_ID = Some CantFindClusterByID"
| "sentinel_of CANT_FIND_CLUSTER_BY_NAME = Some CantFindClusterByName"
| "sentinel_of CLIENT_MUST_HAVE_END_POINT = None"
| "sentinel_of CLUSTER_MEMBERS_MUST_HAVE_END_POINT = Some ClusterMembersMustHaveEndPoint"
| "sentinel_of CLUSTER_MUST_HAVE_MEMBER = Some ClusterMustHaveMember"
| "sentinel_of CLUSTER_MUST_HAVE_TWO = Some ClusterMustHaveTwo"
| "sentinel_of ID_ALREADY_IN_USE = Some IDAlreadyInUse"
| "sentinel_of ILL_FORMED_CLUSTER = Some IllFormedCluster"
| "sentinel_of ILL_FORMED_CLUSTER_MEMBER = Some IllFormedClusterMember"
| "sentinel_of ILL_FORMED_REG_CRED = Some IllFormedRegCred"
| "sentinel_of MISSING_CLOSING_BRACE = Some MissingClosingBrace"
| "sentinel_of MISSING_CLUSTER_NAME_OR_ID = Some MissingClusterNameOrID"
| "sentinel_of MISSING_END_POINTS_SECTION = Some MissingEndPointsSection"
| "sentinel_of MISSING_MEMBERS_LIST = Some MissingMembersList"
| "sentinel_of MISSING_PRIVATE_KEY = Some MissingPrivateKey"
| "sentinel_of MISSING_REG_NODE_LINE = Some MissingRegNodeLine"
| "sentinel_of MISSING_SERVER_INFO = Some MissingServerInfo"
| "sentinel_of NAME_ALREADY_IN_USE = Some NameAlreadyInUse"
| "sentinel_of NIL_CLUSTER = Some NilCluster"
| "sentinel_of NIL_NODE = Some NilNode"
| "sentinel_of NIL_PRIVATE_KEY = Some NilPrivateKey"
| "sentinel_of NIL_REGISTRY = Some NilRegistry"
| "sentinel_of NIL_REG_NODE = Some NilRegNode"
| "sentinel_of NIL_TOKEN = Some NilToken"
| "sentinel_of NO_NODE_NO_KEYS = None"
| "sentinel_of RCVD_INVALID_MSG_FOR_STATE = Some RcvdInvalidMsgForState"
| "sentinel_of TAG_OUT_OF_RANGE = Some TagOutOfRange"
| "sentinel_of UNEXPECTED_MSG_TYPE = Some UnexpectedMsgType"
| "sentinel_of UNKNOWN_CLIENT = None"
| "sentinel_of WRONG_NUMBER_OF_BYTES_IN_ATTRS = Some WrongNumberOfBytesInAttrs"

lemma errcode_range: "errcode c < 0 \<and> nat (- 1 - errcode c) < length XLREG_ERRORS"
  by (cases c) (simp_all add: errcode_def errconst_order_def XLREG_ERRORS_def)

end
