(* ===== verification/GoStd.thy ===== *)
theory GoStd
  imports Errors
begin

text \<open>
  The part of Go's standard library that the registry's text formats rest on: \<open>strings\<close>
  (trimming, prefixes, splitting, joining), \<open>encoding/hex\<close>, \<open>fmt\<close>'s \<open>%d\<close> and \<open>%016x\<close> verbs,
  \<open>strconv\<close>'s \<open>ParseInt\<close> and \<open>Atoi\<close>, and \<open>encoding/binary\<close>'s little-endian encoding.
  A string is its sequence of bytes, one \<open>char\<close> each; white space is the ASCII white space
  (a multi-byte Unicode space is not trimmed). \<open>ParseInt\<close> with base 0 is the one of Go 1.9,
  the release this version of the registry was built with: hexadecimal after \<open>0x\<close>, octal
  after \<open>0\<close>, decimal otherwise, no underscores.
\<close>

section \<open>Trimming, prefixes\<close>

definition is_space :: "char \<Rightarrow> bool" where
  "is_space c = (let n = of_char c :: nat in n = 32 \<or> 9 \<le> n \<and> n \<le> 13)"

definition TrimSpace :: "string \<Rightarrow> string" where
  "TrimSpace s = rev (dropWhile is_space (rev (dropWhile is_space s)))"

definition HasPrefix :: "string \<Rightarrow> string \<Rightarrow> bool" where
  "HasPrefix s p \<longleftrightarrow> take (length p) s = p"

lemma HasPrefix_append [simp]: "HasPrefix (p @ s) p"
  by (simp add: HasPrefix_def)

text \<open>A string that trimming leaves as it is, and that is not blank.\<close>

definition solid :: "string \<Rightarrow> bool" where
  "solid s \<longleftrightarrow> s \<noteq> [] \<and> \<not> is_space (hd s) \<and> \<not> is_space (last s)"

lemma dropWhile_indent:
  "\<forall>c \<in> set p. P c \<Longrightarrow> s \<noteq> [] \<Longrightarrow> \<not> P (hd s) \<Longrightarrow> dropWhile P (p @ s) = s"
  by (induction p) (auto simp: neq_Nil_conv)

lemma TrimSpace_indent:
  assumes "\<forall>c \<in> set p. is_space c" and "solid s"
  shows "TrimSpace (p @ s) = s"
proof -
  have l: "dropWhile is_space (p @ s) = s"
    using assms by (intro dropWhile_indent) (auto simp: solid_def)
  have r: "dropWhile is_space (rev s) = rev s"
    using assms(2) dropWhile_indent [of "[]" is_space "rev s"] by (simp add: solid_def hd_rev)
  show ?thesis by (simp add: TrimSpace_def l r)
qed

lemma TrimSpace_solid: "solid s \<Longrightarrow> TrimSpace s = s"
  using TrimSpace_indent [of "[]" s] by simp

lemma solid_append:
  "p \<noteq> [] \<Longrightarrow> \<not> is_space (hd p) \<Longrightarrow> s \<noteq> [] \<Longrightarrow> \<not> is_space (last s) \<Longrightarrow> solid (p @ s)"
  by (auto simp: solid_def)

section \<open>Splitting and joining\<close>

fun Join :: "string \<Rightarrow> string list \<Rightarrow> string" where
  "Join sep [] = []"
| "Join sep [x] = x"
| "Join sep (x # y # xs) = x @ sep @ Join sep (y # xs)"

text \<open>The pieces of a string between the occurrences of a non-empty separator.\<close>

function split_from :: "string \<Rightarrow> string \<Rightarrow> string \<Rightarrow> string list" where
  "split_from sep acc [] = [acc]"
| "split_from sep acc (c # cs) =
     (if sep \<noteq> [] \<and> HasPrefix (c # cs) sep
      then acc # split_from sep [] (drop (length sep) (c # cs))
      else split_from sep (acc @ [c]) cs)"
  by pat_completeness auto
termination
  by (relation "measure (\<lambda>(sep, acc, s). length s)") auto

definition Split :: "string \<Rightarrow> string \<Rightarrow> string list" where
  "Split s sep = split_from sep [] s"

definition newline :: string where
  "newline = [CHR 0x0A]"

abbreviation split_nl :: "string \<Rightarrow> string list" where
  "split_nl s \<equiv> Split s newline"

lemma HasPrefix_newline [simp]: "HasPrefix (c # cs) newline \<longleftrightarrow> c = CHR 0x0A"
  by (simp add: HasPrefix_def newline_def)

lemma newline_simps [simp]: "newline \<noteq> []" "length newline = 1"
  by (simp_all add: newline_def)

lemma split_from_nl_line:
  "CHR 0x0A \<notin> set s \<Longrightarrow> split_from newline acc s = [acc @ s]"
  by (induction s arbitrary: acc) auto

lemma split_from_nl_append:
  "split_from newline acc (s @ newline @ t) = split_from newline acc s @ split_from newline [] t"
proof (induction s arbitrary: acc)
  case Nil
  have "newline @ t = CHR 0x0A # t" by (simp add: newline_def)
  then show ?case by (simp only: append_Nil) simp
qed auto

lemma split_nl_line: "CHR 0x0A \<notin> set s \<Longrightarrow> split_nl s = [s]"
  by (simp add: Split_def split_from_nl_line)

lemma split_nl_Join:
  "ss \<noteq> [] \<Longrightarrow> split_nl (Join newline ss) = concat (map split_nl ss)"
proof (induction newline ss rule: Join.induct)
  case (3 x y xs)
  then show ?case by (simp add: Split_def split_from_nl_append)
qed simp_all

lemma split_nl_Join_lines:
  assumes "ss \<noteq> []" and "\<forall>s \<in> set ss. CHR 0x0A \<notin> set s"
  shows "split_nl (Join newline ss) = ss"
proof -
  have "concat (map split_nl ss) = ss"
    using assms(2) by (induction ss) (auto simp: split_nl_line)
  then show ?thesis using assms(1) by (simp add: split_nl_Join)
qed

section \<open>Digits\<close>

definition digit_char :: "nat \<Rightarrow> char" where
  "digit_char n = (if n < 10 then char_of (48 + n) else char_of (87 + n))"

text \<open>The value of a digit, upper or lower case, if it is one in this base.\<close>

definition digit_val :: "nat \<Rightarrow> char \<Rightarrow> nat option" where
  "digit_val base c =
     (let n = of_char c :: nat;
          v = (if 48 \<le> n \<and> n \<le> 57 then n - 48
               else if 97 \<le> n \<and> n \<le> 122 then n - 87
               else if 65 \<le> n \<and> n \<le> 90 then n - 55 else base)
      in if v < base then Some v else None)"

lemma digit_val_char: "n < base \<Longrightarrow> base \<le> 16 \<Longrightarrow> digit_val base (digit_char n) = Some n"
  by (auto simp: digit_val_def digit_char_def)

lemma digit_char_no_space: "n < 16 \<Longrightarrow> \<not> is_space (digit_char n)"
  by (auto simp: is_space_def digit_char_def)

lemma digit_char_no_newline: "n < 16 \<Longrightarrow> digit_char n \<noteq> CHR 0x0A"
  using digit_char_no_space [of n] by (auto simp: is_space_def)

text \<open>The number that a string of digits writes, or none if a character is not a digit.\<close>

fun digits_from :: "nat \<Rightarrow> nat \<Rightarrow> string \<Rightarrow> nat option" where
  "digits_from base acc [] = Some acc"
| "digits_from base acc (c # cs) =
     (case digit_val base c of None \<Rightarrow> None | Some v \<Rightarrow> digits_from base (acc * base + v) cs)"

lemma digits_from_append:
  "digits_from base acc (s @ t) =
     (case digits_from base acc s of None \<Rightarrow> None | Some v \<Rightarrow> digits_from base v t)"
  by (induction s arbitrary: acc) (auto split: option.splits)

section \<open>Numbers in text\<close>

text \<open>\<open>%d\<close> of a value that is not negative.\<close>

fun fmt_d :: "nat \<Rightarrow> string" where
  "fmt_d n = (if n < 10 then [digit_char n] else fmt_d (n div 10) @ [digit_char (n mod 10)])"

declare fmt_d.simps [simp del]

text \<open>\<open>%0kx\<close> of a value that fits in \<open>k\<close> hexadecimal digits.\<close>

fun fmt_x :: "nat \<Rightarrow> nat \<Rightarrow> string" where
  "fmt_x 0 n = []"
| "fmt_x (Suc k) n = fmt_x k (n div 16) @ [digit_char (n mod 16)]"

definition fmt_016x :: "u64 \<Rightarrow> string" where
  "fmt_016x w = fmt_x 16 (unat w)"

lemma fmt_d_digits: "digits_from 10 0 (fmt_d n) = Some n"
proof (induction n rule: fmt_d.induct)
  case (1 n)
  show ?case
  proof (cases "n < 10")
    case True
    then show ?thesis by (simp add: fmt_d.simps [of n] digit_val_char)
  next
    case False
    then show ?thesis
      using 1 by (simp add: fmt_d.simps [of n] digits_from_append digit_val_char)
  qed
qed

lemma fmt_d_chars: "c \<in> set (fmt_d n) \<Longrightarrow> \<exists>d<10. c = digit_char d"
proof (induction n rule: fmt_d.induct)
  case (1 n)
  then show ?case
    by (cases "n < 10") (auto simp: fmt_d.simps [of n] intro: exI [of _ "n mod 10"])
qed

lemma fmt_d_nonempty [simp]: "fmt_d n \<noteq> []"
  by (subst fmt_d.simps) simp

lemma fmt_x_digits: "digits_from 16 0 (fmt_x k n) = Some (n mod 16 ^ k)"
proof (induction k arbitrary: n)
  case (Suc k)
  have "n div 16 mod 16 ^ k * 16 + n mod 16 = n mod 16 ^ Suc k"
    by (simp add: mod_mult2_eq mult.commute)
  with Suc show ?case by (simp add: digits_from_append digit_val_char)
qed simp

lemma fmt_x_chars: "c \<in> set (fmt_x k n) \<Longrightarrow> \<exists>d<16. c = digit_char d"
proof (induction k arbitrary: n)
  case (Suc k)
  then show ?case by (auto intro: exI [of _ "n mod 16"])
qed simp

lemma fmt_x_length [simp]: "length (fmt_x k n) = k"
  by (induction k arbitrary: n) auto

lemma fmt_016x_length [simp]: "length (fmt_016x w) = 16"
  by (simp add: fmt_016x_def)

lemma fmt_016x_nonempty [simp]: "fmt_016x w \<noteq> []"
  using fmt_016x_length [of w] by fastforce

lemma fmt_016x_digits: "digits_from 16 0 (fmt_016x w) = Some (unat w)"
proof -
  have "unat w < 2 ^ 64" using unsigned_less [of w] by simp
  then show ?thesis by (simp add: fmt_016x_def fmt_x_digits)
qed

text \<open>\<open>strconv.ParseInt(s, base, 64)\<close>: optional sign, base prefix when \<open>base\<close> is 0, range of int64.\<close>

definition base_prefix :: "nat \<Rightarrow> string \<Rightarrow> (nat \<times> string) option" where
  "base_prefix base s =
     (if base \<noteq> 0 then Some (base, s)
      else if HasPrefix s ''0x'' \<or> HasPrefix s ''0X''
        then (if length s < 3 then None else Some (16, drop 2 s))
      else if HasPrefix s ''0'' then Some (8, drop 1 s)
      else Some (10, s))"

definition ParseUint :: "string \<Rightarrow> nat \<Rightarrow> gerror + nat" where
  "ParseUint s base =
     (if s = [] then Inl (Ext ''invalid syntax'')
      else case base_prefix base s of
        None \<Rightarrow> Inl (Ext ''invalid syntax'')
      | Some (b, ds) \<Rightarrow>
          (case digits_from b 0 ds of
             None \<Rightarrow> Inl (Ext ''invalid syntax'')
           | Some n \<Rightarrow> if n < 2 ^ 64 then Inr n else Inl (Ext ''value out of range'')))"

definition ParseInt :: "string \<Rightarrow> nat \<Rightarrow> gerror + int" where
  "ParseInt s base =
     (let neg = HasPrefix s ''-'';
          body = (if neg \<or> HasPrefix s ''+'' then drop 1 s else s)
      in case ParseUint body base of
           Inl e \<Rightarrow> Inl e
         | Inr n \<Rightarrow>
             if \<not> neg \<and> n \<ge> 2 ^ 63 then Inl (Ext ''value out of range'')
             else if neg \<and> n > 2 ^ 63 then Inl (Ext ''value out of range'')
             else Inr (if neg then - int n else int n))"

definition Atoi :: "string \<Rightarrow> gerror + int" where
  "Atoi s = ParseInt s 10"

lemma digit_not_sign: "d < 16 \<Longrightarrow> digit_char d \<noteq> CHR ''-'' \<and> digit_char d \<noteq> CHR ''+''"
  by (auto simp: digit_char_def dest!: arg_cong [of _ _ "of_char :: char \<Rightarrow> nat"])

lemma HasPrefix_char [simp]: "HasPrefix s [c] \<longleftrightarrow> s \<noteq> [] \<and> hd s = c"
  by (cases s) (auto simp: HasPrefix_def)

lemma Atoi_fmt_d: "n < 2 ^ 63 \<Longrightarrow> Atoi (fmt_d n) = Inr (int n)"
proof -
  assume n: "n < 2 ^ 63"
  obtain d where d: "d < 10" "hd (fmt_d n) = digit_char d"
    using fmt_d_chars [of "hd (fmt_d n)" n] by auto
  have "hd (fmt_d n) \<noteq> CHR ''-'' \<and> hd (fmt_d n) \<noteq> CHR ''+''"
    using digit_not_sign [of d] d by simp
  with n show ?thesis
    by (simp add: Atoi_def ParseInt_def ParseUint_def base_prefix_def fmt_d_digits Let_def)
qed

lemma ParseInt_fmt_016x:
  "ParseInt (''0x'' @ fmt_016x w) 0 =
     (if unat w < 2 ^ 63 then Inr (int (unat w)) else Inl (Ext ''value out of range''))"
proof -
  have "unat w < 2 ^ 64" using unsigned_less [of w] by simp
  moreover have "length (fmt_016x w) = 16" by (simp add: fmt_016x_def)
  ultimately show ?thesis
    by (simp add: ParseInt_def ParseUint_def base_prefix_def fmt_016x_digits Let_def HasPrefix_def)
qed

section \<open>Hexadecimal bytes\<close>

fun EncodeToString :: "bytes \<Rightarrow> string" where
  "EncodeToString [] = []"
| "EncodeToString (b # bs) =
     digit_char (unat b div 16) # digit_char (unat b mod 16) # EncodeToString bs"

fun decode_pairs :: "string \<Rightarrow> gerror + bytes" where
  "decode_pairs [] = Inr []"
| "decode_pairs [c] = Inl (Ext ''odd length hex string'')"
| "decode_pairs (c # d # s) =
     (case (digit_val 16 c, digit_val 16 d) of
        (Some h, Some l) \<Rightarrow>
          (case decode_pairs s of Inl e \<Rightarrow> Inl e | Inr bs \<Rightarrow> Inr (word_of_nat (16 * h + l) # bs))
      | _ \<Rightarrow> Inl (Ext ''invalid byte''))"

definition DecodeString :: "string \<Rightarrow> gerror + bytes" where
  "DecodeString s = (if odd (length s) then Inl (Ext ''odd length hex string'') else decode_pairs s)"

lemma byte_digits: "unat (b :: u8) div 16 < 16" "unat b mod 16 < 16"
  using unsigned_less [of b, where ?'a = nat] by (auto simp: div_less_iff_less_mult)

lemma even_length_EncodeToString [simp]: "length (EncodeToString bs) = 2 * length bs"
  by (induction bs) auto

lemma decode_pairs_EncodeToString: "decode_pairs (EncodeToString bs) = Inr bs"
  by (induction bs) (simp_all add: digit_val_char byte_digits)

lemma DecodeString_EncodeToString [simp]: "DecodeString (EncodeToString bs) = Inr bs"
  by (simp add: DecodeString_def decode_pairs_EncodeToString)

lemma EncodeToString_chars: "c \<in> set (EncodeToString bs) \<Longrightarrow> \<exists>d<16. c = digit_char d"
proof (induction bs)
  case (Cons b bs)
  then show ?case
    using byte_digits [of b] by (auto intro: exI [of _ "unat b mod 16"])
qed simp

lemma decode_pairs_append:
  "even (length s) \<Longrightarrow> decode_pairs (s @ t) =
     (case decode_pairs s of Inl e \<Rightarrow> Inl e
      | Inr bs \<Rightarrow> (case decode_pairs t of Inl e \<Rightarrow> Inl e | Inr cs \<Rightarrow> Inr (bs @ cs)))"
  by (induction s rule: decode_pairs.induct) (auto split: sum.splits option.splits)

lemma decode_pairs_fmt_x:
  "decode_pairs (fmt_x (2 * k) n) = Inr (map (\<lambda>i. word_of_nat (n div 256 ^ (k - 1 - i))) [0..<k])"
proof (induction k arbitrary: n)
  case (Suc k)
  have h: "16 * (n div 16 mod 16) + n mod 16 = n mod 256"
    using mod_mult2_eq [of n 16 16] by simp
  have shift: "n div 256 div 256 ^ (k - 1 - i) = n div 256 ^ (k - i)" if "i < k" for i
  proof -
    have "k - i = Suc (k - 1 - i)" using that by simp
    then show ?thesis by (simp add: div_mult2_eq)
  qed
  have b: "word_of_nat (n mod 256) = (word_of_nat n :: u8)"
    by (simp add: word_of_nat_eq_iff take_bit_eq_mod)
  have "decode_pairs (fmt_x (2 * Suc k) n) =
        Inr (map (\<lambda>i. word_of_nat (n div 256 div 256 ^ (k - 1 - i))) [0..<k] @ [word_of_nat n])"
    using Suc.IH [of "n div 16 div 16"]
    by (simp add: decode_pairs_append digit_val_char h b div_mult2_eq [symmetric])
  also have "\<dots> = Inr (map (\<lambda>i. word_of_nat (n div 256 ^ (k - i))) [0..<k] @ [word_of_nat n])"
    using shift by simp
  finally show ?case by simp
qed simp

text \<open>The bytes that \<open>%016x\<close> prints, high byte first, and putting them together again.\<close>

lemma DecodeString_fmt_016x:
  "DecodeString (fmt_016x w) = Inr (map (\<lambda>i. word_of_nat (unat w div 256 ^ (7 - i))) [0..<8])"
  using decode_pairs_fmt_x [of 8 "unat w"] by (simp add: DecodeString_def fmt_016x_def)

lemma byte_of_word:
  "ucast (word_of_nat (unat (w :: u64) div 256 ^ m) :: u8) = (take_bit 8 (drop_bit (8 * m) w) :: u64)"
proof -
  have "unat (drop_bit (8 * m) w) = drop_bit (8 * m) (unat w)"
    by (rule unat_drop_bit_eq)
  also have "\<dots> = unat w div 256 ^ m"
    by (simp add: drop_bit_eq_div power_mult)
  finally have "unat w div 256 ^ m = unat (drop_bit (8 * m) w)" ..
  then show ?thesis
    by (simp only:) (intro bit_word_eqI, auto simp: bit_simps)
qed

lemma or_high_bytes:
  "j \<le> 8 \<Longrightarrow> fold (\<lambda>i a. a OR push_bit (8 * (7 - i)) (take_bit 8 (drop_bit (8 * (7 - i)) w))) [0..<j] 0
     = push_bit (8 * (8 - j)) (drop_bit (8 * (8 - j)) (w :: u64))"
proof (induction j)
  case 0
  show ?case by (rule bit_word_eqI) (auto simp: bit_simps dest: bit_imp_le_length)
next
  case (Suc j)
  define a where "a = 8 * (7 - j)"
  have a: "8 * (8 - j) = a + 8" "8 * (8 - Suc j) = a" using Suc.prems by (auto simp: a_def)
  have "push_bit (a + 8) (drop_bit (a + 8) w) OR push_bit a (take_bit 8 (drop_bit a w))
        = push_bit a (drop_bit a w)"
  proof (rule bit_word_eqI)
    fix n assume "n < LENGTH(64)"
    then show "bit (push_bit (a + 8) (drop_bit (a + 8) w) OR push_bit a (take_bit 8 (drop_bit a w))) n
      = bit (push_bit a (drop_bit a w)) n"
      by (cases "a + 8 \<le> n") (auto simp: bit_simps)
  qed
  then show ?case using Suc a by (simp add: a_def)
qed

section \<open>Field values\<close>

text \<open>A string that can stand at the end of a line \<open>label: value\<close> and be read back.\<close>

definition wordy :: "string \<Rightarrow> bool" where
  "wordy s \<longleftrightarrow> s \<noteq> [] \<and> \<not> is_space (last s) \<and> CHR 0x0A \<notin> set s"

lemma wordy_digits:
  assumes "s \<noteq> []" and "\<And>c. c \<in> set s \<Longrightarrow> \<exists>d<16. c = digit_char d"
  shows "wordy s"
proof -
  obtain d where "d < 16" "last s = digit_char d" using assms last_in_set by blast
  moreover have "CHR 0x0A \<notin> set s" using assms(2) digit_char_no_newline by metis
  ultimately show ?thesis using assms(1) by (simp add: wordy_def digit_char_no_space)
qed

lemma wordy_fmt_016x [simp]: "wordy (fmt_016x w)"
proof (rule wordy_digits)
  show "\<exists>d<16. c = digit_char d" if "c \<in> set (fmt_016x w)" for c
    using that unfolding fmt_016x_def by (rule fmt_x_chars)
qed simp

lemma wordy_fmt_d [simp]: "wordy (fmt_d n)"
proof (rule wordy_digits)
  fix c assume "c \<in> set (fmt_d n)"
  then obtain d where "d < 10" "c = digit_char d" using fmt_d_chars by blast
  then show "\<exists>d<16. c = digit_char d" by (intro exI [of _ d]) simp
qed simp

lemma wordy_EncodeToString [simp]: "bs \<noteq> [] \<Longrightarrow> wordy (EncodeToString bs)"
  by (rule wordy_digits) (auto simp: neq_Nil_conv dest: EncodeToString_chars)

lemma solid_field: "p \<noteq> [] \<Longrightarrow> \<not> is_space (hd p) \<Longrightarrow> wordy s \<Longrightarrow> solid (p @ s)"
  by (simp add: solid_append wordy_def)

lemma wordy_no_newline: "wordy s \<Longrightarrow> CHR 0x0A \<notin> set s"
  by (simp add: wordy_def)

section \<open>Little-endian bytes\<close>

text \<open>\<open>binary.LittleEndian.PutUint64\<close>.\<close>

definition PutUint64 :: "u64 \<Rightarrow> bytes" where
  "PutUint64 w = map (\<lambda>i. ucast (drop_bit (8 * i) w)) [0..<8]"

text \<open>The bytes of a string, as the conversion \<open>[]byte(s)\<close> gives them.\<close>

definition bytes_of :: "string \<Rightarrow> bytes" where
  "bytes_of s = map (\<lambda>c. word_of_nat (of_char c)) s"

end
