(* ===== verification/Messages.thy ===== *)
theory Messages
  imports Errors
begin

text \<open>
  The protocol messages (\<open>p.pb.go\<close>): the message and token structures with their optional
  fields, the operation codes, and the accessors, which read a missing field or a nil message
  as the field's default.
\<close>

section \<open>Operation codes\<close>

text \<open>\<open>XLRegMsg_Tag\<close> is an \<open>int32\<close>; a decoded message can carry any value of it.\<close>

type_synonym XLRegMsg_Tag = "32 word"

abbreviation (input) "XLRegMsg_RegCredRequest \<equiv> (1 :: XLRegMsg_Tag)"
abbreviation (input) "XLRegMsg_RegCredReply \<equiv> (2 :: XLRegMsg_Tag)"
abbreviation (input) "XLRegMsg_Member \<equiv> (3 :: XLRegMsg_Tag)"
abbreviation (input) "XLRegMsg_MemberOK \<equiv> (4 :: XLRegMsg_Tag)"
abbreviation (input) "XLRegMsg_Create \<equiv> (5 :: XLRegMsg_Tag)"
abbreviation (input) "XLRegMsg_CreateReply \<equiv> (6 :: XLRegMsg_Tag)"
abbreviation (input) "XLRegMsg_Join \<equiv> (7 :: XLRegMsg_Tag)"
abbreviation (input) "XLRegMsg_JoinReply \<equiv> (8 :: XLRegMsg_Tag)"
abbreviation (input) "XLRegMsg_GetCluster \<equiv> (9 :: XLRegMsg_Tag)"
abbreviation (input) "XLRegMsg_ClusterMembers \<equiv> (10 :: XLRegMsg_Tag)"
abbreviation (input) "XLRegMsg_Bye \<equiv> (11 :: XLRegMsg_Tag)"
abbreviation (input) "XLRegMsg_Ack \<equiv> (12 :: XLRegMsg_Tag)"
abbreviation (input) "XLRegMsg_Error \<equiv> (13 :: XLRegMsg_Tag)"

section \<open>Tokens\<close>

record XLRegMsg_Token =
  tok_Name :: "string option"
  tok_Attrs :: "u64 option"
  tok_ID :: "bytes option"
  tok_CommsKey :: "bytes option"
  tok_SigKey :: "bytes option"
  tok_MyEnds :: "string list option"
  tok_DigSig :: "bytes option"

text \<open>The accessors of \<open>*XLRegMsg_Token\<close>; the pointer may be nil.\<close>

definition Token_GetName :: "XLRegMsg_Token option \<Rightarrow> string" where
  "Token_GetName m = (case m of None \<Rightarrow> [] | Some t \<Rightarrow>
     (case tok_Name t of None \<Rightarrow> [] | Some s \<Rightarrow> s))"

definition Token_GetAttrs :: "XLRegMsg_Token option \<Rightarrow> u64" where
  "Token_GetAttrs m = (case m of None \<Rightarrow> 0 | Some t \<Rightarrow>
     (case tok_Attrs t of None \<Rightarrow> 0 | Some a \<Rightarrow> a))"

definition Token_GetID :: "XLRegMsg_Token option \<Rightarrow> bytes option" where
  "Token_GetID m = (case m of None \<Rightarrow> None | Some t \<Rightarrow> tok_ID t)"

definition Token_GetCommsKey :: "XLRegMsg_Token option \<Rightarrow> bytes option" where
  "Token_GetCommsKey m = (case m of None \<Rightarrow> None | Some t \<Rightarrow> tok_CommsKey t)"

definition Token_GetSigKey :: "XLRegMsg_Token option \<Rightarrow> bytes option" where
  "Token_GetSigKey m = (case m of None \<Rightarrow> None | Some t \<Rightarrow> tok_SigKey t)"

definition Token_GetMyEnds :: "XLRegMsg_Token option \<Rightarrow> string list option" where
  "Token_GetMyEnds m = (case m of None \<Rightarrow> None | Some t \<Rightarrow> tok_MyEnds t)"

definition Token_GetDigSig :: "XLRegMsg_Token option \<Rightarrow> bytes option" where
  "Token_GetDigSig m = (case m of None \<Rightarrow> None | Some t \<Rightarrow> tok_DigSig t)"

lemmas token_getters [simp] =
  Token_GetName_def Token_GetAttrs_def Token_GetID_def Token_GetCommsKey_def
  Token_GetSigKey_def Token_GetMyEnds_def Token_GetDigSig_def

section \<open>Messages\<close>

record XLRegMsg =
  msg_Op :: "XLRegMsg_Tag option"
  msg_AesKey :: "bytes option"
  msg_Salt1 :: "bytes option"
  msg_Salt2 :: "bytes option"
  msg_Version :: "u32 option"
  msg_MemberName :: "string option"
  msg_MemberID :: "bytes option"
  msg_MemberAttrs :: "u64 option"
  msg_MemberSpecs :: "XLRegMsg_Token option"
  msg_ClusterID :: "bytes option"
  msg_ClusterName :: "string option"
  msg_ClusterMaxSize :: "u32 option"
  msg_ClusterAttrs :: "u64 option"
  msg_EndPointCount :: "u32 option"
  msg_Which :: "u64 option"
  msg_Tokens :: "XLRegMsg_Token list option"
  msg_DigSig :: "bytes option"
  msg_ErrDesc :: "string option"

text \<open>\<open>XLRegMsg{}\<close>, the value \<open>Reset\<close> assigns and composite literals start from.\<close>

definition zeroMsg :: XLRegMsg where
  "zeroMsg = \<lparr>msg_Op = None, msg_AesKey = None, msg_Salt1 = None, msg_Salt2 = None,
     msg_Version = None, msg_MemberName = None, msg_MemberID = None, msg_MemberAttrs = None,
     msg_MemberSpecs = None, msg_ClusterID = None, msg_ClusterName = None,
     msg_ClusterMaxSize = None, msg_ClusterAttrs = None, msg_EndPointCount = None,
     msg_Which = None, msg_Tokens = None, msg_DigSig = None, msg_ErrDesc = None\<rparr>"

text \<open>The accessors of \<open>*XLRegMsg\<close>; the pointer may be nil.\<close>

definition GetOp :: "XLRegMsg option \<Rightarrow> XLRegMsg_Tag" where
  "GetOp m = (case m of None \<Rightarrow> XLRegMsg_RegCredRequest | Some x \<Rightarrow>
     (case msg_Op x of None \<Rightarrow> XLRegMsg_RegCredRequest | Some op \<Rightarrow> op))"

definition GetMemberID :: "XLRegMsg option \<Rightarrow> bytes option" where
  "GetMemberID m = (case m of None \<Rightarrow> None | Some x \<Rightarrow> msg_MemberID x)"

definition GetMemberAttrs :: "XLRegMsg option \<Rightarrow> u64" where
  "GetMemberAttrs m = (case m of None \<Rightarrow> 0 | Some x \<Rightarrow>
     (case msg_MemberAttrs x of None \<Rightarrow> 0 | Some a \<Rightarrow> a))"

definition GetMemberSpecs :: "XLRegMsg option \<Rightarrow> XLRegMsg_Token option" where
  "GetMemberSpecs m = (case m of None \<Rightarrow> None | Some x \<Rightarrow> msg_MemberSpecs x)"

definition GetClusterID :: "XLRegMsg option \<Rightarrow> bytes option" where
  "GetClusterID m = (case m of None \<Rightarrow> None | Some x \<Rightarrow> msg_ClusterID x)"

definition GetClusterName :: "XLRegMsg option \<Rightarrow> string" where
  "GetClusterName m = (case m of None \<Rightarrow> [] | Some x \<Rightarrow>
     (case msg_ClusterName x of None \<Rightarrow> [] | Some s \<Rightarrow> s))"

definition GetClusterMaxSize :: "XLRegMsg option \<Rightarrow> u32" where
  "GetClusterMaxSize m = (case m of None \<Rightarrow> 0 | Some x \<Rightarrow>
     (case msg_ClusterMaxSize x of None \<Rightarrow> 0 | Some a \<Rightarrow> a))"

definition GetClusterAttrs :: "XLRegMsg option \<Rightarrow> u64" where
  "GetClusterAttrs m = (case m of None \<Rightarrow> 0 | Some x \<Rightarrow>
     (case msg_ClusterAttrs x of None \<Rightarrow> 0 | Some a \<Rightarrow> a))"

definition GetEndPointCount :: "XLRegMsg option \<Rightarrow> u32" where
  "GetEndPointCount m = (case m of None \<Rightarrow> 0 | Some x \<Rightarrow>
     (case msg_EndPointCount x of None \<Rightarrow> 0 | Some a \<Rightarrow> a))"

definition GetWhich :: "XLRegMsg option \<Rightarrow> u64" where
  "GetWhich m = (case m of None \<Rightarrow> 0 | Some x \<Rightarrow>
     (case msg_Which x of None \<Rightarrow> 0 | Some a \<Rightarrow> a))"

definition GetTokens :: "XLRegMsg option \<Rightarrow> XLRegMsg_Token list option" where
  "GetTokens m = (case m of None \<Rightarrow> None | Some x \<Rightarrow> msg_Tokens x)"

definition GetErrDesc :: "XLRegMsg option \<Rightarrow> string" where
  "GetErrDesc m = (case m of None \<Rightarrow> [] | Some x \<Rightarrow>
     (case msg_ErrDesc x of None \<Rightarrow> [] | Some s \<Rightarrow> s))"

lemmas msg_getters [simp] =
  GetOp_def GetMemberID_def GetMemberAttrs_def GetMemberSpecs_def GetClusterID_def
  GetClusterName_def GetClusterMaxSize_def GetClusterAttrs_def GetEndPointCount_def
  GetWhich_def GetTokens_def GetErrDesc_def

end
