(* ===== verification/Externals.thy ===== *)
theory Externals
  imports GoStd Messages
begin

text \<open>
  The code the registry calls but does not contain: NodeIDs (\<open>xlNodeID_go\<close>), RSA keys in wire
  form and the line reader (\<open>xlCrypto_go\<close>), BaseNodes (\<open>xlNode_go\<close>), bit maps (\<open>xlUtil_go\<close>),
  hash array mapped tries (\<open>hamt_go\<close>) and the Bloom filter (\<open>xlCrypto_go/filters\<close>), and the two
  cryptographic primitives of the standard library, SHA-1 and PKCS 1 v1.5 verification.
  These are parameters of the model: fields of a record of functions that every operation takes.
  What the registry relies on is stated by the predicates of the last section, each one the
  documented behaviour of the library; theorems that need one take it as a hypothesis.
\<close>

section \<open>Data\<close>

text \<open>A NodeID is seen through \<open>Value\<close>, which returns (a copy of) its bytes.\<close>

datatype nodeID = NodeID (Value: bytes)

text \<open>\<open>rsa.PublicKey\<close> and \<open>rsa.PrivateKey\<close>.\<close>

record rsa_pub =
  rsa_N :: nat
  rsa_E :: int

record rsa_priv =
  rsa_pub_of :: rsa_pub
  rsa_D :: nat

text \<open>\<open>xt.TcpEndPoint\<close>, known by its address.\<close>

datatype EndPoint = EndPoint string

text \<open>
  \<open>xn.BaseNode\<close> as its accessors show it: \<open>GetName\<close>, \<open>GetNodeID\<close>, \<open>GetCommsPublicKey\<close>,
  \<open>GetSigPublicKey\<close>.
\<close>

record BaseNode =
  bn_name :: string
  bn_id :: nodeID
  bn_ck :: "rsa_pub option"
  bn_sk :: "rsa_pub option"

section \<open>Library operations\<close>

text \<open>
  \<open>xi_New\<close> is \<open>xi.New\<close> on a non-nil slice, \<open>xi_Random n\<close> what the \<open>n\<close>-th call \<open>xi.New(nil)\<close> of a
  run returns. \<open>NextNBLine\<close> takes the lines left and returns the next non-blank one, trimmed, or
  an error, and the lines left after it. The bit map operations work on the field \<open>Bits\<close> of
  \<open>BitMap64\<close>.
\<close>

record extlib =
  xi_New :: "bytes \<Rightarrow> string + nodeID"
  xi_Random :: "nat \<Rightarrow> string + nodeID"
  RSAPubKeyFromWire :: "bytes option \<Rightarrow> string + rsa_pub"
  RSAPubKeyToWire :: "rsa_pub option \<Rightarrow> string + bytes"
  NextNBLine :: "string list \<Rightarrow> (string + string) \<times> string list"
  NewBaseNode :: "string \<Rightarrow> nodeID option \<Rightarrow> rsa_pub option \<Rightarrow> rsa_pub option \<Rightarrow> string + BaseNode"
  BaseNode_Strings :: "BaseNode \<Rightarrow> string list"
  BaseNode_Equal :: "BaseNode \<Rightarrow> BaseNode \<Rightarrow> bool"
  ParseBNFromStrings :: "string list \<Rightarrow> string \<Rightarrow> string + (BaseNode \<times> string list)"
  sha1_Sum :: "bytes \<Rightarrow> bytes"
  VerifyPKCS1v15 :: "rsa_pub \<Rightarrow> bytes \<Rightarrow> bytes option \<Rightarrow> string option"
  bm_LowNMap :: "nat \<Rightarrow> u64"
  bm_Intersection :: "u64 \<Rightarrow> u64 \<Rightarrow> u64"
  bm_Test :: "u64 \<Rightarrow> nat \<Rightarrow> bool"
  bm_Set :: "u64 \<Rightarrow> nat \<Rightarrow> u64"

text \<open>
  The tries (type \<open>'h\<close>) hold values of type \<open>'v\<close> under keys made from bytes. \<open>Find\<close> returns the
  value, nil when there is none, and an error; \<open>Insert\<close> changes the trie in place.
\<close>

record ('h, 'v) hamtlib = extlib +
  ha_MAX_W :: nat
  NextExp2_32 :: "u32 \<Rightarrow> nat"
  NewHAMT :: "nat \<Rightarrow> nat \<Rightarrow> string + 'h"
  NewBytesKey :: "bytes \<Rightarrow> bytes \<times> string option"
  ha_Find :: "'h \<Rightarrow> bytes \<Rightarrow> 'v option \<times> string option"
  ha_Insert :: "'h \<Rightarrow> bytes \<Rightarrow> 'v \<Rightarrow> 'h \<times> string option"

text \<open>
  The Bloom filter (type \<open>'b\<close>), in memory or mapped to a file; what the registry's credentials are
  printed with and read by; and the file system, which takes a directory, a file name and the text.
\<close>

record ('h, 'v, 'b) reglib = "('h, 'v) hamtlib" +
  NewBloomSHA :: "nat \<Rightarrow> nat \<Rightarrow> string + 'b"
  NewMappedBloomSHA :: "nat \<Rightarrow> nat \<Rightarrow> string \<Rightarrow> string + 'b"
  bf_IsMember :: "'b \<Rightarrow> bytes \<Rightarrow> string + bool"
  bf_Insert :: "'b \<Rightarrow> bytes \<Rightarrow> string + 'b"
  bf_Size :: "'b \<Rightarrow> nat"
  ParseDecimalVersion :: "string \<Rightarrow> string + u32"
  DecimalVersion_String :: "u32 \<Rightarrow> string"
  NodeID_String :: "nodeID \<Rightarrow> string"
  RSAPubKeyToDisk :: "rsa_pub option \<Rightarrow> string \<times> string option"
  RSAPubKeyFromDisk :: "string \<Rightarrow> string + rsa_pub"
  NewTcpEndPoint :: "string \<Rightarrow> string + EndPoint"
  EndPoint_String :: "EndPoint \<Rightarrow> string"
  WriteFile :: "string \<Rightarrow> string \<Rightarrow> string \<Rightarrow> string option"

text \<open>
  Protocol buffers and AES sessions (type \<open>'s\<close>). Encryption draws an initialization vector from
  the session's random number generator, so it changes the session. \<open>AesSession_zero\<close> is the zero
  value of the structure, which a connection has before the hello.
\<close>

record ('h, 'v, 'b, 's) serverlib = "('h, 'v, 'b) reglib" +
  proto_Marshal :: "XLRegMsg \<Rightarrow> string + bytes"
  proto_Unmarshal :: "bytes \<Rightarrow> string + XLRegMsg"
  AesSession_zero :: "'s"
  aes_Encrypt :: "'s \<Rightarrow> bytes \<Rightarrow> 's \<times> (string + bytes)"
  aes_Decrypt :: "'s \<Rightarrow> bytes \<Rightarrow> string + bytes"
  ServerDecryptHello :: "bytes \<Rightarrow> rsa_priv \<Rightarrow> string + ('s \<times> u32)"
  ServerEncryptHelloReply :: "'s \<Rightarrow> u32 \<Rightarrow> string + ('s \<times> bytes)"

section \<open>What the registry relies on\<close>

text \<open>NodeIDs, random ones too, are 20 or 32 bytes long; they keep the bytes they are made from.\<close>

definition valid_id :: "bytes \<Rightarrow> bool" where
  "valid_id b \<longleftrightarrow> length b = 20 \<or> length b = 32"

definition nodeids_ok :: "'z extlib_scheme \<Rightarrow> bool" where
  "nodeids_ok X \<longleftrightarrow> (\<forall>b. valid_id b \<longrightarrow> xi_New X b = Inr (NodeID b))
     \<and> (\<forall>b n. xi_New X b = Inr n \<longrightarrow> n = NodeID b)
     \<and> (\<forall>d n. xi_Random X d = Inr n \<longrightarrow> valid_id (Value n))"

text \<open>A key in wire form reads back as the same key.\<close>

definition keys_ok :: "'z extlib_scheme \<Rightarrow> bool" where
  "keys_ok X \<longleftrightarrow> (\<forall>k b. RSAPubKeyToWire X (Some k) = Inr b \<longrightarrow> RSAPubKeyFromWire X (Some b) = Inr k)"

text \<open>A BaseNode has the name, ID and keys it is made from; \<open>Equal\<close> compares all four.\<close>

definition basenodes_ok :: "'z extlib_scheme \<Rightarrow> bool" where
  "basenodes_ok X \<longleftrightarrow>
     (\<forall>name i ck sk bn. NewBaseNode X name i ck sk = Inr bn \<longrightarrow>
        (\<exists>n. i = Some n \<and> bn = \<lparr>bn_name = name, bn_id = n, bn_ck = ck, bn_sk = sk\<rparr>))
     \<and> (\<forall>a b. BaseNode_Equal X a b \<longleftrightarrow> a = b)"

text \<open>The line reader returns the first non-blank line, trimmed, and fails when there is none.\<close>

definition lines_ok :: "'z extlib_scheme \<Rightarrow> bool" where
  "lines_ok X \<longleftrightarrow>
     (\<forall>l ls. TrimSpace l \<noteq> [] \<longrightarrow> NextNBLine X (l # ls) = (Inr (TrimSpace l), ls))
     \<and> (\<forall>l ls. TrimSpace l = [] \<longrightarrow> NextNBLine X (l # ls) = NextNBLine X ls)
     \<and> (\<exists>e. NextNBLine X [] = (Inl e, []))"

text \<open>
  \<open>ParseBNFromStrings\<close> reads back what \<open>Strings\<close> printed under the heading it is given, at any
  indentation, and returns the lines that follow.
\<close>

definition indent :: "string \<Rightarrow> bool" where
  "indent p \<longleftrightarrow> list_all (\<lambda>c. c = CHR '' '') p"

definition bn_lines :: "'z extlib_scheme \<Rightarrow> string \<Rightarrow> string \<Rightarrow> BaseNode \<Rightarrow> string list" where
  "bn_lines X p heading bn =
     (p @ heading @ '' {'') # concat (map (\<lambda>l. split_nl (p @ ''    '' @ l)) (BaseNode_Strings X bn))"

definition reparses :: "'z extlib_scheme \<Rightarrow> string \<Rightarrow> BaseNode \<Rightarrow> bool" where
  "reparses X heading bn \<longleftrightarrow>
     (\<forall>p rest. indent p \<longrightarrow> ParseBNFromStrings X (bn_lines X p heading bn @ rest) heading = Inr (bn, rest))"

text \<open>The bit map operations work bitwise on 64 bits.\<close>

definition bitmaps_ok :: "'z extlib_scheme \<Rightarrow> bool" where
  "bitmaps_ok X \<longleftrightarrow>
     (\<forall>n i. n \<le> 64 \<longrightarrow> bit (bm_LowNMap X n) i = (i < n))
     \<and> (\<forall>a b. bm_Intersection X a b = a AND b)
     \<and> (\<forall>a i. i < 64 \<longrightarrow> bm_Test X a i = bit a i)
     \<and> (\<forall>a i. i < 64 \<longrightarrow> bm_Set X a i = a OR push_bit i 1)"

lemma nodeids_okD:
  assumes "nodeids_ok X"
  shows "valid_id b \<Longrightarrow> xi_New X b = Inr (NodeID b)" and "xi_New X b = Inr n \<Longrightarrow> n = NodeID b"
    and "xi_Random X d = Inr n \<Longrightarrow> valid_id (Value n)"
  using assms unfolding nodeids_ok_def by blast+

lemma keys_okD: "keys_ok X \<Longrightarrow> RSAPubKeyToWire X (Some k) = Inr b \<Longrightarrow> RSAPubKeyFromWire X (Some b) = Inr k"
  unfolding keys_ok_def by blast

lemma basenodes_okD:
  assumes "basenodes_ok X"
  shows "NewBaseNode X name i ck sk = Inr bn \<Longrightarrow>
      \<exists>n. i = Some n \<and> bn = \<lparr>bn_name = name, bn_id = n, bn_ck = ck, bn_sk = sk\<rparr>"
    and "BaseNode_Equal X a b \<longleftrightarrow> a = b"
  using assms unfolding basenodes_ok_def by blast+

lemma lines_okD:
  assumes "lines_ok X"
  shows "TrimSpace l \<noteq> [] \<Longrightarrow> NextNBLine X (l # ls) = (Inr (TrimSpace l), ls)"
    and "TrimSpace l = [] \<Longrightarrow> NextNBLine X (l # ls) = NextNBLine X ls"
    and "\<exists>e. NextNBLine X [] = (Inl e, [])"
  using assms unfolding lines_ok_def by blast+

lemma NextNBLine_Nil: "lines_ok X \<Longrightarrow> snd (NextNBLine X []) = []"
  by (drule lines_okD(3)) (erule exE, simp)

lemma is_space_blank: "is_space (CHR '' '')"
  by (simp add: is_space_def)

lemma indent_spaces: "indent p \<Longrightarrow> \<forall>c \<in> set p. is_space c"
  by (induction p) (simp_all add: indent_def is_space_blank)

lemma indent_simps [simp]: "indent []" "indent (p @ q) \<longleftrightarrow> indent p \<and> indent q"
  by (simp_all add: indent_def)

lemma indent_four [simp]: "indent ''    ''"
  by (simp add: indent_def)

lemma indent_no_newline: "indent p \<Longrightarrow> CHR 0x0A \<notin> set p"
  by (induction p) (simp_all add: indent_def)

lemma TrimSpace_printed: "indent p \<Longrightarrow> solid s \<Longrightarrow> TrimSpace (p @ s) = s"
  by (rule TrimSpace_indent [OF indent_spaces])

lemma NextNBLine_solid:
  assumes "lines_ok X" and "indent p" and "solid s"
  shows "NextNBLine X ((p @ s) # ls) = (Inr s, ls)"
proof -
  from assms(2,3) have "TrimSpace (p @ s) = s" by (rule TrimSpace_printed)
  with assms(3) lines_okD(1) [OF assms(1), of "p @ s" ls] show ?thesis
    by (simp add: solid_def)
qed

text \<open>A line that ended in CR LF keeps the CR when split at LF; trimming removes it.\<close>

definition cr :: string where
  "cr = [CHR 0x0D]"

lemma TrimSpace_cr:
  assumes "indent p" and "solid s"
  shows "TrimSpace (p @ s @ cr) = s"
proof -
  have "dropWhile is_space (p @ s @ cr) = s @ cr"
    using dropWhile_indent [OF indent_spaces [OF assms(1)], of "s @ cr"] assms(2)
    by (auto simp: solid_def)
  moreover have "dropWhile is_space (rev (s @ cr)) = rev s"
    using assms(2) by (cases s rule: rev_cases) (auto simp: solid_def cr_def is_space_def)
  ultimately show ?thesis by (simp add: TrimSpace_def)
qed

lemma NextNBLine_cr:
  assumes "lines_ok X" and "indent p" and "solid s"
  shows "NextNBLine X ((p @ s @ cr) # ls) = (Inr s, ls)"
  using lines_okD(1) [OF assms(1), of "p @ s @ cr" ls] TrimSpace_cr [OF assms(2,3)] assms(3)
  by (simp add: solid_def)

lemma NextNBLine_le: "lines_ok X \<Longrightarrow> length (snd (NextNBLine X ls)) \<le> length ls"
proof (induction ls)
  case Nil
  then show ?case by (simp add: NextNBLine_Nil)
next
  case (Cons l ls)
  then show ?case
    by (cases "TrimSpace l = []") (simp_all add: lines_okD(1,2))
qed

lemma NextNBLine_shrinks:
  "lines_ok X \<Longrightarrow> length (snd (NextNBLine X (l # ls))) < length (l # ls)"
  using NextNBLine_le [of X ls] by (cases "TrimSpace l = []") (simp_all add: lines_okD(1,2))

lemma bitmaps_okD:
  assumes "bitmaps_ok X"
  shows "n \<le> 64 \<Longrightarrow> bit (bm_LowNMap X n) i = (i < n)"
    and "bm_Intersection X a b = a AND b"
    and "i < 64 \<Longrightarrow> bm_Test X a i = bit a i"
    and "i < 64 \<Longrightarrow> bm_Set X a i = a OR push_bit i 1"
  using assms unfolding bitmaps_ok_def by blast+

text \<open>
  A new trie is empty; a stored value is found under its key and nothing else changes; a failed
  insertion changes nothing; keys are the bytes they are made from, and an ID can be a key.
\<close>

definition hamt_ok :: "('h, 'v, 'z) hamtlib_scheme \<Rightarrow> bool" where
  "hamt_ok L \<longleftrightarrow>
     (\<forall>w t h k. NewHAMT L w t = Inr h \<longrightarrow> ha_Find L h k = (None, None))
     \<and> (\<forall>h k v h'. ha_Insert L h k v = (h', None) \<longrightarrow>
          ha_Find L h' = (ha_Find L h)(k := (Some v, None)))
     \<and> (\<forall>h k v h' e. ha_Insert L h k v = (h', Some e) \<longrightarrow> ha_Find L h' = ha_Find L h)
     \<and> (\<forall>b k. NewBytesKey L b = (k, None) \<longrightarrow> k = b)
     \<and> (\<forall>b. valid_id b \<longrightarrow> NewBytesKey L b = (b, None))"

lemma hamt_okD:
  assumes "hamt_ok L"
  shows "NewHAMT L w t = Inr h \<Longrightarrow> ha_Find L h k = (None, None)"
    and "ha_Insert L h k v = (h', None) \<Longrightarrow> ha_Find L h' = (ha_Find L h)(k := (Some v, None))"
    and "ha_Insert L h k v = (h', Some e) \<Longrightarrow> ha_Find L h' = ha_Find L h"
    and "NewBytesKey L b = (k, None) \<Longrightarrow> k = b"
    and "valid_id b \<Longrightarrow> NewBytesKey L b = (b, None)"
  using assms unfolding hamt_ok_def by blast+

text \<open>
  The Bloom filter has no false negatives, never forgets, and counts the insertions. It may report
  an ID that was never inserted.
\<close>

definition bloom_ok :: "('h, 'v, 'b, 'z) reglib_scheme \<Rightarrow> bool" where
  "bloom_ok L \<longleftrightarrow>
     (\<forall>f b f'. bf_Insert L f b = Inr f' \<longrightarrow> bf_IsMember L f' b = Inr True)
     \<and> (\<forall>f b f' c. bf_Insert L f b = Inr f' \<longrightarrow> bf_IsMember L f c = Inr True \<longrightarrow> bf_IsMember L f' c = Inr True)
     \<and> (\<forall>f b f'. bf_Insert L f b = Inr f' \<longrightarrow> bf_Size L f' = Suc (bf_Size L f))"

lemma bloom_okD:
  assumes "bloom_ok L"
  shows "bf_Insert L f b = Inr f' \<Longrightarrow> bf_IsMember L f' b = Inr True"
    and "bf_Insert L f b = Inr f' \<Longrightarrow> bf_IsMember L f c = Inr True \<Longrightarrow> bf_IsMember L f' c = Inr True"
    and "bf_Insert L f b = Inr f' \<Longrightarrow> bf_Size L f' = Suc (bf_Size L f)"
  using assms unfolding bloom_ok_def by blast+

text \<open>
  End points, IDs and versions are printed on one line, without the separator \<open>": "\<close> inside the value,
  and read back as what was printed. A public key is printed as such a line with a line feed at its end,
  in the format of \<open>authorized_keys\<close>; the line without it reads back as the key.
\<close>

definition field_value :: "string \<Rightarrow> bool" where
  "field_value s \<longleftrightarrow> solid s \<and> CHR 0x0A \<notin> set s \<and> Split s '': '' = [s]"

definition creds_ok :: "('h, 'v, 'b, 'z) reglib_scheme \<Rightarrow> bool" where
  "creds_ok L \<longleftrightarrow>
     (\<forall>k s. RSAPubKeyToDisk L (Some k) = (s, None) \<longrightarrow>
        (\<exists>t. s = t @ newline \<and> RSAPubKeyFromDisk L t = Inr k \<and> field_value t))
     \<and> (\<forall>a ep. NewTcpEndPoint L a = Inr ep \<longrightarrow>
          (\<exists>b. EndPoint_String L ep = ''TcpEndPoint: '' @ b \<and> NewTcpEndPoint L b = Inr ep \<and> field_value b))
     \<and> (\<forall>n. NodeID_String L n = EncodeToString (Value n))
     \<and> (\<forall>v. ParseDecimalVersion L (DecimalVersion_String L v) = Inr v
          \<and> field_value (DecimalVersion_String L v))"

lemma creds_okD:
  assumes "creds_ok L"
  shows "RSAPubKeyToDisk L (Some k) = (s, None) \<Longrightarrow> \<exists>t. s = t @ newline \<and> RSAPubKeyFromDisk L t = Inr k \<and> field_value t"
    and "NewTcpEndPoint L a = Inr ep \<Longrightarrow>
      \<exists>b. EndPoint_String L ep = ''TcpEndPoint: '' @ b \<and> NewTcpEndPoint L b = Inr ep \<and> field_value b"
    and "NodeID_String L n = EncodeToString (Value n)"
    and "ParseDecimalVersion L (DecimalVersion_String L v) = Inr v"
    and "field_value (DecimalVersion_String L v)"
  using assms unfolding creds_ok_def by blast+

end
