(* ===== verification/LineCodec.thy ===== *)
theory LineCodec
  imports Externals
begin

text \<open>
  The interface between a structure with a text form and the structures that contain it. A line
  codec prints a value as lines at a given indentation and has a parser that reads the value back
  from them and returns the lines that follow. A container that reads a braced list of such
  values, adding each to its own state, reads back exactly the values that were printed.
\<close>

section \<open>The next line\<close>

text \<open>\<open>line, err = xc.NextNBLine(&rest)\<close> followed by code that runs only if \<open>err\<close> is nil.\<close>

definition with_line ::
  "'z extlib_scheme \<Rightarrow> string list \<Rightarrow> (string \<Rightarrow> string list \<Rightarrow> (gerror + 'a) outcome) \<Rightarrow>
   (gerror + 'a) outcome" where
  "with_line X ss k =
     (case NextNBLine X ss of (Inl e, rest) \<Rightarrow> Ret (Inl (Ext e)) | (Inr line, rest) \<Rightarrow> k line rest)"

lemma with_line_printed:
  "lines_ok X \<Longrightarrow> indent p \<Longrightarrow> solid s \<Longrightarrow> with_line X ((p @ s) # ls) k = k s ls"
  by (simp add: with_line_def NextNBLine_solid)

section \<open>Reading a braced list\<close>

text \<open>
  The loop that reads items up to a closing brace: it looks at the first remaining line (without
  checking that there is one), stops at a brace, otherwise parses an item and adds it, and stops
  at the first error.
\<close>

partial_function (option) items_loop ::
  "(string list \<Rightarrow> (gerror + ('a \<times> string list)) outcome) \<Rightarrow> ('a \<Rightarrow> 's \<Rightarrow> 's \<times> gerror option) \<Rightarrow>
   's \<Rightarrow> string list \<Rightarrow> ('s \<times> string list \<times> gerror option) outcome option" where
  "items_loop parse add s rest =
     (case rest of
        [] \<Rightarrow> Some (Panic IndexOutOfRange)
      | l # _ \<Rightarrow>
          if TrimSpace l = ''}'' then Some (Ret (s, rest, None))
          else (case parse rest of
                  Panic p \<Rightarrow> Some (Panic p)
                | Hang \<Rightarrow> Some Hang
                | Ret (Inl e) \<Rightarrow> Some (Ret (s, rest, Some e))
                | Ret (Inr (a, rest')) \<Rightarrow>
                    (case add a s of
                       (s', Some e) \<Rightarrow> Some (Ret (s', rest', Some e))
                     | (s', None) \<Rightarrow> items_loop parse add s' rest')))"

text \<open>Adding a list of items one by one, all of them without an error.\<close>

fun adds :: "('a \<Rightarrow> 's \<Rightarrow> 's \<times> gerror option) \<Rightarrow> 'a list \<Rightarrow> 's \<Rightarrow> 's option" where
  "adds add [] s = Some s"
| "adds add (a # as) s =
     (case add a s of (s', None) \<Rightarrow> adds add as s' | (s', Some e) \<Rightarrow> None)"

lemma solid_brace: "solid ''}''"
  by (simp add: solid_def is_space_def)

lemma closing_brace: "indent q \<Longrightarrow> TrimSpace (q @ ''}'') = ''}''"
  by (rule TrimSpace_printed) (simp_all add: solid_brace)

section \<open>The interface\<close>

locale line_codec =
  fixes lines_of :: "string \<Rightarrow> 'a \<Rightarrow> string list"
    and parse :: "string list \<Rightarrow> (gerror + ('a \<times> string list)) outcome"
    and wf :: "'a \<Rightarrow> bool"
  assumes reads_back: "wf a \<Longrightarrow> indent p \<Longrightarrow> parse (lines_of p a @ rest) = Ret (Inr (a, rest))"
    and opens: "wf a \<Longrightarrow> indent p \<Longrightarrow> \<exists>l ls. lines_of p a = l # ls \<and> TrimSpace l \<noteq> ''}''"
begin

lemma items_loop_reads_back:
  assumes "indent p" and "TrimSpace q = ''}''" and "\<forall>a \<in> set as. wf a" and "adds add as s = Some s'"
  shows "items_loop parse add s (concat (map (lines_of p) as) @ q # rest) =
           Some (Ret (s', q # rest, None))"
  using assms(3,4)
proof (induction as arbitrary: s)
  case Nil
  then show ?case by (simp add: items_loop.simps assms(2))
next
  case (Cons a as)
  then have wf: "wf a" by simp
  obtain l ls where l: "lines_of p a = l # ls" "TrimSpace l \<noteq> ''}''"
    using opens [OF wf assms(1)] by blast
  obtain s1 where s1: "add a s = (s1, None)" "adds add as s1 = Some s'"
    using Cons.prems(2) by (auto split: prod.splits option.splits)
  let ?tl = "concat (map (lines_of p) as) @ q # rest"
  have "parse (l # ls @ ?tl) = Ret (Inr (a, ?tl))"
    using reads_back [OF wf assms(1), of ?tl] l(1) by simp
  then have "items_loop parse add s (l # ls @ ?tl) = items_loop parse add s1 ?tl"
    by (subst items_loop.simps) (simp add: l(2) s1(1))
  then show ?case using Cons.IH [OF _ s1(2)] Cons.prems(1) l(1) by simp
qed

lemma reads_back_alone: "wf a \<Longrightarrow> parse (lines_of [] a) = Ret (Inr (a, []))"
  using reads_back [of a "[]" "[]"] by simp

end

end
