(* ===== verification/RefLib.thy ===== *)
theory RefLib
  imports LineCodec
begin

text \<open>
  A concrete instance of the library record, on which the hypotheses about the libraries hold:
  tries are association lists, the Bloom filter is a list, keys travel as one byte, the random
  number generator counts, and messages are encoded by their position in a table. The theorems of
  the other theories are instantiated on it to show that their hypotheses can be met.
\<close>

section \<open>The functions\<close>

fun ref_NextNBLine :: "string list \<Rightarrow> (string + string) \<times> string list" where
  "ref_NextNBLine [] = (Inl ''no more lines'', [])"
| "ref_NextNBLine (l # ls) =
     (if TrimSpace l = [] then ref_NextNBLine ls else (Inr (TrimSpace l), ls))"

definition ref_ToWire :: "rsa_pub option \<Rightarrow> string + bytes" where
  "ref_ToWire k = (case k of None \<Rightarrow> Inl ''nil key''
     | Some k \<Rightarrow> if rsa_N k < 256 \<and> rsa_E k = 65537 then Inr [word_of_nat (rsa_N k)]
                 else Inl ''key too long'')"

definition ref_FromWire :: "bytes option \<Rightarrow> string + rsa_pub" where
  "ref_FromWire b = (case b of Some [n] \<Rightarrow> Inr \<lparr>rsa_N = unat n, rsa_E = 65537\<rparr> | _ \<Rightarrow> Inl ''not a key'')"

definition ref_key_line :: "rsa_pub option \<Rightarrow> string" where
  "ref_key_line k = (case k of None \<Rightarrow> ''key: none'' | Some k \<Rightarrow> ''key: '' @ fmt_d (rsa_N k))"

definition ref_read_key :: "string \<Rightarrow> rsa_pub option" where
  "ref_read_key l = (case Atoi (drop 5 l) of Inl e \<Rightarrow> None | Inr n \<Rightarrow> Some \<lparr>rsa_N = nat n, rsa_E = 65537\<rparr>)"

definition ref_BN_Strings :: "BaseNode \<Rightarrow> string list" where
  "ref_BN_Strings bn =
     [''name: '' @ bn_name bn, ''nodeID: '' @ EncodeToString (Value (bn_id bn)),
      ref_key_line (bn_ck bn), ref_key_line (bn_sk bn)]"

fun ref_ParseBN :: "string list \<Rightarrow> string \<Rightarrow> string + (BaseNode \<times> string list)" where
  "ref_ParseBN (h # a # b # c # d # rest) heading =
     (if TrimSpace h \<noteq> heading @ '' {'' then Inl ''wrong heading''
      else case DecodeString (drop 8 (TrimSpace b)) of
        Inl e \<Rightarrow> Inl ''bad ID''
      | Inr v \<Rightarrow> Inr (\<lparr>bn_name = drop 6 (TrimSpace a), bn_id = NodeID v,
                       bn_ck = ref_read_key (TrimSpace c), bn_sk = ref_read_key (TrimSpace d)\<rparr>, rest))"
| "ref_ParseBN _ heading = Inl ''too few lines''"

definition ref_index :: "XLRegMsg list \<Rightarrow> XLRegMsg \<Rightarrow> nat option" where
  "ref_index ms m = (if m \<in> set ms then Some (length (takeWhile (\<lambda>x. x \<noteq> m) ms)) else None)"

definition reflib ::
  "XLRegMsg list \<Rightarrow> ((bytes \<times> 'v) list, 'v, bytes list, u32) serverlib" where
  "reflib ms = \<lparr>
     xi_New = (\<lambda>b. if valid_id b then Inr (NodeID b) else Inl ''bad NodeID''),
     xi_Random = (\<lambda>n. Inr (NodeID (replicate 19 0 @ [word_of_nat n]))),
     RSAPubKeyFromWire = ref_FromWire,
     RSAPubKeyToWire = ref_ToWire,
     NextNBLine = ref_NextNBLine,
     NewBaseNode = (\<lambda>name i ck sk. case i of None \<Rightarrow> Inl ''nil ID'' | Some n \<Rightarrow>
        if name = [] then Inl ''no name'' else Inr \<lparr>bn_name = name, bn_id = n, bn_ck = ck, bn_sk = sk\<rparr>),
     BaseNode_Strings = ref_BN_Strings,
     BaseNode_Equal = (\<lambda>a b. a = b),
     ParseBNFromStrings = ref_ParseBN,
     sha1_Sum = (\<lambda>b. take 20 (rev b @ replicate 20 0)),
     VerifyPKCS1v15 = (\<lambda>k h s. if s = Some h then None else Some ''verification error''),
     bm_LowNMap = (\<lambda>n. mask n),
     bm_Intersection = (\<lambda>a b. a AND b),
     bm_Test = (\<lambda>a i. bit a i),
     bm_Set = (\<lambda>a i. a OR push_bit i 1),
     ha_MAX_W = 6,
     NextExp2_32 = (\<lambda>n. unat n),
     NewHAMT = (\<lambda>w t. Inr []),
     NewBytesKey = (\<lambda>b. if b = [] then (b, Some ''empty key'') else (b, None)),
     ha_Find = (\<lambda>h k. (map_of h k, None)),
     ha_Insert = (\<lambda>h k v. ((k, v) # h, None)),
     NewBloomSHA = (\<lambda>m k. Inr []),
     NewMappedBloomSHA = (\<lambda>m k f. Inr []),
     bf_IsMember = (\<lambda>f b. Inr (b \<in> set f)),
     bf_Insert = (\<lambda>f b. Inr (b # f)),
     bf_Size = length,
     ParseDecimalVersion = (\<lambda>s. case Atoi s of Inl e \<Rightarrow> Inl ''bad version'' | Inr n \<Rightarrow> Inr (word_of_int n)),
     DecimalVersion_String = (\<lambda>v. fmt_d (unat v)),
     NodeID_String = (\<lambda>n. EncodeToString (Value n)),
     RSAPubKeyToDisk = (\<lambda>k. case k of Some k \<Rightarrow> if rsa_N k < 2 ^ 63 \<and> rsa_E k = 65537 then (fmt_d (rsa_N k) @ newline, None) else ([], Some ''bad key'') | None \<Rightarrow> ([], Some ''nil key'')),
     RSAPubKeyFromDisk = (\<lambda>s. case Atoi s of Inl e \<Rightarrow> Inl ''not a key''
        | Inr n \<Rightarrow> Inr \<lparr>rsa_N = nat n, rsa_E = 65537\<rparr>),
     NewTcpEndPoint = (\<lambda>s. if field_value s then Inr (EndPoint s) else Inl ''bad address''),
     EndPoint_String = (\<lambda>e. case e of EndPoint s \<Rightarrow> ''TcpEndPoint: '' @ s),
     WriteFile = (\<lambda>d n t. None),
     proto_Marshal = (\<lambda>m. case ref_index ms m of None \<Rightarrow> Inl ''no encoding'' | Some i \<Rightarrow> Inr [word_of_nat i]),
     proto_Unmarshal = (\<lambda>b. case b of [i] \<Rightarrow> if unat i < length ms then Inr (ms ! unat i) else Inl ''bad message''
        | _ \<Rightarrow> Inl ''bad message''),
     AesSession_zero = 0,
     aes_Encrypt = (\<lambda>s p. (s + 1, Inr (ucast s # p))),
     aes_Decrypt = (\<lambda>s c. case c of [] \<Rightarrow> Inl ''too short'' | iv # p \<Rightarrow> Inr p),
     ServerDecryptHello = (\<lambda>c k. if c = [] then Inl ''too short'' else Inr (0, 1)),
     ServerEncryptHelloReply = (\<lambda>s v. Inr (s + 1, [ucast v]))\<rparr>"

text \<open>The fields, for rewriting.\<close>

lemma reflib_fields [simp]:
  "xi_New (reflib ms) = (\<lambda>b. if valid_id b then Inr (NodeID b) else Inl ''bad NodeID'')"
  "xi_Random (reflib ms) = (\<lambda>n. Inr (NodeID (replicate 19 0 @ [word_of_nat n])))"
  "RSAPubKeyFromWire (reflib ms) = ref_FromWire"
  "RSAPubKeyToWire (reflib ms) = ref_ToWire"
  "NextNBLine (reflib ms) = ref_NextNBLine"
  "NewBaseNode (reflib ms) = (\<lambda>name i ck sk. case i of None \<Rightarrow> Inl ''nil ID'' | Some n \<Rightarrow> if name = [] then Inl ''no name'' else Inr \<lparr>bn_name = name, bn_id = n, bn_ck = ck, bn_sk = sk\<rparr>)"
  "BaseNode_Strings (reflib ms) = ref_BN_Strings"
  "BaseNode_Equal (reflib ms) = (\<lambda>a b. a = b)"
  "ParseBNFromStrings (reflib ms) = ref_ParseBN"
  "sha1_Sum (reflib ms) = (\<lambda>b. take 20 (rev b @ replicate 20 0))"
  "VerifyPKCS1v15 (reflib ms) = (\<lambda>k h s. if s = Some h then None else Some ''verification error'')"
  "bm_LowNMap (reflib ms) = (\<lambda>n. mask n)"
  "bm_Intersection (reflib ms) = (\<lambda>a b. a AND b)"
  "bm_Test (reflib ms) = (\<lambda>a i. bit a i)"
  "bm_Set (reflib ms) = (\<lambda>a i. a OR push_bit i 1)"
  "ha_MAX_W (reflib ms) = 6"
  "NextExp2_32 (reflib ms) = (\<lambda>n. unat n)"
  "NewHAMT (reflib ms) = (\<lambda>w t. Inr [])"
  "NewBytesKey (reflib ms) = (\<lambda>b. if b = [] then (b, Some ''empty key'') else (b, None))"
  "ha_Find (reflib ms) = (\<lambda>h k. (map_of h k, None))"
  "ha_Insert (reflib ms) = (\<lambda>h k v. ((k, v) # h, None))"
  "NewBloomSHA (reflib ms) = (\<lambda>m k. Inr [])"
  "NewMappedBloomSHA (reflib ms) = (\<lambda>m k f. Inr [])"
  "bf_IsMember (reflib ms) = (\<lambda>f b. Inr (b \<in> set f))"
  "bf_Insert (reflib ms) = (\<lambda>f b. Inr (b # f))"
  "bf_Size (reflib ms) = length"
  "ParseDecimalVersion (reflib ms) = (\<lambda>s. case Atoi s of Inl e \<Rightarrow> Inl ''bad version'' | Inr n \<Rightarrow> Inr (word_of_int n))"
  "DecimalVersion_String (reflib ms) = (\<lambda>v. fmt_d (unat v))"
  "NodeID_String (reflib ms) = (\<lambda>n. EncodeToString (Value n))"
  "RSAPubKeyToDisk (reflib ms) = (\<lambda>k. case k of Some k \<Rightarrow> if rsa_N k < 2 ^ 63 \<and> rsa_E k = 65537 then (fmt_d (rsa_N k) @ newline, None) else ([], Some ''bad key'') | None \<Rightarrow> ([], Some ''nil key''))"
  "RSAPubKeyFromDisk (reflib ms) = (\<lambda>s. case Atoi s of Inl e \<Rightarrow> Inl ''not a key'' | Inr n \<Rightarrow> Inr \<lparr>rsa_N = nat n, rsa_E = 65537\<rparr>)"
  "NewTcpEndPoint (reflib ms) = (\<lambda>s. if field_value s then Inr (EndPoint s) else Inl ''bad address'')"
  "EndPoint_String (reflib ms) = (\<lambda>e. case e of EndPoint s \<Rightarrow> ''TcpEndPoint: '' @ s)"
  "WriteFile (reflib ms) = (\<lambda>d n t. None)"
  "proto_Marshal (reflib ms) = (\<lambda>m. case ref_index ms m of None \<Rightarrow> Inl ''no encoding'' | Some i \<Rightarrow> Inr [word_of_nat i])"
  "proto_Unmarshal (reflib ms) = (\<lambda>b. case b of [i] \<Rightarrow> if unat i < length ms then Inr (ms ! unat i) else Inl ''bad message'' | _ \<Rightarrow> Inl ''bad message'')"
  "AesSession_zero (reflib ms) = 0"
  "aes_Encrypt (reflib ms) = (\<lambda>s p. (s + 1, Inr (ucast s # p)))"
  "aes_Decrypt (reflib ms) = (\<lambda>s c. case c of [] \<Rightarrow> Inl ''too short'' | iv # p \<Rightarrow> Inr p)"
  "ServerDecryptHello (reflib ms) = (\<lambda>c k. if c = [] then Inl ''too short'' else Inr (0, 1))"
  "ServerEncryptHelloReply (reflib ms) = (\<lambda>s v. Inr (s + 1, [ucast v]))"
  by (simp_all add: reflib_def)

section \<open>The hypotheses hold\<close>

lemma reflib_nodeids [simp]: "nodeids_ok (reflib ms)"
  by (auto simp: nodeids_ok_def valid_id_def)

lemma ref_keys_inverse: "ref_ToWire (Some k) = Inr b \<Longrightarrow> ref_FromWire (Some b) = Inr k"
  by (cases k) (auto simp: ref_ToWire_def ref_FromWire_def unat_of_nat split: if_splits)

lemma reflib_keys [simp]: "keys_ok (reflib ms)"
  by (simp add: keys_ok_def ref_keys_inverse)

lemma reflib_basenodes [simp]: "basenodes_ok (reflib ms)"
  by (auto simp: basenodes_ok_def split: option.splits if_splits)

lemma reflib_lines [simp]: "lines_ok (reflib ms)"
  by (simp add: lines_ok_def)

lemma reflib_bitmaps [simp]: "bitmaps_ok (reflib ms)"
  by (auto simp: bitmaps_ok_def bit_mask_iff)

lemma reflib_hamt [simp]: "hamt_ok (reflib ms)"
  by (auto simp: hamt_ok_def valid_id_def fun_eq_iff split: if_splits)

lemma reflib_bloom [simp]: "bloom_ok (reflib ms)"
  by (auto simp: bloom_ok_def)

definition ref_key_ok :: "rsa_pub option \<Rightarrow> bool" where
  "ref_key_ok k \<longleftrightarrow> (case k of None \<Rightarrow> True | Some k \<Rightarrow> rsa_N k < 2 ^ 63 \<and> rsa_E k = 65537)"

lemma ref_key_line_solid: "solid (ref_key_line k)" and ref_key_line_nl: "CHR 0x0A \<notin> set (ref_key_line k)"
proof -
  have "solid (''key: '' @ fmt_d n)" for n by (rule solid_field) (simp_all add: is_space_def)
  then show "solid (ref_key_line k)"
    by (auto simp: ref_key_line_def solid_def is_space_def split: option.splits)
  show "CHR 0x0A \<notin> set (ref_key_line k)"
    by (auto simp: ref_key_line_def wordy_no_newline split: option.splits)
qed

lemma ref_key_inverse: "ref_key_ok k \<Longrightarrow> ref_read_key (ref_key_line k) = k"
proof (cases k)
  case None
  have "Atoi ''none'' = Inl (Ext ''invalid syntax'')" by code_simp
  with None show ?thesis by (simp add: ref_read_key_def ref_key_line_def)
next
  case (Some r)
  moreover assume "ref_key_ok k"
  ultimately show ?thesis
    by (cases r) (simp add: ref_read_key_def ref_key_line_def ref_key_ok_def Atoi_fmt_d)
qed

definition ref_bn_ok :: "BaseNode \<Rightarrow> bool" where
  "ref_bn_ok bn \<longleftrightarrow> wordy (bn_name bn) \<and> Value (bn_id bn) \<noteq> [] \<and> ref_key_ok (bn_ck bn) \<and> ref_key_ok (bn_sk bn)"

lemma ref_bn_lines:
  assumes "ref_bn_ok bn" and "indent p"
  shows "bn_lines (reflib ms) p h bn =
     [p @ h @ '' {'', (p @ ''    '') @ (''name: '' @ bn_name bn),
      (p @ ''    '') @ (''nodeID: '' @ EncodeToString (Value (bn_id bn))),
      (p @ ''    '') @ ref_key_line (bn_ck bn), (p @ ''    '') @ ref_key_line (bn_sk bn)]"
  using assms
  by (simp add: bn_lines_def ref_BN_Strings_def ref_bn_ok_def split_nl_line
      indent_no_newline wordy_no_newline ref_key_line_nl)

lemma reflib_reparses:
  assumes "ref_bn_ok bn" and "h \<noteq> []" and "\<not> is_space (hd h)"
  shows "reparses (reflib ms) h bn"
  unfolding reparses_def
proof (intro allI impI)
  fix p rest
  assume p: "indent p"
  have q: "indent (p @ ''    '')" using p by simp
  have nm: "wordy (bn_name bn)" and i: "wordy (EncodeToString (Value (bn_id bn)))"
    using assms(1) by (simp_all add: ref_bn_ok_def)
  have s: "solid (h @ '' {'')" "solid (''name: '' @ bn_name bn)"
        "solid (''nodeID: '' @ EncodeToString (Value (bn_id bn)))"
    using assms(2,3) solid_field [OF _ _ nm] solid_field [OF _ _ i]
    by (simp_all add: solid_append is_space_def del: append_Cons)
  have d: "drop 8 (''nodeID: '' @ v) = v" "drop 6 (''name: '' @ v) = v" for v by simp_all
  have k: "ref_read_key (ref_key_line (bn_ck bn)) = bn_ck bn" "ref_read_key (ref_key_line (bn_sk bn)) = bn_sk bn"
    using assms(1) by (simp_all add: ref_key_inverse ref_bn_ok_def)
  show "ParseBNFromStrings (reflib ms) (bn_lines (reflib ms) p h bn @ rest) h = Inr (bn, rest)"
    unfolding ref_bn_lines [OF assms(1) p] reflib_fields
    by (simp only: append_Cons [where 'a = "string"] append_Nil ref_ParseBN.simps d k
          TrimSpace_printed [OF p s(1)] s(2,3) [THEN TrimSpace_printed [OF q]]
          ref_key_line_solid [THEN TrimSpace_printed [OF q]] DecodeString_EncodeToString sum.case simp_thms
          if_False nodeID.collapse BaseNode.surjective [symmetric] unit.case) simp
qed

section \<open>Sample values\<close>

text \<open>Values the instances share: IDs, keys and BaseNodes.\<close>

type_synonym reftype = "((bytes \<times> unit) list, unit, bytes list, u32) serverlib"

definition ref_id :: "u8 \<Rightarrow> bytes" where
  "ref_id n = replicate 19 1 @ [n]"

lemma ref_id_valid [simp]: "valid_id (ref_id n)" "ref_id n \<noteq> []"
  by (simp_all add: ref_id_def valid_id_def)

definition ref_pub :: rsa_pub where
  "ref_pub = \<lparr>rsa_N = 33, rsa_E = 65537\<rparr>"

definition ref_bn :: "string \<Rightarrow> u8 \<Rightarrow> BaseNode" where
  "ref_bn name n = \<lparr>bn_name = name, bn_id = NodeID (ref_id n), bn_ck = Some ref_pub, bn_sk = Some ref_pub\<rparr>"

lemma ref_bn_fields [simp]:
  "bn_name (ref_bn name n) = name" "bn_id (ref_bn name n) = NodeID (ref_id n)"
  "bn_ck (ref_bn name n) = Some ref_pub" "bn_sk (ref_bn name n) = Some ref_pub"
  by (simp_all add: ref_bn_def)

lemma ref_bn_ok [simp]: "wordy name \<Longrightarrow> ref_bn_ok (ref_bn name n)"
  by (simp add: ref_bn_ok_def ref_key_ok_def ref_pub_def)

end
