(* ===== verification/ClientInfo.thy ===== *)
theory ClientInfo
  imports RefLib
begin

text \<open>
  What the registry keeps about a client (\<open>clientInfo.go\<close>): construction, conversion to and from
  protocol tokens, equality, and the text form with its parser.
\<close>

section \<open>The structure\<close>

record ClientInfo =
  ci_Attrs :: u64
  ci_MyEnds :: "string list option"
  ci_BaseNode :: BaseNode

definition ci_GetName :: "ClientInfo \<Rightarrow> string" where
  "ci_GetName mi = bn_name (ci_BaseNode mi)"

definition ci_ID :: "ClientInfo \<Rightarrow> bytes" where
  "ci_ID mi = Value (bn_id (ci_BaseNode mi))"

definition NewClientInfo ::
  "'z extlib_scheme \<Rightarrow> string \<Rightarrow> nodeID option \<Rightarrow> rsa_pub option \<Rightarrow> rsa_pub option \<Rightarrow> u64 \<Rightarrow>
   string list option \<Rightarrow> gerror + ClientInfo" where
  "NewClientInfo X name i commsPubKey sigPubKey attrs myEnds =
     (case NewBaseNode X name i commsPubKey sigPubKey of
        Inl e \<Rightarrow> Inl (Ext e)
      | Inr base \<Rightarrow> Inr \<lparr>ci_Attrs = attrs, ci_MyEnds = myEnds, ci_BaseNode = base\<rparr>)"

section \<open>Tokens\<close>

text \<open>
  \<open>NewClientInfoFromToken\<close> declares a new \<open>err\<close> for the key conversions and for
  \<open>NewClientInfo\<close>, so an error there is not the one returned: the result is a nil pointer with a
  nil error. A token without an ID gets a random one (\<open>draw\<close> numbers that call).
\<close>

definition xi_New_or_random :: "'z extlib_scheme \<Rightarrow> nat \<Rightarrow> bytes option \<Rightarrow> string + nodeID" where
  "xi_New_or_random X draw b = (case b of None \<Rightarrow> xi_Random X draw | Some v \<Rightarrow> xi_New X v)"

definition NewClientInfoFromToken ::
  "'z extlib_scheme \<Rightarrow> nat \<Rightarrow> XLRegMsg_Token option \<Rightarrow> ClientInfo option \<times> gerror option" where
  "NewClientInfoFromToken X draw token =
     (case token of
        None \<Rightarrow> (None, Some NilToken)
      | Some _ \<Rightarrow>
          (case xi_New_or_random X draw (Token_GetID token) of
             Inl e \<Rightarrow> (None, Some (Ext e))
           | Inr nodeID \<Rightarrow>
               (case RSAPubKeyFromWire X (Token_GetCommsKey token) of
                  Inl e \<Rightarrow> (None, None)
                | Inr ck \<Rightarrow>
                    (case RSAPubKeyFromWire X (Token_GetSigKey token) of
                       Inl e \<Rightarrow> (None, None)
                     | Inr sk \<Rightarrow>
                         (case NewClientInfo X (Token_GetName token) (Some nodeID) (Some ck) (Some sk)
                                 (Token_GetAttrs token) (Token_GetMyEnds token) of
                            Inl e \<Rightarrow> (None, None)
                          | Inr m \<Rightarrow> (Some m, None))))))"

definition ci_Token :: "'z extlib_scheme \<Rightarrow> ClientInfo \<Rightarrow> gerror + XLRegMsg_Token" where
  "ci_Token X mi =
     (case RSAPubKeyToWire X (bn_ck (ci_BaseNode mi)) of
        Inl e \<Rightarrow> Inl (Ext e)
      | Inr ckBytes \<Rightarrow>
          (case RSAPubKeyToWire X (bn_sk (ci_BaseNode mi)) of
             Inl e \<Rightarrow> Inl (Ext e)
           | Inr skBytes \<Rightarrow>
               Inr \<lparr>tok_Name = Some (ci_GetName mi), tok_Attrs = Some (ci_Attrs mi),
                    tok_ID = Some (ci_ID mi), tok_CommsKey = Some ckBytes,
                    tok_SigKey = Some skBytes, tok_MyEnds = ci_MyEnds mi, tok_DigSig = None\<rparr>))"

section \<open>Equality\<close>

text \<open>The argument of \<open>Equal\<close> is an \<open>interface{}\<close>.\<close>

datatype 'a anyarg = NilArg | SameObject | OtherType | ArgPtr 'a

definition ClientInfo_Equal :: "'z extlib_scheme \<Rightarrow> ClientInfo \<Rightarrow> ClientInfo anyarg \<Rightarrow> bool" where
  "ClientInfo_Equal X mi any =
     (case any of
        SameObject \<Rightarrow> True
      | NilArg \<Rightarrow> False
      | OtherType \<Rightarrow> False
      | ArgPtr other \<Rightarrow>
          if ci_Attrs mi \<noteq> ci_Attrs other then False
          else (case (ci_MyEnds mi, ci_MyEnds other) of
                  (None, Some _) \<Rightarrow> False
                | (None, None) \<Rightarrow> BaseNode_Equal X (ci_BaseNode mi) (ci_BaseNode other)
                | (Some _, None) \<Rightarrow> False
                | (Some xs, Some ys) \<Rightarrow>
                    if length xs \<noteq> length ys then False
                    else if \<exists>i < length xs. xs ! i \<noteq> ys ! i then False
                    else BaseNode_Equal X (ci_BaseNode mi) (ci_BaseNode other)))"

section \<open>Text form\<close>

definition ClientInfo_Strings :: "'z extlib_scheme \<Rightarrow> ClientInfo \<Rightarrow> string list" where
  "ClientInfo_Strings X mi =
     [''clientInfo {'']
     @ map (\<lambda>b. ''    '' @ b) (BaseNode_Strings X (ci_BaseNode mi))
     @ [''    attrs: 0x'' @ fmt_016x (ci_Attrs mi), ''    endPoints {'']
     @ map (\<lambda>e. ''        '' @ e) (slice_of (ci_MyEnds mi))
     @ [''    }'', ''}'']"

definition ClientInfo_String :: "'z extlib_scheme \<Rightarrow> ClientInfo \<Rightarrow> string" where
  "ClientInfo_String X mi = Join newline (ClientInfo_Strings X mi)"

text \<open>The loop of \<open>collectClientAttrs\<close>: eight bytes, the high one first.\<close>

definition or_bytes :: "bytes \<Rightarrow> u64" where
  "or_bytes val = fold (\<lambda>i a. a OR push_bit (8 * (7 - i)) (ucast (val ! i))) [0..<8] 0"

definition collectClientAttrs ::
  "'z extlib_scheme \<Rightarrow> ClientInfo \<Rightarrow> string list \<Rightarrow> gerror + (ClientInfo \<times> string list)" where
  "collectClientAttrs X mi ss =
     (case NextNBLine X ss of
        (Inl e, rest) \<Rightarrow> Inl (Ext e)
      | (Inr line, rest) \<Rightarrow>
          if HasPrefix line ''attrs: 0x'' then
            (case DecodeString (drop 9 line) of
               Inl e \<Rightarrow> Inl e
             | Inr val \<Rightarrow>
                 if length val \<noteq> 8 then Inl WrongNumberOfBytesInAttrs
                 else Inr (mi\<lparr>ci_Attrs := or_bytes val\<rparr>, rest))
          else Inl BadAttrsLine)"

text \<open>
  The loop of \<open>collectMyEnds\<close> reads the first of the remaining lines without checking that there
  is one, and goes on after an error of the line reader.
\<close>

partial_function (option) ends_loop ::
  "'z extlib_scheme \<Rightarrow> string list option \<Rightarrow> string list \<Rightarrow> gerror option \<Rightarrow>
   (string list option \<times> string list \<times> gerror option) outcome option" where
  "ends_loop X ends rest err =
     (case rest of
        [] \<Rightarrow> Some (Panic IndexOutOfRange)
      | l # _ \<Rightarrow>
          if TrimSpace l = ''}'' then Some (Ret (ends, rest, err))
          else (case NextNBLine X rest of
                  (Inl e, rest') \<Rightarrow> ends_loop X ends rest' (Some (Ext e))
                | (Inr line, rest') \<Rightarrow> ends_loop X (append_slice ends line) rest' None))"

definition collectMyEnds ::
  "'z extlib_scheme \<Rightarrow> ClientInfo \<Rightarrow> string list \<Rightarrow> (gerror + (ClientInfo \<times> string list)) outcome" where
  "collectMyEnds X mi ss =
     (case NextNBLine X ss of
        (Inl e, rest) \<Rightarrow> Ret (Inl (Ext e))
      | (Inr line, rest) \<Rightarrow>
          if line = ''endPoints {'' then
            obind (of_loop (ends_loop X (ci_MyEnds mi) rest None)) (\<lambda>(ends, rest, err).
              case err of
                Some e \<Rightarrow> Ret (Inl e)
              | None \<Rightarrow>
                  (case NextNBLine X rest of
                     (Inl e, rest) \<Rightarrow> Ret (Inl (Ext e))
                   | (Inr line, rest) \<Rightarrow>
                       if line \<noteq> ''}'' then Ret (Inl MissingClosingBrace)
                       else Ret (Inr (mi\<lparr>ci_MyEnds := ends\<rparr>, rest))))
          else Ret (Inl MissingEndPointsSection))"

definition ParseClientInfoFromStrings ::
  "'z extlib_scheme \<Rightarrow> string list \<Rightarrow> (gerror + (ClientInfo \<times> string list)) outcome" where
  "ParseClientInfoFromStrings X ss =
     (case ParseBNFromStrings X ss ''clientInfo'' of
        Inl e \<Rightarrow> Ret (Inl (Ext e))
      | Inr (bn, rest) \<Rightarrow>
          (case collectClientAttrs X \<lparr>ci_Attrs = 0, ci_MyEnds = None, ci_BaseNode = bn\<rparr> rest of
             Inl e \<Rightarrow> Ret (Inl e)
           | Inr (mi, rest) \<Rightarrow>
               obind (collectMyEnds X mi rest) (\<lambda>r.
                 case r of
                   Inl e \<Rightarrow> Ret (Inl e)
                 | Inr (mi, rest) \<Rightarrow>
                     (case NextNBLine X rest of
                        (Inl e, rest) \<Rightarrow> Ret (Inl (Ext e))
                      | (Inr line, rest) \<Rightarrow>
                          if line \<noteq> ''}'' then Ret (Inl MissingClosingBrace)
                          else Ret (Inr (mi, rest))))))"

definition ParseClientInfo ::
  "'z extlib_scheme \<Rightarrow> string \<Rightarrow> (gerror + (ClientInfo \<times> string list)) outcome" where
  "ParseClientInfo X s = ParseClientInfoFromStrings X (Split s newline)"

section \<open>Construction and equality\<close>

lemma NewClientInfo_Inr:
  assumes "basenodes_ok X" and "NewClientInfo X name i ck sk attrs ends = Inr mi"
  shows "\<exists>n. i = Some n \<and> mi = \<lparr>ci_Attrs = attrs, ci_MyEnds = ends,
     ci_BaseNode = \<lparr>bn_name = name, bn_id = n, bn_ck = ck, bn_sk = sk\<rparr>\<rparr>"
  using assms(2) by (auto simp: NewClientInfo_def split: sum.splits dest!: basenodes_okD(1) [OF assms(1)])

lemma NewClientInfo_rebuild:
  assumes "basenodes_ok X" and "NewBaseNode X name (Some n) ck sk = Inr bn"
  shows "NewClientInfo X name (Some n) ck sk attrs ends =
     Inr \<lparr>ci_Attrs = attrs, ci_MyEnds = ends,
          ci_BaseNode = \<lparr>bn_name = name, bn_id = n, bn_ck = ck, bn_sk = sk\<rparr>\<rparr>"
  using assms(2) basenodes_okD(1) [OF assms] by (auto simp: NewClientInfo_def)

lemma ClientInfo_Equal_ArgPtr:
  assumes "basenodes_ok X"
  shows "ClientInfo_Equal X a (ArgPtr b) \<longleftrightarrow> a = b"
  by (cases a; cases b)
    (auto simp: ClientInfo_Equal_def basenodes_okD(2) [OF assms] split: option.splits
      intro: nth_equalityI)

section \<open>Reading back the text form\<close>

text \<open>The attribute line.\<close>

lemma or_bytes_of_word:
  "or_bytes (map (\<lambda>i. word_of_nat (unat w div 256 ^ (7 - i))) [0..<8]) = w"
proof -
  have "fold (\<lambda>i a. a OR push_bit (8 * (7 - i))
          (ucast (map (\<lambda>i. word_of_nat (unat w div 256 ^ (7 - i)) :: u8) [0..<8] ! i))) [0..<8] 0
      = fold (\<lambda>i a. a OR push_bit (8 * (7 - i)) (take_bit 8 (drop_bit (8 * (7 - i)) w))) [0..<8] 0"
    by (rule fold_cong) (simp_all add: byte_of_word)
  then show ?thesis by (simp only: or_bytes_def or_high_bytes [of 8, simplified])
qed

lemma solid_attrs: "solid (''attrs: 0x'' @ fmt_016x w)"
  by (rule solid_field) (simp_all add: is_space_def)

lemma collectClientAttrs_print:
  assumes "lines_ok X" and "indent p"
  shows "collectClientAttrs X mi ((p @ ''attrs: 0x'' @ fmt_016x w) # rest) =
           Inr (mi\<lparr>ci_Attrs := w\<rparr>, rest)"
proof -
  have "drop 9 (''attrs: 0x'' @ fmt_016x w) = fmt_016x w" by simp
  then show ?thesis
    using NextNBLine_solid [OF assms solid_attrs, of w rest]
    by (simp add: collectClientAttrs_def DecodeString_fmt_016x or_bytes_of_word del: append_Cons)
qed

text \<open>The endpoint lines: an endpoint must be a line of its own and no closing brace.\<close>

definition wf_end :: "string \<Rightarrow> bool" where
  "wf_end e \<longleftrightarrow> solid e \<and> e \<noteq> ''}'' \<and> CHR 0x0A \<notin> set e"

definition ends_value :: "string list option \<Rightarrow> string list \<Rightarrow> string list option" where
  "ends_value ends es = fold (\<lambda>e s. append_slice s e) es ends"

lemma ends_loop_print:
  assumes "lines_ok X" and "indent p" and "indent q" and "\<forall>e \<in> set es. wf_end e"
  shows "ends_loop X ends (map (\<lambda>e. p @ e) es @ (q @ ''}'') # rest) None =
           Some (Ret (ends_value ends es, (q @ ''}'') # rest, None))"
  using assms(4)
proof (induction es arbitrary: ends)
  case Nil
  then show ?case by (simp add: ends_loop.simps ends_value_def closing_brace [OF assms(3)])
next
  case (Cons e es)
  then have e: "solid e" "e \<noteq> ''}''" by (auto simp: wf_end_def)
  have "TrimSpace (p @ e) = e"
    using assms(2) e(1) by (rule TrimSpace_printed)
  moreover have "NextNBLine X ((p @ e) # map (\<lambda>e. p @ e) es @ (q @ ''}'') # rest) =
      (Inr e, map (\<lambda>e. p @ e) es @ (q @ ''}'') # rest)"
    using assms(1,2) e(1) by (rule NextNBLine_solid)
  ultimately show ?case
    using Cons e(2) by (subst ends_loop.simps) (simp add: ends_value_def)
qed

lemma ends_value_Some: "ends_value (Some xs) es = Some (xs @ es)"
  by (induction es arbitrary: xs) (simp_all add: ends_value_def)

lemma ends_value_None: "ends_value None es = (if es = [] then None else Some es)"
proof (cases es)
  case (Cons e rest)
  then have "ends_value None es = ends_value (Some [e]) rest" by (simp add: ends_value_def)
  with Cons show ?thesis by (simp add: ends_value_Some)
qed (simp add: ends_value_def)

text \<open>Whatever the input, the endpoint loop stops: every turn takes a line.\<close>

lemma ends_loop_stops:
  assumes "lines_ok X"
  shows "\<exists>r. ends_loop X ends rest err = Some r \<and> r \<noteq> Hang"
proof (induction "length rest" arbitrary: ends rest err rule: less_induct)
  case less
  show ?case
  proof (cases rest)
    case Nil
    then show ?thesis by (simp add: ends_loop.simps)
  next
    case (Cons l ls)
    then have shorter: "length (snd (NextNBLine X rest)) < length rest"
      using NextNBLine_shrinks [OF assms] by simp
    obtain r rest' where n: "NextNBLine X rest = (r, rest')" by fastforce
    then have "\<exists>q. ends_loop X e' rest' g' = Some q \<and> q \<noteq> Hang" for e' g'
      using less shorter by simp
    then show ?thesis
      by (subst ends_loop.simps) (auto simp: Cons n [unfolded Cons] split: sum.splits)
  qed
qed

lemma collectMyEnds_print:
  assumes "lines_ok X" and "indent p" and "\<forall>e \<in> set es. wf_end e" and "ci_MyEnds mi = None"
  shows "collectMyEnds X mi ((p @ ''endPoints {'') # map (\<lambda>e. (p @ ''    '') @ e) es @ (p @ ''}'') # rest) =
           Ret (Inr (mi\<lparr>ci_MyEnds := (if es = [] then None else Some es)\<rparr>, rest))"
proof -
  have q: "indent (p @ ''    '')" using assms(2) by simp
  have "solid ''endPoints {''" "solid ''}''" by (simp_all add: solid_def is_space_def)
  note n = this [THEN NextNBLine_solid [OF assms(1,2)]]
  show ?thesis
    using n(1) [of "map (\<lambda>e. (p @ ''    '') @ e) es @ (p @ ''}'') # rest"] n(2) [of rest]
      ends_loop_print [OF assms(1) q assms(2,3), of None rest] assms(4)
    by (simp add: collectMyEnds_def ends_value_None del: append_assoc)
qed

section \<open>The codec\<close>

text \<open>
  A client whose text form reads back: the BaseNode's does, the endpoints are lines of their own,
  and the endpoint list is nil rather than empty when there are none.
\<close>

definition wf_client :: "'z extlib_scheme \<Rightarrow> ClientInfo \<Rightarrow> bool" where
  "wf_client X mi \<longleftrightarrow> lines_ok X \<and> reparses X ''clientInfo'' (ci_BaseNode mi)
     \<and> (\<forall>e \<in> set (slice_of (ci_MyEnds mi)). wf_end e) \<and> ci_MyEnds mi \<noteq> Some []"

text \<open>The lines of \<open>Strings\<close>, indented and split at embedded newlines.\<close>

definition client_lines :: "'z extlib_scheme \<Rightarrow> string \<Rightarrow> ClientInfo \<Rightarrow> string list" where
  "client_lines X p mi = concat (map (\<lambda>l. split_nl (p @ l)) (ClientInfo_Strings X mi))"

lemma client_lines_unfold:
  assumes "indent p" and "\<forall>e \<in> set (slice_of (ci_MyEnds mi)). wf_end e"
  shows "client_lines X p mi =
     bn_lines X p ''clientInfo'' (ci_BaseNode mi)
     @ ((p @ ''    '') @ ''attrs: 0x'' @ fmt_016x (ci_Attrs mi))
     # ((p @ ''    '') @ ''endPoints {'')
     # map (\<lambda>e. ((p @ ''    '') @ ''    '') @ e) (slice_of (ci_MyEnds mi))
     @ ((p @ ''    '') @ ''}'') # [p @ ''}'']"
proof -
  have "concat (map (\<lambda>e. split_nl (p @ ''        '' @ e)) es) = map (\<lambda>e. p @ ''        '' @ e) es"
    if "\<forall>e \<in> set es. wf_end e" for es
    using that indent_no_newline [OF assms(1)]
    by (induction es) (auto simp: wf_end_def split_nl_line)
  with assms show ?thesis
    by (simp add: client_lines_def ClientInfo_Strings_def bn_lines_def split_nl_line
        indent_no_newline wordy_no_newline comp_def)
qed

lemma parse_client_lines:
  assumes "wf_client X mi" and "indent p"
  shows "ParseClientInfoFromStrings X (client_lines X p mi @ rest) = Ret (Inr (mi, rest))"
proof -
  have X: "lines_ok X" and bn: "reparses X ''clientInfo'' (ci_BaseNode mi)"
    and es: "\<forall>e \<in> set (slice_of (ci_MyEnds mi)). wf_end e" and ne: "ci_MyEnds mi \<noteq> Some []"
    using assms(1) by (auto simp: wf_client_def)
  have q: "indent (p @ ''    '')" using assms(2) by simp
  have b: "solid ''}''" by (simp add: solid_def is_space_def)
  have m: "(if slice_of (ci_MyEnds mi) = [] then None else Some (slice_of (ci_MyEnds mi))) = ci_MyEnds mi"
    using ne by (cases "ci_MyEnds mi") auto
  define tl where "tl = ((p @ ''    '') @ ''endPoints {'')
     # map (\<lambda>e. ((p @ ''    '') @ ''    '') @ e) (slice_of (ci_MyEnds mi))
     @ ((p @ ''    '') @ ''}'') # (p @ ''}'') # rest"
  have c: "collectMyEnds X (\<lparr>ci_Attrs = ci_Attrs mi, ci_MyEnds = None, ci_BaseNode = ci_BaseNode mi\<rparr>) tl
      = Ret (Inr (mi, (p @ ''}'') # rest))"
    unfolding tl_def by (subst collectMyEnds_print [OF X q es]) (simp_all only: m, simp_all)
  have "client_lines X p mi @ rest = bn_lines X p ''clientInfo'' (ci_BaseNode mi)
      @ ((p @ ''    '') @ ''attrs: 0x'' @ fmt_016x (ci_Attrs mi)) # tl"
    by (simp only: client_lines_unfold [OF assms(2) es] tl_def append_assoc append_Cons append_Nil)
  moreover have "ParseBNFromStrings X (bn_lines X p ''clientInfo'' (ci_BaseNode mi) @ r) ''clientInfo''
      = Inr (ci_BaseNode mi, r)" for r
    using bn assms(2) by (simp add: reparses_def)
  ultimately show ?thesis
    using collectClientAttrs_print [OF X q, of _ "ci_Attrs mi" tl] c
      NextNBLine_solid [OF X assms(2) b, of rest]
    by (simp add: ParseClientInfoFromStrings_def del: append_assoc)
qed

interpretation client: line_codec "client_lines X" "ParseClientInfoFromStrings X" "wf_client X"
  for X :: "'z extlib_scheme"
proof
  fix mi p rest
  assume wf: "wf_client X mi" and p: "indent p"
  show "ParseClientInfoFromStrings X (client_lines X p mi @ rest) = Ret (Inr (mi, rest))"
    using wf p by (rule parse_client_lines)
  have "TrimSpace (p @ ''clientInfo {'') = ''clientInfo {''"
    using p by (rule TrimSpace_printed) (simp add: solid_def is_space_def)
  then show "\<exists>l ls. client_lines X p mi = l # ls \<and> TrimSpace l \<noteq> ''}''"
    using wf p by (simp add: client_lines_unfold wf_client_def bn_lines_def)
qed

lemma split_ClientInfo_String: "split_nl (ClientInfo_String X mi) = client_lines X [] mi"
  by (simp add: ClientInfo_String_def client_lines_def split_nl_Join ClientInfo_Strings_def)

section \<open>Tokens\<close>

lemma ci_Token_fields:
  "ci_Token X mi = Inr t \<Longrightarrow> tok_Name t = Some (ci_GetName mi) \<and> tok_ID t = Some (ci_ID mi)
     \<and> tok_Attrs t = Some (ci_Attrs mi) \<and> tok_MyEnds t = ci_MyEnds mi"
  by (auto simp: ci_Token_def split: sum.splits)

section \<open>Truncated input\<close>

lemma NextNBLine_suffix: "lines_ok X \<Longrightarrow> set (snd (NextNBLine X ls)) \<subseteq> set ls"
proof (induction ls)
  case (Cons l ls)
  then show ?case by (cases "TrimSpace l = []") (auto simp: lines_okD(1,2))
qed (simp add: NextNBLine_Nil)

lemma ends_loop_truncated:
  assumes "lines_ok X" and "\<forall>l \<in> set rest. TrimSpace l \<noteq> ''}''"
  shows "ends_loop X ends rest err = Some (Panic IndexOutOfRange)"
  using assms(2)
proof (induction "length rest" arbitrary: ends rest err rule: less_induct)
  case less
  show ?case
  proof (cases rest)
    case (Cons l ls)
    obtain r rest' where n: "NextNBLine X rest = (r, rest')" by fastforce
    have "length rest' < length rest" "set rest' \<subseteq> set rest"
      using NextNBLine_shrinks [OF assms(1), of l ls] NextNBLine_suffix [OF assms(1), of rest] n Cons by auto
    then have "ends_loop X e' rest' g' = Some (Panic IndexOutOfRange)" for e' g'
      using less by blast
    then show ?thesis
      using less.prems by (subst ends_loop.simps) (auto simp: Cons n [unfolded Cons] split: sum.splits)
  qed (simp add: ends_loop.simps)
qed

section \<open>Properties\<close>

definition ref_client :: "string \<Rightarrow> u8 \<Rightarrow> ClientInfo" where
  "ref_client name n = \<lparr>ci_Attrs = 3, ci_MyEnds = Some [''127.0.0.1:55'', ''127.0.0.1:56''],
     ci_BaseNode = ref_bn name n\<rparr>"

lemma ref_client_wf [simp]: "wordy name \<Longrightarrow> wf_client (reflib ms) (ref_client name n)"
  by (auto simp: wf_client_def ref_client_def wf_end_def solid_def is_space_def intro!: reflib_reparses)

lemma ref_client_fields [simp]: "ci_GetName (ref_client name n) = name" "ci_ID (ref_client name n) = ref_id n"
  by (simp_all add: ci_GetName_def ci_ID_def ref_client_def)

text \<open>C22. A client sent as a token is received as the same client: the token made from a client
  that was built by \<open>NewClientInfo\<close> from an ID of legal length and two keys is converted back by
  \<open>NewClientInfoFromToken\<close> without error to an equal client, its attributes and end points included.\<close>

theorem token_roundtrip:
  assumes "keys_ok X" and "nodeids_ok X" and "basenodes_ok X" and "valid_id (Value i)"
    and "NewClientInfo X name (Some i) (Some ck) (Some sk) attrs ends = Inr mi"
    and "ci_Token X mi = Inr t"
  shows "NewClientInfoFromToken X draw (Some t) = (Some mi, None)"
proof -
  have mi: "mi = \<lparr>ci_Attrs = attrs, ci_MyEnds = ends,
      ci_BaseNode = \<lparr>bn_name = name, bn_id = i, bn_ck = Some ck, bn_sk = Some sk\<rparr>\<rparr>"
    using NewClientInfo_Inr [OF assms(3,5)] by auto
  obtain cb sb where "RSAPubKeyToWire X (Some ck) = Inr cb" "RSAPubKeyToWire X (Some sk) = Inr sb"
    "t = \<lparr>tok_Name = Some name, tok_Attrs = Some attrs, tok_ID = Some (Value i),
          tok_CommsKey = Some cb, tok_SigKey = Some sb, tok_MyEnds = ends, tok_DigSig = None\<rparr>"
    using assms(6) by (auto simp: ci_Token_def mi ci_GetName_def ci_ID_def split: sum.splits)
  with keys_okD [OF assms(1)] nodeids_okD(1) [OF assms(2,4)] assms(5) show ?thesis
    by (simp add: NewClientInfoFromToken_def xi_New_or_random_def)
qed

theorem token_roundtrip_witness:
  "NewClientInfoFromToken (reflib []) 0
     (Some \<lparr>tok_Name = Some ''alice'', tok_Attrs = Some 3, tok_ID = Some (ref_id 7),
            tok_CommsKey = Some [33], tok_SigKey = Some [33],
            tok_MyEnds = Some [''127.0.0.1:55'', ''127.0.0.1:56''], tok_DigSig = None\<rparr>)
   = (Some (ref_client ''alice'' 7), None)"
  by (rule token_roundtrip [of _ "NodeID (ref_id 7)" "''alice''" ref_pub ref_pub 3
        "Some [''127.0.0.1:55'', ''127.0.0.1:56'']"])
    (simp_all add: NewClientInfo_def ref_client_def ref_bn_def ci_Token_def ci_GetName_def ci_ID_def
      ref_ToWire_def ref_pub_def)

text \<open>C23. \<open>ParseClientInfo\<close> reads back what \<open>String\<close> printed, with no lines left: attributes of any
  value, end points and the BaseNode. This holds for a client whose end points are lines of their
  own and whose list of end points is not empty without being nil.\<close>

theorem client_text_roundtrip:
  assumes "wf_client X mi"
  shows "ParseClientInfo X (ClientInfo_String X mi) = Ret (Inr (mi, []))"
  using client.reads_back_alone [OF assms] by (simp add: ParseClientInfo_def split_ClientInfo_String)

theorem client_text_roundtrip_witness:
  "ParseClientInfo (reflib [] :: reftype) (ClientInfo_String (reflib [] :: reftype) (ref_client ''alice'' 7)) =
     Ret (Inr (ref_client ''alice'' 7, []))"
  by (rule client_text_roundtrip) (simp add: wordy_def is_space_def)

text \<open>The client parser never loops, whatever text it is given, although its inner loop goes on
  after an error of the line reader: every turn of the loop uses up a line.\<close>

theorem parse_client_no_hang:
  assumes "lines_ok X"
  shows "ParseClientInfo X s \<noteq> Hang"
proof -
  have e: "of_loop (ends_loop X ends rest err) \<noteq> Hang" for ends rest err
    using ends_loop_stops [OF assms, of ends rest err] by auto
  have c: "collectMyEnds X mi ss \<noteq> Hang" for mi ss
    unfolding collectMyEnds_def
    by (auto split: prod.splits sum.splits option.splits if_splits simp: e go_simps)
  show ?thesis
    unfolding ParseClientInfo_def ParseClientInfoFromStrings_def
    by (auto split: prod.splits sum.splits if_splits simp: c go_simps)
qed

theorem parse_client_no_hang_witness: "ParseClientInfo (reflib []) ''clientInfo {'' \<noteq> Hang"
  by (rule parse_client_no_hang) simp

text \<open>Input that ends inside the end point section crashes the parser instead of being reported:
  if no line after \<open>endPoints {\<close> is a closing brace, \<open>collectMyEnds\<close> indexes past the last line.\<close>

theorem truncated_ends_panic:
  assumes "lines_ok X" and "NextNBLine X ss = (Inr ''endPoints {'', rest)"
    and "\<forall>l \<in> set rest. TrimSpace l \<noteq> ''}''"
  shows "collectMyEnds X mi ss = Panic IndexOutOfRange"
  by (simp add: collectMyEnds_def assms(2) ends_loop_truncated [OF assms(1,3)])

theorem truncated_ends_panic_witness:
  "collectMyEnds (reflib []) (ref_client ''alice'' 7) [''endPoints {'', ''  127.0.0.1:55''] = Panic IndexOutOfRange"
  by (rule truncated_ends_panic [where rest = "[''  127.0.0.1:55'']"])
    (simp_all add: TrimSpace_def is_space_def)

end
