(* ===== verification/NameIndex.thy ===== *)
theory NameIndex
  imports LineCodec
begin

text \<open>
  The contract that a cluster offers for its members and the registry for its clusters: a list of
  elements, in the order they were added, and an index of them by name. The index agrees with the
  list, names are unique, and an element whose name is taken is refused.
\<close>

locale name_index =
  fixes inv :: "'s \<Rightarrow> bool"
    and add :: "'a \<Rightarrow> 's \<Rightarrow> 's \<times> gerror option"
    and elems :: "'s \<Rightarrow> 'a list"
    and by_name :: "'s \<Rightarrow> string \<Rightarrow> 'a option"
    and nm :: "'a \<Rightarrow> string"
  assumes add_inv: "inv s \<Longrightarrow> inv (fst (add a s))"
    and add_elems: "inv s \<Longrightarrow> add a s = (s', None) \<Longrightarrow> elems s' = elems s @ [a]"
    and add_taken: "inv s \<Longrightarrow> by_name s (nm a) = Some b \<Longrightarrow> \<exists>e. add a s = (s, Some e)"
    and index: "inv s \<Longrightarrow> by_name s n = Some a \<longleftrightarrow> a \<in> set (elems s) \<and> nm a = n"
    and unique: "inv s \<Longrightarrow> distinct (map nm (elems s))"
begin

lemma adds_inv_elems:
  "inv s \<Longrightarrow> adds add as s = Some s' \<Longrightarrow> inv s' \<and> elems s' = elems s @ as"
proof (induction as arbitrary: s)
  case (Cons a as)
  then obtain s1 where s1: "add a s = (s1, None)" "adds add as s1 = Some s'"
    by (auto split: prod.splits option.splits)
  have "inv s1" using add_inv [OF Cons.prems(1), of a] s1(1) by simp
  then have "inv s' \<and> elems s' = elems s1 @ as" using s1(2) by (rule Cons.IH)
  moreover have "elems s1 = elems s @ [a]" using Cons.prems(1) s1(1) by (rule add_elems)
  ultimately show ?case by simp
qed simp

lemma adds_lookup:
  assumes "inv s" and "adds add as s = Some s'" and "a \<in> set (elems s) \<or> a \<in> set as"
  shows "by_name s' (nm a) = Some a"
proof -
  have "inv s'" "elems s' = elems s @ as" using adds_inv_elems [OF assms(1,2)] by auto
  with assms(3) show ?thesis by (simp add: index)
qed

lemma adds_distinct:
  assumes "inv s" and "adds add as s = Some s'"
  shows "distinct (map nm (elems s @ as))"
  using adds_inv_elems [OF assms] unique [of s'] by simp

lemma adds_duplicate:
  assumes "inv s" and "\<not> distinct (map nm as)"
  shows "adds add as s = None"
proof (rule ccontr)
  assume "adds add as s \<noteq> None"
  then obtain s' where "adds add as s = Some s'" by blast
  from adds_distinct [OF assms(1) this] assms(2) show False by simp
qed

lemma one_per_name:
  "inv s \<Longrightarrow> a \<in> set (elems s) \<Longrightarrow> b \<in> set (elems s) \<Longrightarrow> nm a = nm b \<Longrightarrow> a = b"
  using index [of s "nm b" a] index [of s "nm b" b] by simp

end

end
