(* ===== verification/RegCluster.thy ===== *)
theory RegCluster
  imports ClientInfo NameIndex
begin

text \<open>
  The clusters the registry manages (\<open>reg_cluster.go\<close>): construction, adding members to the list
  and its two indexes, equality, and the text form with its parser. The hash array mapped tries
  that index by ID are those of the library record.
\<close>

text \<open>A trie holds \<open>interface{}\<close> values: here pointers to clients or to clusters.\<close>

type_synonym cref = nat

datatype hval = HClient ClientInfo | HCluster cref

section \<open>The structure\<close>

definition CLUSTER_EPHEMERAL :: u64 where "CLUSTER_EPHEMERAL = push_bit 0 1"
definition CLUSTER_DELETED :: u64 where "CLUSTER_DELETED = push_bit 1 1"

record 'h RegCluster =
  rc_Name :: string
  rc_ID :: "bytes option"
  rc_Attrs :: u64
  rc_maxSize :: u32
  rc_epCount :: u32
  rc_Members :: "ClientInfo list"
  rc_MembersByName :: "ClientInfo gomap"
  rc_MembersByID :: 'h

text \<open>
  An end point count of zero sets an error, which sends the code into the \<open>else\<close> branch, where the
  error is overwritten by that of \<open>NewHAMT\<close>.
\<close>

definition NewRegCluster ::
  "('h, hval, 'z) hamtlib_scheme \<Rightarrow> string \<Rightarrow> nodeID \<Rightarrow> u64 \<Rightarrow> u32 \<Rightarrow> u32 \<Rightarrow> gerror + 'h RegCluster" where
  "NewRegCluster L name i attrs maxSize epCount =
     (let name = (if name = [] then ''xlCluster'' else name);
          err = (if epCount < 1 then Some ClusterMembersMustHaveEndPoint else None)
      in case (if err = None \<and> maxSize < 1 then Inl ClusterMustHaveMember
               else ext (NewHAMT L (ha_MAX_W L) (NextExp2_32 L maxSize))) of
           Inl e \<Rightarrow> Inl e
         | Inr m \<Rightarrow>
             Inr \<lparr>rc_Name = name, rc_ID = Some (Value i), rc_Attrs = attrs, rc_maxSize = maxSize,
                  rc_epCount = epCount, rc_Members = [], rc_MembersByName = Map.empty,
                  rc_MembersByID = m\<rparr>)"

section \<open>Members\<close>

text \<open>
  \<open>AddMember\<close> runs in three critical sections: the name is looked up under the read lock, then
  the trie is searched under the read lock, then the member is added under the write lock. The
  search is for the ID of the cluster, not of the member.
\<close>

definition member_name_in_use :: "'h RegCluster \<Rightarrow> ClientInfo \<Rightarrow> bool" where
  "member_name_in_use rc member \<longleftrightarrow> rc_MembersByName rc (ci_GetName member) \<noteq> None"

definition member_id_check :: "('h, hval, 'z) hamtlib_scheme \<Rightarrow> 'h RegCluster \<Rightarrow> gerror option" where
  "member_id_check L rc =
     (case ha_Find L (rc_MembersByID rc) (fst (NewBytesKey L (slice_of (rc_ID rc)))) of
        (entry, Some e) \<Rightarrow> Some (Ext e)
      | (Some v, None) \<Rightarrow> Some ClusterMemberIDInUse
      | (None, None) \<Rightarrow> None)"

definition member_insert ::
  "('h, hval, 'z) hamtlib_scheme \<Rightarrow> 'h RegCluster \<Rightarrow> ClientInfo \<Rightarrow> 'h RegCluster \<times> gerror option" where
  "member_insert L rc member =
     (let rc = rc\<lparr>rc_Members := rc_Members rc @ [member],
                  rc_MembersByName := (rc_MembersByName rc)(ci_GetName member \<mapsto> member)\<rparr>
      in case NewBytesKey L (ci_ID member) of
           (bKey, Some e) \<Rightarrow> (rc, Some (Ext e))
         | (bKey, None) \<Rightarrow>
             (case ha_Insert L (rc_MembersByID rc) bKey (HClient member) of
                (m, err) \<Rightarrow> (rc\<lparr>rc_MembersByID := m\<rparr>, map_option Ext err)))"

definition AddMember ::
  "('h, hval, 'z) hamtlib_scheme \<Rightarrow> ClientInfo \<Rightarrow> 'h RegCluster \<Rightarrow> 'h RegCluster \<times> gerror option" where
  "AddMember L member rc =
     (if member_name_in_use rc member then (rc, Some ClusterMemberNameInUse)
      else case member_id_check L rc of
             Some e \<Rightarrow> (rc, Some e)
           | None \<Rightarrow> member_insert L rc member)"

definition AddToCluster ::
  "('h, hval, 'z) hamtlib_scheme \<Rightarrow> string \<Rightarrow> nodeID option \<Rightarrow> rsa_pub option \<Rightarrow> rsa_pub option \<Rightarrow> u64 \<Rightarrow>
   string list option \<Rightarrow> 'h RegCluster \<Rightarrow> 'h RegCluster \<times> gerror option" where
  "AddToCluster L name i commsPubKey sigPubKey attrs myEnds rc =
     (case NewClientInfo L name i commsPubKey sigPubKey attrs myEnds of
        Inl e \<Rightarrow> (rc, Some e)
      | Inr member \<Rightarrow> AddMember L member rc)"

definition rc_Size :: "'h RegCluster \<Rightarrow> u32" where
  "rc_Size rc = word_of_nat (length (rc_Members rc))"

section \<open>Equality\<close>

definition RegCluster_Equal :: "('h, hval, 'z) hamtlib_scheme \<Rightarrow> 'h RegCluster \<Rightarrow> 'h RegCluster anyarg \<Rightarrow> bool" where
  "RegCluster_Equal L rc any =
     (case any of
        SameObject \<Rightarrow> True
      | NilArg \<Rightarrow> False
      | OtherType \<Rightarrow> False
      | ArgPtr other \<Rightarrow>
          if rc_Attrs rc \<noteq> rc_Attrs other then False
          else if rc_Name rc \<noteq> rc_Name other then False
          else if slice_of (rc_ID rc) \<noteq> slice_of (rc_ID other) then False
          else if rc_epCount rc \<noteq> rc_epCount other then False
          else if rc_maxSize rc \<noteq> rc_maxSize other then False
          else if rc_Size rc \<noteq> rc_Size other then False
          else \<forall>i < unat (rc_Size rc).
                 ClientInfo_Equal L (rc_Members rc ! i) (ArgPtr (rc_Members other ! i)))"

section \<open>Text form\<close>

definition RegCluster_Strings :: "('h, hval, 'z) hamtlib_scheme \<Rightarrow> 'h RegCluster \<Rightarrow> string list" where
  "RegCluster_Strings L rc =
     [''regCluster {'',
      ''    Attrs: 0x'' @ fmt_016x (rc_Attrs rc),
      ''    Name: '' @ rc_Name rc,
      ''    ID: '' @ EncodeToString (slice_of (rc_ID rc)),
      ''    epCount: '' @ fmt_d (unat (rc_epCount rc)),
      ''    maxSize: '' @ fmt_d (unat (rc_maxSize rc)),
      ''    Members {'']
     @ concat (map (\<lambda>m. map (\<lambda>l. ''        '' @ l) (ClientInfo_Strings L m)) (rc_Members rc))
     @ [''    }'', ''}'']"

definition RegCluster_String :: "('h, hval, 'z) hamtlib_scheme \<Rightarrow> 'h RegCluster \<Rightarrow> string" where
  "RegCluster_String L rc = Join newline (RegCluster_Strings L rc)"

definition ParseRegClusterFromStrings ::
  "('h, hval, 'z) hamtlib_scheme \<Rightarrow> string list \<Rightarrow> (gerror + ('h RegCluster \<times> string list)) outcome" where
  "ParseRegClusterFromStrings L ss =
     with_line L ss (\<lambda>line rest.
     if line \<noteq> ''regCluster {'' then Ret (Inl IllFormedCluster)
     else with_line L rest (\<lambda>line rest.
     if \<not> HasPrefix line ''Attrs: '' then Ret (Inl IllFormedCluster)
     else case ParseInt (drop 7 line) 0 of
       Inl e \<Rightarrow> Ret (Inl e)
     | Inr i \<Rightarrow>
     (let attrs = (word_of_int i :: u64) in
     with_line L rest (\<lambda>line rest.
     if \<not> HasPrefix line ''Name: '' then Ret (Inl IllFormedCluster)
     else let name = drop 6 line in
     with_line L rest (\<lambda>line rest.
     if \<not> HasPrefix line ''ID: '' then Ret (Inl IllFormedCluster)
     else case DecodeString (drop 4 line) of
       Inl e \<Rightarrow> Ret (Inl e)
     | Inr val \<Rightarrow>
     (case ext (xi_New L val) of
       Inl e \<Rightarrow> Ret (Inl e)
     | Inr nodeid \<Rightarrow>
     with_line L rest (\<lambda>line rest.
     if \<not> HasPrefix line ''epCount: '' then Ret (Inl IllFormedCluster)
     else case Atoi (drop 9 line) of
       Inl e \<Rightarrow> Ret (Inl e)
     | Inr count \<Rightarrow>
     with_line L rest (\<lambda>line rest.
     if \<not> HasPrefix line ''maxSize: '' then Ret (Inl IllFormedCluster)
     else case Atoi (drop 9 line) of
       Inl e \<Rightarrow> Ret (Inl e)
     | Inr sz \<Rightarrow>
     (case NewRegCluster L name nodeid attrs (word_of_int sz) (word_of_int count) of
       Inl e \<Rightarrow> Ret (Inl e)
     | Inr rc \<Rightarrow>
     with_line L rest (\<lambda>line rest.
     if line \<noteq> ''Members {'' then Ret (Inl MissingMembersList)
     else obind (of_loop (items_loop (ParseClientInfoFromStrings L) (AddMember L) rc rest))
       (\<lambda>(rc, rest, err).
     case err of
       Some e \<Rightarrow> Ret (Inl e)
     | None \<Rightarrow>
     with_line L rest (\<lambda>line rest.
     if line \<noteq> ''}'' then Ret (Inl MissingClosingBrace)
     else with_line L rest (\<lambda>line rest.
     if line \<noteq> ''}'' then Ret (Inl MissingClosingBrace)
     else Ret (Inr (rc, rest)))))))))))))))"

definition ParseRegCluster ::
  "('h, hval, 'z) hamtlib_scheme \<Rightarrow> string \<Rightarrow> (gerror + ('h RegCluster \<times> string list)) outcome" where
  "ParseRegCluster L s = ParseRegClusterFromStrings L (Split s newline)"

section \<open>Consistency of the indexes\<close>

text \<open>
  The invariant of a cluster: the name index has exactly the members, under their names, and the
  names are different; whatever the ID index finds under a key is a member with that ID, and the
  search never fails.
\<close>

definition names_inv :: "'h RegCluster \<Rightarrow> bool" where
  "names_inv rc \<longleftrightarrow> distinct (map ci_GetName (rc_Members rc))
     \<and> (\<forall>n m. rc_MembersByName rc n = Some m \<longleftrightarrow> m \<in> set (rc_Members rc) \<and> ci_GetName m = n)"

definition ids_inv :: "('h, hval, 'z) hamtlib_scheme \<Rightarrow> 'h RegCluster \<Rightarrow> bool" where
  "ids_inv L rc \<longleftrightarrow> (\<forall>k. snd (ha_Find L (rc_MembersByID rc) k) = None)
     \<and> (\<forall>k v. fst (ha_Find L (rc_MembersByID rc) k) = Some v \<longrightarrow>
          (\<exists>m \<in> set (rc_Members rc). v = HClient m \<and> ci_ID m = k))"

definition cluster_inv :: "('h, hval, 'z) hamtlib_scheme \<Rightarrow> 'h RegCluster \<Rightarrow> bool" where
  "cluster_inv L rc \<longleftrightarrow> names_inv rc \<and> ids_inv L rc"

lemma NewRegCluster_Inr:
  "NewRegCluster L name i attrs maxSize epCount = Inr rc \<longleftrightarrow>
     (epCount = 0 \<or> maxSize \<noteq> 0) \<and>
     (\<exists>m. NewHAMT L (ha_MAX_W L) (NextExp2_32 L maxSize) = Inr m \<and>
        rc = \<lparr>rc_Name = (if name = [] then ''xlCluster'' else name), rc_ID = Some (Value i),
              rc_Attrs = attrs, rc_maxSize = maxSize, rc_epCount = epCount, rc_Members = [],
              rc_MembersByName = Map.empty, rc_MembersByID = m\<rparr>)"
  by (auto simp: NewRegCluster_def Let_def split: sum.splits if_splits)

lemma NewRegCluster_inv:
  "hamt_ok L \<Longrightarrow> NewRegCluster L name i attrs maxSize epCount = Inr rc \<Longrightarrow> cluster_inv L rc"
  by (auto simp: NewRegCluster_Inr cluster_inv_def names_inv_def ids_inv_def hamt_okD(1))

text \<open>What \<open>AddMember\<close> can do: reject with the cluster unchanged, or go through the insertion.\<close>

lemma AddMember_cases:
  obtains (taken) "member_name_in_use rc m" "AddMember L m rc = (rc, Some ClusterMemberNameInUse)"
  | (id_check) e where "\<not> member_name_in_use rc m" "member_id_check L rc = Some e"
      "AddMember L m rc = (rc, Some e)"
  | (insertion) "\<not> member_name_in_use rc m" "member_id_check L rc = None"
      "AddMember L m rc = member_insert L rc m"
  by (cases "member_name_in_use rc m"; cases "member_id_check L rc") (auto simp: AddMember_def)

lemma member_insert_fields:
  "rc_Members (fst (member_insert L rc m)) = rc_Members rc @ [m]"
  "rc_MembersByName (fst (member_insert L rc m)) = (rc_MembersByName rc)(ci_GetName m \<mapsto> m)"
  "rc_Name (fst (member_insert L rc m)) = rc_Name rc"
  "rc_ID (fst (member_insert L rc m)) = rc_ID rc"
  "rc_Attrs (fst (member_insert L rc m)) = rc_Attrs rc"
  "rc_maxSize (fst (member_insert L rc m)) = rc_maxSize rc"
  "rc_epCount (fst (member_insert L rc m)) = rc_epCount rc"
  by (auto simp: member_insert_def Let_def split: prod.splits option.splits)

lemma AddMember_frame:
  "rc_Name (fst (AddMember L m rc)) = rc_Name rc" "rc_ID (fst (AddMember L m rc)) = rc_ID rc"
  "rc_Attrs (fst (AddMember L m rc)) = rc_Attrs rc"
  "rc_maxSize (fst (AddMember L m rc)) = rc_maxSize rc"
  "rc_epCount (fst (AddMember L m rc)) = rc_epCount rc"
  by (cases rule: AddMember_cases [of rc m L]; simp add: member_insert_fields)+

lemma member_insert_names_inv:
  assumes "names_inv rc" and "\<not> member_name_in_use rc m"
  shows "names_inv (fst (member_insert L rc m))"
proof -
  have idx: "rc_MembersByName rc n = Some x \<longleftrightarrow> x \<in> set (rc_Members rc) \<and> ci_GetName x = n" for n x
    using assms(1) by (simp add: names_inv_def)
  have none: "rc_MembersByName rc (ci_GetName m) = None"
    using assms(2) by (simp add: member_name_in_use_def)
  then have new: "ci_GetName m \<notin> ci_GetName ` set (rc_Members rc)"
    by (metis idx imageE option.distinct(1))
  have "((rc_MembersByName rc)(ci_GetName m \<mapsto> m)) n = Some x \<longleftrightarrow>
      x \<in> set (rc_Members rc @ [m]) \<and> ci_GetName x = n" for n x
    using idx [of n x] none new by (cases "n = ci_GetName m") auto
  with new show ?thesis
    using assms(1) by (simp add: names_inv_def member_insert_fields)
qed

lemma member_insert_find:
  assumes "hamt_ok L"
  shows "ha_Find L (rc_MembersByID (fst (member_insert L rc m))) =
     (if snd (member_insert L rc m) = None
      then (ha_Find L (rc_MembersByID rc))(ci_ID m := (Some (HClient m), None))
      else ha_Find L (rc_MembersByID rc))"
proof (cases "NewBytesKey L (ci_ID m)")
  case (Pair key kerr)
  show ?thesis
  proof (cases kerr)
    case None
    with Pair have key: "key = ci_ID m" using hamt_okD(4) [OF assms] by simp
    obtain h' ierr where i: "ha_Insert L (rc_MembersByID rc) key (HClient m) = (h', ierr)"
      by fastforce
    show ?thesis
      using i Pair None key hamt_okD(2,3) [OF assms, of "rc_MembersByID rc" key "HClient m" h']
      by (cases ierr) (auto simp: member_insert_def Let_def)
  next
    case (Some e)
    with Pair show ?thesis by (simp add: member_insert_def Let_def)
  qed
qed

lemma member_insert_ids_inv:
  assumes "hamt_ok L" and "ids_inv L rc"
  shows "ids_inv L (fst (member_insert L rc m))"
  using assms(2) by (auto simp: ids_inv_def member_insert_find [OF assms(1)] member_insert_fields)

lemma AddMember_inv:
  assumes "hamt_ok L" and "cluster_inv L rc"
  shows "cluster_inv L (fst (AddMember L m rc))"
proof (cases rule: AddMember_cases [of rc m L])
  case insertion
  then show ?thesis
    using assms by (simp add: cluster_inv_def member_insert_names_inv member_insert_ids_inv)
qed (use assms(2) in simp_all)

text \<open>A member is added without error exactly when its name is free and the trie takes its ID.\<close>

lemma AddMember_ok_iff:
  "snd (AddMember L m rc) = None \<longleftrightarrow>
     \<not> member_name_in_use rc m \<and> member_id_check L rc = None \<and> snd (member_insert L rc m) = None"
  by (cases rule: AddMember_cases [of rc m L]) auto

lemma AddMember_ok:
  assumes "hamt_ok L" and "AddMember L m rc = (rc', None)"
  shows "rc_Members rc' = rc_Members rc @ [m]"
    and "rc_MembersByName rc' = (rc_MembersByName rc)(ci_GetName m \<mapsto> m)"
    and "ha_Find L (rc_MembersByID rc') = (ha_Find L (rc_MembersByID rc))(ci_ID m := (Some (HClient m), None))"
proof -
  have "snd (AddMember L m rc) = None" using assms(2) by simp
  then have i: "AddMember L m rc = member_insert L rc m" and n: "snd (member_insert L rc m) = None"
    unfolding AddMember_ok_iff by (simp_all add: AddMember_def)
  then have rc': "rc' = fst (member_insert L rc m)" using assms(2) by (metis fst_conv)
  show "rc_Members rc' = rc_Members rc @ [m]"
    and "rc_MembersByName rc' = (rc_MembersByName rc)(ci_GetName m \<mapsto> m)"
    by (simp_all add: rc' member_insert_fields)
  show "ha_Find L (rc_MembersByID rc') = (ha_Find L (rc_MembersByID rc))(ci_ID m := (Some (HClient m), None))"
    using n by (simp add: rc' member_insert_find [OF assms(1)])
qed

text \<open>A cluster is a name index of its members.\<close>

interpretation members: name_index "\<lambda>rc. hamt_ok L \<and> cluster_inv L rc" "AddMember L"
    rc_Members rc_MembersByName ci_GetName
  for L :: "('h, hval, 'z) hamtlib_scheme"
proof
  fix rc rc' :: "'h RegCluster" and m b n
  assume inv: "hamt_ok L \<and> cluster_inv L rc"
  show "hamt_ok L \<and> cluster_inv L (fst (AddMember L m rc))"
    using inv by (simp add: AddMember_inv)
  show "rc_Members rc' = rc_Members rc @ [m]" if "AddMember L m rc = (rc', None)"
    using inv that AddMember_ok(1) by blast
  show "\<exists>e. AddMember L m rc = (rc, Some e)" if "rc_MembersByName rc (ci_GetName m) = Some b"
    using that by (simp add: AddMember_def member_name_in_use_def)
  show "rc_MembersByName rc n = Some m \<longleftrightarrow> m \<in> set (rc_Members rc) \<and> ci_GetName m = n"
    using inv by (simp add: cluster_inv_def names_inv_def)
  show "distinct (map ci_GetName (rc_Members rc))"
    using inv by (simp add: cluster_inv_def names_inv_def)
qed

section \<open>Equality\<close>

lemma RegCluster_Equal_ArgPtr:
  assumes "basenodes_ok L" and "length (rc_Members a) < 2 ^ 32" and "length (rc_Members b) < 2 ^ 32"
  shows "RegCluster_Equal L a (ArgPtr b) \<longleftrightarrow>
     rc_Attrs a = rc_Attrs b \<and> rc_Name a = rc_Name b \<and> slice_of (rc_ID a) = slice_of (rc_ID b)
     \<and> rc_epCount a = rc_epCount b \<and> rc_maxSize a = rc_maxSize b \<and> rc_Members a = rc_Members b"
proof -
  have len: "unat (rc_Size c) = length (rc_Members c)" if "length (rc_Members c) < 2 ^ 32" for c
    using that by (simp add: rc_Size_def unat_of_nat)
  have "rc_Size a = rc_Size b \<longleftrightarrow> length (rc_Members a) = length (rc_Members b)"
    using len [OF assms(2)] len [OF assms(3)] by (metis rc_Size_def)
  then show ?thesis
    by (auto simp: RegCluster_Equal_def ClientInfo_Equal_ArgPtr [OF assms(1)] len [OF assms(2)]
        intro: nth_equalityI)
qed

section \<open>Reading back the text form\<close>

text \<open>
  A cluster whose text form reads back: it was built by \<open>NewRegCluster\<close> and successful
  \<open>AddMember\<close>s, its name can be a field value, its ID is one, its attributes are less than
  \<open>2^63\<close> (they are read with \<open>ParseInt\<close>), and its members read back.
\<close>

definition wf_cluster :: "('h, hval, 'z) hamtlib_scheme \<Rightarrow> 'h RegCluster \<Rightarrow> bool" where
  "wf_cluster L rc \<longleftrightarrow> lines_ok L \<and> nodeids_ok L \<and> wordy (rc_Name rc) \<and> unat (rc_Attrs rc) < 2 ^ 63
     \<and> valid_id (slice_of (rc_ID rc)) \<and> (\<forall>m \<in> set (rc_Members rc). wf_client L m)
     \<and> (\<exists>rc0. NewRegCluster L (rc_Name rc) (NodeID (slice_of (rc_ID rc))) (rc_Attrs rc)
                 (rc_maxSize rc) (rc_epCount rc) = Inr rc0
              \<and> adds (AddMember L) (rc_Members rc) rc0 = Some rc)"

definition cluster_lines :: "('h, hval, 'z) hamtlib_scheme \<Rightarrow> string \<Rightarrow> 'h RegCluster \<Rightarrow> string list" where
  "cluster_lines L p rc = concat (map (\<lambda>l. split_nl (p @ l)) (RegCluster_Strings L rc))"

lemma member_lines:
  "concat (map (\<lambda>l. split_nl (p @ l)) (concat (map (\<lambda>m. map (\<lambda>l. q @ l) (ClientInfo_Strings L m)) ms)))
     = concat (map (client_lines L (p @ q)) ms)"
  by (induction ms) (simp_all add: client_lines_def comp_def)

lemma valid_id_nonempty: "valid_id b \<Longrightarrow> b \<noteq> []"
  by (auto simp: valid_id_def)

lemma cluster_lines_unfold:
  assumes "indent p" and "wordy (rc_Name rc)" and "valid_id (slice_of (rc_ID rc))"
  shows "cluster_lines L p rc =
     (p @ ''regCluster {'')
     # ((p @ ''    '') @ (''Attrs: 0x'' @ fmt_016x (rc_Attrs rc)))
     # ((p @ ''    '') @ (''Name: '' @ rc_Name rc))
     # ((p @ ''    '') @ (''ID: '' @ EncodeToString (slice_of (rc_ID rc))))
     # ((p @ ''    '') @ (''epCount: '' @ fmt_d (unat (rc_epCount rc))))
     # ((p @ ''    '') @ (''maxSize: '' @ fmt_d (unat (rc_maxSize rc))))
     # ((p @ ''    '') @ ''Members {'')
     # concat (map (client_lines L (p @ ''        '')) (rc_Members rc))
     @ ((p @ ''    '') @ ''}'') # [p @ ''}'']"
  using assms valid_id_nonempty [OF assms(3)]
    member_lines [of p "''        ''" L "rc_Members rc"]
  by (simp add: cluster_lines_def RegCluster_Strings_def split_nl_line indent_no_newline
      wordy_no_newline)

lemma solid_fields [simp]:
  "solid (''Attrs: 0x'' @ fmt_016x w)" "wordy name \<Longrightarrow> solid (''Name: '' @ name)"
  "bs \<noteq> [] \<Longrightarrow> solid (''ID: '' @ EncodeToString bs)" "solid (''epCount: '' @ fmt_d n)"
  "solid (''maxSize: '' @ fmt_d n)" "solid ''regCluster {''" "solid ''Members {''" "solid ''}''"
  by (rule solid_field; simp add: is_space_def)+ (simp_all add: solid_def is_space_def)

lemma word_of_int_unat: "word_of_int (int (unat w)) = (w :: 'a::len word)"
  by simp

lemma field_prefixes [simp]:
  "HasPrefix (''Attrs: 0x'' @ s) ''Attrs: ''" "HasPrefix (''Name: '' @ s) ''Name: ''"
  "HasPrefix (''ID: '' @ s) ''ID: ''" "HasPrefix (''epCount: '' @ s) ''epCount: ''"
  "HasPrefix (''maxSize: '' @ s) ''maxSize: ''"
  "drop 7 (''Attrs: 0x'' @ s) = ''0x'' @ s" "drop 6 (''Name: '' @ s) = s"
  "drop 4 (''ID: '' @ s) = s" "drop 9 (''epCount: '' @ s) = s" "drop 9 (''maxSize: '' @ s) = s"
  by (simp_all add: HasPrefix_def)

lemma Atoi_u32: "Atoi (fmt_d (unat (w :: u32))) = Inr (int (unat w))"
proof (rule Atoi_fmt_d)
  have "unat w < 2 ^ 32" using unsigned_less [of w, where ?'a = nat] by simp
  then show "unat w < 2 ^ 63" by simp
qed

lemma parse_cluster_lines:
  assumes "wf_cluster L rc" and "indent p"
  shows "ParseRegClusterFromStrings L (cluster_lines L p rc @ rest) = Ret (Inr (rc, rest))"
proof -
  have X: "lines_ok L" and N: "nodeids_ok L" and nm: "wordy (rc_Name rc)"
    and at: "unat (rc_Attrs rc) < 2 ^ 63" and i: "valid_id (slice_of (rc_ID rc))"
    and ms: "\<forall>m \<in> set (rc_Members rc). wf_client L m"
    using assms(1) by (auto simp: wf_cluster_def)
  obtain rc0 where rc0: "NewRegCluster L (rc_Name rc) (NodeID (slice_of (rc_ID rc))) (rc_Attrs rc)
      (rc_maxSize rc) (rc_epCount rc) = Inr rc0" "adds (AddMember L) (rc_Members rc) rc0 = Some rc"
    using assms(1) by (auto simp: wf_cluster_def)
  have q: "indent (p @ ''    '')" "indent (p @ ''        '')"
    using assms(2) by (simp_all add: indent_def)
  have wl: "with_line L ((p' @ s) # ls) k = k s ls" if "indent p'" "solid s"
    for p' s ls and k :: "string \<Rightarrow> string list \<Rightarrow> (gerror + ('h RegCluster \<times> string list)) outcome"
    using X that by (rule with_line_printed)
  have loop: "items_loop (ParseClientInfoFromStrings L) (AddMember L) rc0
      (concat (map (client_lines L (p @ ''        '')) (rc_Members rc)) @ ((p @ ''    '') @ ''}'') # r) =
      Some (Ret (rc, ((p @ ''    '') @ ''}'') # r, None))" for r
    using q(2) closing_brace [OF q(1)] ms rc0(2) by (rule client.items_loop_reads_back)
  have ls: "(l # ls) @ r = l # ls @ r" "[] @ r = r" "(ls @ ls') @ r = ls @ ls' @ r"
    for l :: string and ls ls' r by simp_all
  show ?thesis
    unfolding ParseRegClusterFromStrings_def cluster_lines_unfold [OF assms(2) nm i]
    by (simp only: ls wl assms(2) q solid_fields nm valid_id_nonempty [OF i] field_prefixes
        ParseInt_fmt_016x at if_True sum.case word_of_int_unat DecodeString_EncodeToString Let_def
        nodeids_okD(1) [OF N i] ext_simps Atoi_u32 rc0(1) loop of_loop_simps obind.simps prod.case
        option.case not_True_eq_False if_False simp_thms)
qed

interpretation cluster: line_codec "cluster_lines L" "ParseRegClusterFromStrings L" "wf_cluster L"
  for L :: "('h, hval, 'z) hamtlib_scheme"
proof
  fix rc :: "'h RegCluster" and p rest
  assume wf: "wf_cluster L rc" and p: "indent p"
  show "ParseRegClusterFromStrings L (cluster_lines L p rc @ rest) = Ret (Inr (rc, rest))"
    using wf p by (rule parse_cluster_lines)
  have "TrimSpace (p @ ''regCluster {'') = ''regCluster {''"
    using p by (rule TrimSpace_printed) simp
  then show "\<exists>l ls. cluster_lines L p rc = l # ls \<and> TrimSpace l \<noteq> ''}''"
    using wf p by (simp add: cluster_lines_unfold wf_cluster_def)
qed

lemma split_RegCluster_String: "split_nl (RegCluster_String L rc) = cluster_lines L [] rc"
proof -
  have "RegCluster_Strings L rc \<noteq> []" by (simp add: RegCluster_Strings_def)
  then show ?thesis by (simp add: RegCluster_String_def cluster_lines_def split_nl_Join)
qed

section \<open>Properties\<close>

text \<open>A cluster on the sample library, with the members given.\<close>

definition ref_cluster :: "u8 \<Rightarrow> ClientInfo list \<Rightarrow> (bytes \<times> hval) list RegCluster" where
  "ref_cluster n ms = \<lparr>rc_Name = ''club'', rc_ID = Some (ref_id n), rc_Attrs = 5, rc_maxSize = 2,
     rc_epCount = 1, rc_Members = ms, rc_MembersByName = map_of (map (\<lambda>m. (ci_GetName m, m)) (rev ms)),
     rc_MembersByID = map (\<lambda>m. (ci_ID m, HClient m)) (rev ms)\<rparr>"

lemma ref_id_eq [simp]: "ref_id a = ref_id b \<longleftrightarrow> a = b"
  by (simp add: ref_id_def)

lemma ref_cluster_add:
  assumes "ci_GetName m \<notin> ci_GetName ` set ms" and "ci_ID m \<noteq> []" and "\<forall>x \<in> set ms. ci_ID x \<noteq> ref_id n"
  shows "AddMember (reflib tab) m (ref_cluster n ms) = (ref_cluster n (ms @ [m]), None)"
proof -
  have "map_of (map (\<lambda>m. (ci_GetName m, m)) (rev ms)) (ci_GetName m) = None"
    using assms(1) by (auto simp: map_of_eq_None_iff)
  moreover have "map_of (map (\<lambda>m. (ci_ID m, HClient m)) (rev ms)) (ref_id n) = None"
    using assms(3) by (auto simp: map_of_eq_None_iff)
  ultimately show ?thesis
    using assms(2) by (simp add: AddMember_def member_name_in_use_def member_id_check_def member_insert_def
        ref_cluster_def Let_def)
qed

lemma ref_cluster_new:
  "NewRegCluster (reflib tab) ''club'' (NodeID (ref_id n)) 5 2 1 = Inr (ref_cluster n [])"
  by (simp add: NewRegCluster_def ref_cluster_def)

lemma ref_cluster_inv:
  assumes "distinct (map ci_GetName ms)"
  shows "cluster_inv (reflib tab) (ref_cluster n ms)"
proof -
  have d: "distinct (map fst (map (\<lambda>m. (ci_GetName m, m)) (rev ms)))"
    using assms by (simp add: comp_def rev_map [symmetric] distinct_map)
  have "map_of (map (\<lambda>m. (ci_GetName m, m)) (rev ms)) k = Some m \<longleftrightarrow> m \<in> set ms \<and> ci_GetName m = k" for k m
    using map_of_eq_Some_iff [OF d] by auto
  moreover have "\<exists>m \<in> set ms. v = HClient m \<and> ci_ID m = k"
    if "map_of (map (\<lambda>m. (ci_ID m, HClient m)) (rev ms)) k = Some v" for k v
    using map_of_SomeD [OF that] by auto
  ultimately show ?thesis
    using assms by (simp add: cluster_inv_def names_inv_def ids_inv_def ref_cluster_def)
qed

text \<open>\<open>AddMember\<close> keeps the cluster consistent on every path, also when the trie refuses the member
  after it was entered in the list: the name index holds exactly the members, names stay
  different, what the ID index finds is a member with that ID; and it never touches the
  cluster's name, ID, attributes or sizes.\<close>

theorem add_member_invariant:
  assumes "hamt_ok L" and "cluster_inv L rc"
  shows "cluster_inv L (fst (AddMember L m rc)) \<and> rc_Name (fst (AddMember L m rc)) = rc_Name rc
     \<and> rc_ID (fst (AddMember L m rc)) = rc_ID rc \<and> rc_maxSize (fst (AddMember L m rc)) = rc_maxSize rc
     \<and> rc_epCount (fst (AddMember L m rc)) = rc_epCount rc"
  using AddMember_inv [OF assms] by (simp add: AddMember_frame)

theorem add_member_invariant_witness:
  "cluster_inv (reflib []) (fst (AddMember (reflib []) (ref_client ''bob'' 2) (ref_cluster 9 [ref_client ''al'' 1])))"
  using add_member_invariant [OF reflib_hamt ref_cluster_inv [of "[ref_client ''al'' 1]" _ 9]] by simp

text \<open>C24. When \<open>AddMember\<close> reports no error, the member's name was free, the member is now the last of
  the list, and it is found by its name and by its ID, with every other entry of both indexes as
  before.\<close>

theorem add_member_ok:
  assumes "hamt_ok L" and "cluster_inv L rc" and "AddMember L m rc = (rc', None)"
  shows "(\<forall>x \<in> set (rc_Members rc). ci_GetName x \<noteq> ci_GetName m)
     \<and> rc_Members rc' = rc_Members rc @ [m]
     \<and> rc_MembersByName rc' = (rc_MembersByName rc)(ci_GetName m \<mapsto> m)
     \<and> ha_Find L (rc_MembersByID rc') = (ha_Find L (rc_MembersByID rc))(ci_ID m := (Some (HClient m), None))"
proof -
  have "distinct (map ci_GetName (rc_Members rc'))"
    using AddMember_inv [OF assms(1,2), of m] assms(3)
    by (simp add: cluster_inv_def names_inv_def)
  with AddMember_ok [OF assms(1,3)] show ?thesis by (auto simp: image_iff)
qed

theorem add_member_ok_witness:
  "rc_MembersByName (ref_cluster 9 [ref_client ''al'' 1, ref_client ''bob'' 2]) ''bob'' = Some (ref_client ''bob'' 2)"
proof -
  have "AddMember (reflib []) (ref_client ''bob'' 2) (ref_cluster 9 [ref_client ''al'' 1]) =
      (ref_cluster 9 [ref_client ''al'' 1, ref_client ''bob'' 2], None)"
    using ref_cluster_add [of "ref_client ''bob'' 2" "[ref_client ''al'' 1]" 9] by simp
  from add_member_ok [OF reflib_hamt _ this] show ?thesis by (simp add: ref_cluster_inv)
qed

text \<open>A name that is taken is refused: if some member has the name, \<open>AddMember\<close> reports
  \<open>ClusterMemberNameInUse\<close> and changes nothing.\<close>

theorem add_member_name_taken:
  assumes "cluster_inv L rc" and "x \<in> set (rc_Members rc)" and "ci_GetName x = ci_GetName m"
  shows "AddMember L m rc = (rc, Some ClusterMemberNameInUse)"
proof -
  have "rc_MembersByName rc (ci_GetName m) = Some x"
    using assms by (simp add: cluster_inv_def names_inv_def)
  then show ?thesis by (simp add: AddMember_def member_name_in_use_def)
qed

theorem add_member_name_taken_witness:
  "AddMember (reflib []) (ref_client ''al'' 2) (ref_cluster 9 [ref_client ''al'' 1]) =
     (ref_cluster 9 [ref_client ''al'' 1], Some ClusterMemberNameInUse)"
  by (rule add_member_name_taken [where x = "ref_client ''al'' 1"])
    (simp_all add: ref_cluster_inv, simp add: ref_cluster_def)

text \<open>C25. \<open>AddMember\<close> has no other guard. A member with a free name is added whatever the size of the
  cluster, so also to a full one, and whatever its ID, so also with the ID of another member: the
  ID that is looked for is the cluster's. The only conditions are that no member has the
  cluster's ID and that the trie takes the member.\<close>

theorem add_member_accepts:
  assumes "hamt_ok L" and "cluster_inv L rc" and "rc_ID rc = Some k" and "valid_id k" and "valid_id (ci_ID m)"
    and "\<forall>x \<in> set (rc_Members rc). ci_GetName x \<noteq> ci_GetName m \<and> ci_ID x \<noteq> k"
    and "snd (ha_Insert L (rc_MembersByID rc) (ci_ID m) (HClient m)) = None"
  shows "snd (AddMember L m rc) = None \<and> rc_Members (fst (AddMember L m rc)) = rc_Members rc @ [m]"
proof -
  have "rc_MembersByName rc (ci_GetName m) = None"
    using assms(2,6) by (cases "rc_MembersByName rc (ci_GetName m)") (auto simp: cluster_inv_def names_inv_def)
  moreover have "ha_Find L (rc_MembersByID rc) k = (None, None)"
  proof -
    have "fst (ha_Find L (rc_MembersByID rc) k) \<noteq> Some v" for v
      using assms(2,6) unfolding cluster_inv_def ids_inv_def by blast
    then have "fst (ha_Find L (rc_MembersByID rc) k) = None" by blast
    then show ?thesis using assms(2) by (simp add: cluster_inv_def ids_inv_def prod_eq_iff)
  qed
  ultimately show ?thesis
    using assms(3,7) hamt_okD(5) [OF assms(1,4)] hamt_okD(5) [OF assms(1,5)]
    by (auto simp: AddMember_def member_name_in_use_def member_id_check_def member_insert_def Let_def
        split: prod.splits)
qed

theorem add_member_accepts_witness:
  "let full = ref_cluster 9 [ref_client ''al'' 1, ref_client ''bob'' 2];
       r = AddMember (reflib []) (ref_client ''eve'' 1) full
   in rc_maxSize full = 2 \<and> snd r = None \<and> length (rc_Members (fst r)) = 3
      \<and> ci_ID (rc_Members (fst r) ! 2) = ci_ID (rc_Members (fst r) ! 0)"
proof -
  let ?full = "ref_cluster 9 [ref_client ''al'' 1, ref_client ''bob'' 2]"
  have "snd (AddMember (reflib []) (ref_client ''eve'' 1) ?full) = None
     \<and> rc_Members (fst (AddMember (reflib []) (ref_client ''eve'' 1) ?full)) = rc_Members ?full @ [ref_client ''eve'' 1]"
    by (rule add_member_accepts [where k = "ref_id 9"]) (simp_all add: ref_cluster_inv, simp_all add: ref_cluster_def)
  then show ?thesis by (simp add: Let_def) (simp add: ref_cluster_def)
qed

text \<open>A new cluster to which members are added one after the other, all without error, has exactly
  these members in the order they joined, with different names, each found by its name.\<close>

theorem cluster_join_order:
  assumes "hamt_ok L" and "NewRegCluster L name i attrs maxSize epCount = Inr rc0"
    and "adds (AddMember L) ms rc0 = Some rc"
  shows "rc_Members rc = ms \<and> distinct (map ci_GetName ms)
     \<and> (\<forall>m \<in> set ms. rc_MembersByName rc (ci_GetName m) = Some m)"
proof -
  have inv: "hamt_ok L \<and> cluster_inv L rc0"
    using assms(1) NewRegCluster_inv [OF assms(1,2)] by simp
  have e: "rc_Members rc0 = []" using assms(2) by (auto simp: NewRegCluster_Inr)
  show ?thesis
    using members.adds_inv_elems [OF inv assms(3)] members.adds_lookup [OF inv assms(3)]
      members.adds_distinct [OF inv assms(3)] e by auto
qed

theorem cluster_join_order_witness:
  "rc_MembersByName (ref_cluster 9 [ref_client ''al'' 1, ref_client ''bob'' 2]) ''al'' = Some (ref_client ''al'' 1)"
proof -
  have "adds (AddMember (reflib [])) [ref_client ''al'' 1, ref_client ''bob'' 2] (ref_cluster 9 []) =
      Some (ref_cluster 9 [ref_client ''al'' 1, ref_client ''bob'' 2])"
    by (simp add: ref_cluster_add)
  from cluster_join_order [OF reflib_hamt ref_cluster_new this] show ?thesis by auto
qed

text \<open>C26. \<open>ParseRegCluster\<close> reads back what \<open>String\<close> printed: the fields, the members in order, and both
  indexes. This holds for a cluster built by \<open>NewRegCluster\<close> and \<open>AddMember\<close> with a name that can
  be a field, an ID of legal length and attributes below \<open>2^63\<close>.\<close>

theorem cluster_text_roundtrip:
  assumes "wf_cluster L rc"
  shows "ParseRegCluster L (RegCluster_String L rc) = Ret (Inr (rc, []))"
  using cluster.reads_back_alone [OF assms] by (simp add: ParseRegCluster_def split_RegCluster_String)

theorem cluster_text_roundtrip_witness:
  "ParseRegCluster (reflib []) (RegCluster_String (reflib []) (ref_cluster 9 [ref_client ''al'' 1])) =
     Ret (Inr (ref_cluster 9 [ref_client ''al'' 1], []))"
proof (rule cluster_text_roundtrip)
  have "NewRegCluster (reflib []) ''club'' (NodeID (ref_id 9)) 5 2 1 = Inr (ref_cluster 9 [])
      \<and> adds (AddMember (reflib [])) [ref_client ''al'' 1] (ref_cluster 9 []) =
        Some (ref_cluster 9 [ref_client ''al'' 1])"
    by (simp add: ref_cluster_add ref_cluster_new)
  then show "wf_cluster (reflib []) (ref_cluster 9 [ref_client ''al'' 1])"
    by (auto simp: wf_cluster_def ref_cluster_def wordy_def is_space_def)
qed

text \<open>Attributes of \<open>2^63\<close> or more are printed but not read back: the parser reports a range error.\<close>

theorem cluster_attrs_range:
  assumes "lines_ok L" and "2 ^ 63 \<le> unat (rc_Attrs rc)" and "wordy (rc_Name rc)" and "valid_id (slice_of (rc_ID rc))"
  shows "ParseRegCluster L (RegCluster_String L rc) = Ret (Inl (Ext ''value out of range''))"
proof -
  have q: "indent []" "indent ([] @ ''    '')" by (simp_all add: indent_def)
  have wl: "with_line L ((p' @ s) # ls) k = k s ls" if "indent p'" "solid s"
    for p' s ls and k :: "string \<Rightarrow> string list \<Rightarrow> (gerror + ('a RegCluster \<times> string list)) outcome"
    using assms(1) that by (rule with_line_printed)
  have at: "(unat (rc_Attrs rc) < 2 ^ 63) = False" using assms(2) by simp
  show ?thesis
    unfolding ParseRegCluster_def split_RegCluster_String ParseRegClusterFromStrings_def
      cluster_lines_unfold [OF q(1) assms(3,4)]
    by (simp only: wl q solid_fields field_prefixes ParseInt_fmt_016x at if_False sum.case simp_thms)
qed

theorem cluster_attrs_range_witness:
  "ParseRegCluster (reflib []) (RegCluster_String (reflib []) ((ref_cluster 9 [])\<lparr>rc_Attrs := 0x8000000000000000\<rparr>)) =
     Ret (Inl (Ext ''value out of range''))"
  by (rule cluster_attrs_range) (simp_all add: ref_cluster_def wordy_def is_space_def)

text \<open>\<open>Equal\<close> on two clusters of fewer than \<open>2^32\<close> members compares exactly the printed fields: two
  clusters are equal when attributes, name, ID, sizes and the lists of members agree.\<close>

theorem cluster_equal_iff:
  assumes "basenodes_ok L" and "length (rc_Members a) < 2 ^ 32" and "length (rc_Members b) < 2 ^ 32"
  shows "RegCluster_Equal L a (ArgPtr b) \<longleftrightarrow>
     rc_Attrs a = rc_Attrs b \<and> rc_Name a = rc_Name b \<and> slice_of (rc_ID a) = slice_of (rc_ID b)
     \<and> rc_epCount a = rc_epCount b \<and> rc_maxSize a = rc_maxSize b \<and> rc_Members a = rc_Members b"
  using assms by (rule RegCluster_Equal_ArgPtr)

theorem cluster_equal_iff_witness:
  "\<not> RegCluster_Equal (reflib []) (ref_cluster 9 [ref_client ''al'' 1]) (ArgPtr (ref_cluster 9 []))"
  by (subst cluster_equal_iff) (simp_all add: ref_cluster_def)

end
