(* ===== verification/Interleave.thy ===== *)
theory Interleave
  imports Prelude
begin

text \<open>
  Any number of sessions over one shared state. A session takes a step on its own state and the
  shared one; sessions open at any time, in a fresh state, and take their steps in any order. A step that panics or
  hangs is not part of a run: it ends the process.

  The contract of a service: its steps keep an invariant of the shared state and what the session
  relies on, and only let the shared state grow; and what a session relies on survives growth. Then
  no interleaving can break the invariant or what any of the sessions relies on.
\<close>

inductive interleaved ::
  "('i \<Rightarrow> 'g \<Rightarrow> 'l \<Rightarrow> ('g \<times> 'l) outcome) \<Rightarrow> ('l \<Rightarrow> bool) \<Rightarrow> 'g \<times> 'l list \<Rightarrow> 'g \<times> 'l list \<Rightarrow> bool"
  for step and fresh where
  start: "interleaved step fresh s s"
| opens: "interleaved step fresh s (g, ls) \<Longrightarrow> fresh l \<Longrightarrow> interleaved step fresh s (g, ls @ [l])"
| turn: "interleaved step fresh s (g, ls) \<Longrightarrow> n < length ls \<Longrightarrow> step i g (ls ! n) = Ret (g', l') \<Longrightarrow>
    interleaved step fresh s (g', ls[n := l'])"

inductive_cases interleaved_elim: "interleaved step fresh s t"

locale shared_service =
  fixes step :: "'i \<Rightarrow> 'g \<Rightarrow> 'l \<Rightarrow> ('g \<times> 'l) outcome"
    and fresh :: "'l \<Rightarrow> bool"
    and ginv :: "'g \<Rightarrow> bool"
    and linv :: "'g \<Rightarrow> 'l \<Rightarrow> bool"
    and le :: "'g \<Rightarrow> 'g \<Rightarrow> bool"
  assumes step_keeps: "ginv g \<Longrightarrow> linv g l \<Longrightarrow> step i g l = Ret (g', l') \<Longrightarrow>
      ginv g' \<and> linv g' l' \<and> le g g'"
    and fresh_linv: "ginv g \<Longrightarrow> fresh l \<Longrightarrow> linv g l"
    and linv_mono: "le g g' \<Longrightarrow> linv g l \<Longrightarrow> linv g' l"
    and le_refl: "le g g"
    and le_trans: "le g g' \<Longrightarrow> le g' g'' \<Longrightarrow> le g g''"
begin

lemma interleaved_safe:
  assumes "interleaved step fresh (g0, ls0) (g, ls)" and "ginv g0" and "\<forall>l \<in> set ls0. linv g0 l"
  shows "ginv g \<and> (\<forall>l \<in> set ls. linv g l) \<and> le g0 g"
  using assms(1)
proof (induction "(g0, ls0)" "(g, ls)" arbitrary: g ls rule: interleaved.induct)
  case start
  show ?case using assms(2,3) le_refl by blast
next
  case (opens g ls l)
  then show ?case using fresh_linv [of g l] by auto
next
  case (turn g ls n i g' l')
  then have IH: "ginv g" "\<forall>l \<in> set ls. linv g l" "le g0 g" by auto
  have k: "ginv g' \<and> linv g' l' \<and> le g g'"
    using IH(1,2) turn.hyps(3,4) by (intro step_keeps) auto
  then have "\<forall>l \<in> set ls. linv g' l" using IH(2) linv_mono by blast
  with k show ?case
    using le_trans IH(3) set_update_subset_insert [of ls n l'] by blast
qed

end

section \<open>One session among others\<close>

text \<open>
  Something that one session's own steps keep, and that survives the growth of the shared state, is
  kept in every interleaving.
\<close>

locale tracked_session = shared_service +
  fixes track :: "'b \<Rightarrow> 'c \<Rightarrow> bool"
  assumes track_step: "ginv g \<Longrightarrow> linv g l \<Longrightarrow> track g l \<Longrightarrow> step i g l = Ret (g', l') \<Longrightarrow> track g' l'"
    and track_mono: "le g g' \<Longrightarrow> track g l \<Longrightarrow> track g' l"
begin

lemma tracked:
  assumes "interleaved step fresh (g0, ls0) (g, ls)" and "ginv g0" and "\<forall>l \<in> set ls0. linv g0 l"
    and "n < length ls0" and "track g0 (ls0 ! n)"
  shows "n < length ls \<and> track g (ls ! n)"
  using assms(1)
proof (induction "(g0, ls0)" "(g, ls)" arbitrary: g ls rule: interleaved.induct)
  case start
  show ?case using assms(4,5) by simp
next
  case (opens g ls l)
  then show ?case by (simp add: nth_append)
next
  case (turn g ls m i g' l')
  have safe: "ginv g" "\<forall>l \<in> set ls. linv g l" using interleaved_safe [OF turn.hyps(1) assms(2,3)] by auto
  then have m: "linv g (ls ! m)" using turn.hyps(3) by simp
  from step_keeps [OF safe(1) m turn.hyps(4)] have le: "le g g'" by simp
  show ?case
  proof (cases "n = m")
    case True
    with track_step [OF safe(1) m _ turn.hyps(4)] turn show ?thesis by simp
  next
    case False
    with track_mono [OF le] turn show ?thesis by simp
  qed
qed

end

end
