(* ===== verification/Race.thy ===== *)
theory Race
  imports RegCluster Interleave
begin

text \<open>
  Concurrent calls of \<open>AddMember\<close> on one cluster. The call holds the cluster's lock three times, not
  once, so another call may run between its two checks and the insertion. The model runs any number
  of calls, one critical section at a time, in any order; a call that runs alone is the function
  \<open>AddMember\<close>.
\<close>

section \<open>The critical sections\<close>

datatype add_pc = AtName | AtID | AtInsert | Finished "gerror option"

fun add_step ::
  "('h, hval, 'z) hamtlib_scheme \<Rightarrow> unit \<Rightarrow> 'h RegCluster \<Rightarrow> ClientInfo \<times> add_pc \<Rightarrow>
   ('h RegCluster \<times> ClientInfo \<times> add_pc) outcome" where
  "add_step L u rc (m, AtName) =
     Ret (rc, m, if member_name_in_use rc m then Finished (Some ClusterMemberNameInUse) else AtID)"
| "add_step L u rc (m, AtID) =
     Ret (rc, m, case member_id_check L rc of Some e \<Rightarrow> Finished (Some e) | None \<Rightarrow> AtInsert)"
| "add_step L u rc (m, AtInsert) = (case member_insert L rc m of (rc, err) \<Rightarrow> Ret (rc, m, Finished err))"
| "add_step L u rc (m, Finished err) = Ret (rc, m, Finished err)"

section \<open>What no interleaving breaks\<close>

text \<open>The name index covers the members and has nothing else; it need not be one to one.\<close>

definition names_cover :: "'h RegCluster \<Rightarrow> bool" where
  "names_cover rc \<longleftrightarrow> (\<forall>m \<in> set (rc_Members rc). rc_MembersByName rc (ci_GetName m) \<noteq> None)
     \<and> (\<forall>n m. rc_MembersByName rc n = Some m \<longrightarrow> m \<in> set (rc_Members rc) \<and> ci_GetName m = n)"

definition call_ok :: "'h RegCluster \<Rightarrow> ClientInfo \<times> add_pc \<Rightarrow> bool" where
  "call_ok rc l \<longleftrightarrow> (snd l = Finished None \<longrightarrow> fst l \<in> set (rc_Members rc))"

definition members_le :: "'h RegCluster \<Rightarrow> 'h RegCluster \<Rightarrow> bool" where
  "members_le a b \<longleftrightarrow> (\<exists>ms. rc_Members b = rc_Members a @ ms)"

lemma names_cover_insert: "names_cover rc \<Longrightarrow> names_cover (fst (member_insert L rc m))"
  by (auto simp: names_cover_def member_insert_def Let_def split: prod.split option.split)

lemma member_insert_members: "rc_Members (fst (member_insert L rc m)) = rc_Members rc @ [m]"
  by (simp add: member_insert_def Let_def split: prod.split option.split)

lemma add_step_keeps:
  assumes "names_cover rc" and "call_ok rc l" and "add_step L u rc l = Ret (rc', l')"
  shows "names_cover rc' \<and> call_ok rc' l' \<and> members_le rc rc'"
proof -
  obtain m pc where l: "l = (m, pc)" by fastforce
  show ?thesis
  proof (cases pc)
    case AtInsert
    then have "rc' = fst (member_insert L rc m)" "fst l' = m"
      using assms(3) l by (auto split: prod.splits)
    then show ?thesis
      using names_cover_insert [OF assms(1), of L m] by (simp add: call_ok_def members_le_def member_insert_members)
  qed (use assms l in \<open>auto simp: call_ok_def members_le_def split: option.splits if_splits\<close>)
qed

interpretation adding: shared_service "add_step L" "\<lambda>l. snd l = AtName" names_cover call_ok members_le
  for L :: "('h, hval, 'z) hamtlib_scheme"
proof
  fix g g' g'' :: "'h RegCluster" and l l' and i
  show "names_cover g \<Longrightarrow> call_ok g l \<Longrightarrow> add_step L i g l = Ret (g', l') \<Longrightarrow>
      names_cover g' \<and> call_ok g' l' \<and> members_le g g'" by (rule add_step_keeps)
  show "snd l = AtName \<Longrightarrow> call_ok g l" by (simp add: call_ok_def)
  show "members_le g g' \<Longrightarrow> call_ok g l \<Longrightarrow> call_ok g' l" by (auto simp: call_ok_def members_le_def)
  show "members_le g g" by (simp add: members_le_def)
  show "members_le g g' \<Longrightarrow> members_le g' g'' \<Longrightarrow> members_le g g''" by (auto simp: members_le_def)
qed

text \<open>A schedule in which both calls pass their checks before either inserts.\<close>

lemma race_run:
  assumes "ci_GetName a = ci_GetName b" and "\<not> member_name_in_use rc a" and "member_id_check L rc = None"
    and "member_insert L rc a = (rc1, None)" and "member_insert L rc1 b = (rc2, None)"
  shows "interleaved (add_step L) (\<lambda>l. snd l = AtName) (rc, [(a, AtName), (b, AtName)]) (rc2, [(a, Finished None), (b, Finished None)])"
    (is "?run (rc2, _)")
proof -
  have b: "\<not> member_name_in_use rc b" using assms(1,2) by (simp add: member_name_in_use_def)
  note turn = interleaved.turn [where step = "add_step L" and i = "()"]
  have "?run (rc, [(a, AtName), (b, AtName)])" by (rule interleaved.start)
  then have "?run (rc, [(a, AtID), (b, AtName)])" using turn [where n = 0] assms(2) by fastforce
  then have "?run (rc, [(a, AtID), (b, AtID)])" using turn [where n = 1] b by fastforce
  then have "?run (rc, [(a, AtInsert), (b, AtID)])" using turn [where n = 0] assms(3) by fastforce
  then have "?run (rc, [(a, AtInsert), (b, AtInsert)])" using turn [where n = 1] assms(3) by fastforce
  then have "?run (rc1, [(a, Finished None), (b, AtInsert)])" using turn [where n = 0] assms(4) by fastforce
  then show "?run (rc2, [(a, Finished None), (b, Finished None)])" using turn [where n = 1] assms(5) by fastforce
qed

section \<open>Properties\<close>

text \<open>A call of \<open>AddMember\<close> that is not interrupted does, section by section, what \<open>AddMember\<close> does.\<close>

theorem add_member_sections:
  "obind (obind (add_step L () rc (m, AtName)) (\<lambda>(rc, l). add_step L () rc l)) (\<lambda>(rc, l). add_step L () rc l)
     = Ret (fst (AddMember L m rc), m, Finished (snd (AddMember L m rc)))"
  by (cases "member_name_in_use rc m"; cases "member_id_check L rc")
    (simp_all add: AddMember_def split: prod.split)

text \<open>C28. However calls of \<open>AddMember\<close> overlap, no member is lost, every call that succeeded has its member
  in the list, and the name index has an entry for every member and none for anybody else.\<close>

theorem concurrent_adds_keep_members:
  assumes "names_cover rc" and "interleaved (add_step L) (\<lambda>l. snd l = AtName) (rc, map (\<lambda>m. (m, AtName)) ms) (rc', calls)"
  shows "names_cover rc' \<and> (\<forall>m. (m, Finished None) \<in> set calls \<longrightarrow> m \<in> set (rc_Members rc'))
     \<and> (\<exists>new. rc_Members rc' = rc_Members rc @ new)"
  using adding.interleaved_safe [OF assms(2,1)] by (fastforce simp: call_ok_def members_le_def)

text \<open>C27. But two overlapping calls can both add a member of the same name: each passes its checks before
  the other inserts, both succeed, and the names of the members are no longer different.\<close>

theorem add_member_race:
  assumes "ci_GetName a = ci_GetName b" and "\<not> member_name_in_use rc a" and "member_id_check L rc = None"
    and "member_insert L rc a = (rc1, None)" and "member_insert L rc1 b = (rc2, None)"
  shows "interleaved (add_step L) (\<lambda>l. snd l = AtName) (rc, [(a, AtName), (b, AtName)]) (rc2, [(a, Finished None), (b, Finished None)])
     \<and> rc_Members rc2 = rc_Members rc @ [a, b] \<and> \<not> distinct (map ci_GetName (rc_Members rc2))"
  using race_run [OF assms] member_insert_members [of L rc a] member_insert_members [of L rc1 b] assms(1,4,5) by simp

definition ref_rivals :: "ClientInfo list" where
  "ref_rivals = [ref_client ''al'' 1, ref_client ''al'' 2]"

lemma ref_rivals_insert:
  "member_insert (reflib []) (ref_cluster 9 []) (ref_client ''al'' 1) =
     ((ref_cluster 9 [])\<lparr>rc_Members := [ref_client ''al'' 1], rc_MembersByName := [''al'' \<mapsto> ref_client ''al'' 1],
        rc_MembersByID := [(ref_id 1, HClient (ref_client ''al'' 1))]\<rparr>, None)"
  "member_insert (reflib []) ((ref_cluster 9 [])\<lparr>rc_Members := [ref_client ''al'' 1], rc_MembersByName := [''al'' \<mapsto> ref_client ''al'' 1],
        rc_MembersByID := [(ref_id 1, HClient (ref_client ''al'' 1))]\<rparr>) (ref_client ''al'' 2) =
     ((ref_cluster 9 [])\<lparr>rc_Members := ref_rivals, rc_MembersByName := [''al'' \<mapsto> ref_client ''al'' 2],
        rc_MembersByID := [(ref_id 2, HClient (ref_client ''al'' 2)), (ref_id 1, HClient (ref_client ''al'' 1))]\<rparr>, None)"
  by (simp_all add: member_insert_def ref_cluster_def ref_rivals_def)

lemma ref_rivals_checks:
  "\<not> member_name_in_use (ref_cluster 9 []) (ref_client ''al'' 1)"
  "member_id_check (reflib []) (ref_cluster 9 []) = None"
  by (simp_all add: member_name_in_use_def member_id_check_def ref_cluster_def)

theorem add_member_race_witness:
  "rc_Members (fst (member_insert (reflib []) (fst (member_insert (reflib []) (ref_cluster 9 []) (ref_client ''al'' 1)))
     (ref_client ''al'' 2))) = ref_rivals \<and> \<not> distinct (map ci_GetName ref_rivals)"
  using add_member_race [OF _ ref_rivals_checks ref_rivals_insert]
  by (simp add: ref_rivals_insert ref_rivals_def)

theorem concurrent_adds_keep_members_witness:
  "names_cover (fst (member_insert (reflib []) (fst (member_insert (reflib []) (ref_cluster 9 []) (ref_client ''al'' 1)))
     (ref_client ''al'' 2)))"
proof -
  have "names_cover (ref_cluster 9 [])" by (simp add: names_cover_def ref_cluster_def)
  note keep = concurrent_adds_keep_members [OF this, of "reflib []" ref_rivals]
  have "interleaved (add_step (reflib [])) (\<lambda>l. snd l = AtName)
      (ref_cluster 9 [], map (\<lambda>m. (m, AtName)) ref_rivals)
      (fst (member_insert (reflib []) (fst (member_insert (reflib []) (ref_cluster 9 []) (ref_client ''al'' 1))) (ref_client ''al'' 2)),
       [(ref_client ''al'' 1, Finished None), (ref_client ''al'' 2, Finished None)])"
    using race_run [OF _ ref_rivals_checks ref_rivals_insert] by (simp add: ref_rivals_insert) (simp add: ref_rivals_def)
  from keep [OF this] show ?thesis by simp
qed

end
