(* ===== verification/RegCred.thy ===== *)
theory RegCred
  imports RefLib
begin

text \<open>
  The registry's credentials (\<open>reg_cred.go\<close>): what a client needs to know to reach the registry
  and to talk to it, written to a file with CR LF line ends and read back by clients.
\<close>

section \<open>The structure and its text form\<close>

record RegCred =
  cr_Name :: string
  cr_ID :: nodeID
  cr_CommsPubKey :: "rsa_pub option"
  cr_SigPubKey :: "rsa_pub option"
  cr_EndPoints :: "EndPoint list"
  cr_Version :: u32

definition crlf :: string where
  "crlf = [CHR 0x0D, CHR 0x0A]"

text \<open>The errors of \<open>RSAPubKeyToDisk\<close> are dropped; the text it returned is used.\<close>

definition RegCred_String :: "('h, 'v, 'b, 'z) reglib_scheme \<Rightarrow> RegCred \<Rightarrow> string" where
  "RegCred_String L rc =
     (let ck = fst (RSAPubKeyToDisk L (cr_CommsPubKey rc));
          sk = fst (RSAPubKeyToDisk L (cr_SigPubKey rc));
          ss = [''regCred {'',
                ''    Name: '' @ cr_Name rc,
                ''    ID: '' @ NodeID_String L (cr_ID rc),
                ''    CommsPubKey: '' @ ck,
                ''    SigPubKey: '' @ sk,
                ''    EndPoints {'']
               @ map (\<lambda>e. ''         '' @ EndPoint_String L e) (cr_EndPoints rc)
               @ [''    }'',
                  ''    Version: '' @ DecimalVersion_String L (cr_Version rc),
                  ''}'']
      in Join crlf ss @ crlf)"

section \<open>The parser\<close>

text \<open>\<open>strings.TrimLeft(s, " \t")\<close>.\<close>

definition TrimLeft :: "string \<Rightarrow> string" where
  "TrimLeft s = dropWhile (\<lambda>c. c = CHR '' '' \<or> c = CHR 0x09) s"

text \<open>A line \<open>label: value\<close> with exactly one separator.\<close>

definition labelled :: "string \<Rightarrow> string \<Rightarrow> gerror + string" where
  "labelled label line =
     (let parts = Split line '': ''
      in if length parts = 2 \<and> parts ! 0 = label then Inr (parts ! 1) else Inl IllFormedRegCred)"

text \<open>One turn of the loop over the end points.\<close>

definition cred_endpoint ::
  "('h, 'v, 'b, 'z) reglib_scheme \<Rightarrow> string list \<Rightarrow> (gerror + (EndPoint \<times> string list)) outcome" where
  "cred_endpoint L ss =
     with_line L ss (\<lambda>line ss.
     let parts = Split (TrimSpace line) '': '' in
     if length parts \<noteq> 2 \<or> parts ! 0 \<noteq> ''TcpEndPoint'' then Ret (Inl IllFormedRegCred)
     else case ext (NewTcpEndPoint L (parts ! 1)) of
       Inl e \<Rightarrow> Ret (Inl e)
     | Inr ep \<Rightarrow> Ret (Inr (ep, ss)))"

definition add_endpoint :: "EndPoint \<Rightarrow> EndPoint list \<Rightarrow> EndPoint list \<times> gerror option" where
  "add_endpoint ep e = (e @ [ep], None)"

definition ParseRegCred :: "('h, 'v, 'b, 'z) reglib_scheme \<Rightarrow> string \<Rightarrow> (gerror + RegCred) outcome" where
  "ParseRegCred L s =
     with_line L (Split s newline) (\<lambda>line ss.
     if line \<noteq> ''regCred {'' then Ret (Inl IllFormedRegCred)
     else with_line L ss (\<lambda>line ss.
     case labelled ''Name'' line of
       Inl e \<Rightarrow> Ret (Inl e)
     | Inr v \<Rightarrow>
     (let name = TrimLeft v in
     with_line L ss (\<lambda>line ss.
     case labelled ''ID'' line of
       Inl e \<Rightarrow> Ret (Inl e)
     | Inr v \<Rightarrow>
     (case DecodeString v of
       Inl e \<Rightarrow> Ret (Inl e)
     | Inr b \<Rightarrow>
     (case ext (xi_New L b) of
       Inl e \<Rightarrow> Ret (Inl e)
     | Inr nodeID \<Rightarrow>
     with_line L ss (\<lambda>line ss.
     case labelled ''CommsPubKey'' line of
       Inl e \<Rightarrow> Ret (Inl e)
     | Inr v \<Rightarrow>
     (case ext (RSAPubKeyFromDisk L v) of
       Inl e \<Rightarrow> Ret (Inl e)
     | Inr ck \<Rightarrow>
     with_line L ss (\<lambda>line ss.
     case labelled ''SigPubKey'' line of
       Inl e \<Rightarrow> Ret (Inl e)
     | Inr v \<Rightarrow>
     (case ext (RSAPubKeyFromDisk L v) of
       Inl e \<Rightarrow> Ret (Inl e)
     | Inr sk \<Rightarrow>
     with_line L ss (\<lambda>line ss.
     if line \<noteq> ''EndPoints {'' then Ret (Inl MissingEndPointsSection)
     else obind (of_loop (items_loop (cred_endpoint L) add_endpoint [] ss)) (\<lambda>(e, ss, err).
     case err of
       Some er \<Rightarrow> Ret (Inl er)
     | None \<Rightarrow>
     with_line L ss (\<lambda>line ss.
     if line \<noteq> ''}'' then Ret (Inl MissingClosingBrace)
     else with_line L ss (\<lambda>line ss.
     case labelled ''Version'' line of
       Inl er \<Rightarrow> Ret (Inl er)
     | Inr v \<Rightarrow>
     (case ext (ParseDecimalVersion L v) of
       Inl er \<Rightarrow> Ret (Inl er)
     | Inr version \<Rightarrow>
       Ret (Inr \<lparr>cr_Name = name, cr_ID = nodeID, cr_CommsPubKey = Some ck, cr_SigPubKey = Some sk,
                 cr_EndPoints = e, cr_Version = version\<rparr>))))))))))))))))"

section \<open>Reading back\<close>

lemma split_from_label:
  "CHR '':'' \<notin> set a \<Longrightarrow> split_from '': '' acc (a @ '': '' @ v) = (acc @ a) # split_from '': '' [] v"
  by (induction a arbitrary: acc) (auto simp: HasPrefix_def)

lemma Split_label: "CHR '':'' \<notin> set a \<Longrightarrow> Split (a @ '': '' @ v) '': '' = a # Split v '': ''"
  by (simp add: Split_def split_from_label [where acc = "[]", simplified])

lemma split_from_no_colon: "CHR '':'' \<notin> set s \<Longrightarrow> split_from '': '' acc s = [acc @ s]"
  by (induction s arbitrary: acc) (auto simp: HasPrefix_def)

lemma digit_not_colon: "d < 16 \<Longrightarrow> digit_char d \<noteq> CHR '':''"
  by (auto simp: digit_char_def dest!: arg_cong [of _ _ "of_char :: char \<Rightarrow> nat"])

lemma field_value_digits:
  assumes "s \<noteq> []" and "\<And>c. c \<in> set s \<Longrightarrow> \<exists>d < 16. c = digit_char d"
  shows "field_value s"
proof -
  have "CHR '':'' \<notin> set s" "CHR 0x0A \<notin> set s" "\<forall>c \<in> set s. \<not> is_space c"
    using assms(2) digit_not_colon digit_char_no_newline digit_char_no_space by metis+
  with assms(1) show ?thesis
    by (simp add: field_value_def solid_def Split_def split_from_no_colon)
qed

lemma hex_no_newline: "CHR 0x0A \<notin> set (EncodeToString bs)"
proof
  assume "CHR 0x0A \<in> set (EncodeToString bs)"
  then obtain d where "d < 16" "CHR 0x0A = digit_char d" using EncodeToString_chars by blast
  with digit_char_no_newline [of d] show False by simp
qed

lemma field_value_hex: "bs \<noteq> [] \<Longrightarrow> field_value (EncodeToString bs)"
  by (rule field_value_digits) (auto simp: neq_Nil_conv dest: EncodeToString_chars)

lemma field_value_dec: "field_value (fmt_d n)"
proof (rule field_value_digits)
  show "\<exists>d < 16. c = digit_char d" if "c \<in> set (fmt_d n)" for c
    using fmt_d_chars [OF that] by (elim exE) (rule exI, auto)
qed simp

lemma labelled_field: "CHR '':'' \<notin> set a \<Longrightarrow> field_value v \<Longrightarrow> labelled a (a @ '': '' @ v) = Inr v"
  by (simp add: labelled_def Split_label field_value_def del: append_Cons)

lemma TrimLeft_solid: "solid s \<Longrightarrow> TrimLeft s = s"
  by (cases s) (auto simp: TrimLeft_def solid_def is_space_def)

lemma solid_labelled:
  "a \<noteq> [] \<Longrightarrow> \<not> is_space (hd a) \<Longrightarrow> field_value v \<Longrightarrow> solid (a @ '': '' @ v)"
  by (auto simp: field_value_def solid_def)

lemma split_nl_crlf:
  "ss \<noteq> [] \<Longrightarrow> split_nl (Join crlf ss @ crlf) = concat (map (\<lambda>s. split_nl (s @ cr)) ss) @ [[]]"
proof (induction crlf ss rule: Join.induct)
  case (2 x)
  have "split_nl ((x @ cr) @ newline @ []) = split_nl (x @ cr) @ [[]]"
    unfolding Split_def split_from_nl_append by simp
  then show ?case by (simp add: crlf_def cr_def newline_def)
next
  case (3 x y xs)
  have "split_nl ((x @ cr) @ newline @ Join crlf (y # xs) @ crlf) =
      split_nl (x @ cr) @ split_nl (Join crlf (y # xs) @ crlf)"
    unfolding Split_def split_from_nl_append by simp
  moreover have "Join crlf (x # y # xs) @ crlf = (x @ cr) @ newline @ Join crlf (y # xs) @ crlf"
    by (simp add: crlf_def cr_def newline_def)
  ultimately show ?case using 3 by (simp only:) simp
qed simp

lemma split_line_cr: "CHR 0x0A \<notin> set s \<Longrightarrow> split_nl (s @ cr) = [s @ cr]"
  by (rule split_nl_line) (simp add: cr_def)

lemma split_key_cr: "CHR 0x0A \<notin> set s \<Longrightarrow> split_nl (s @ newline @ cr) = [s, cr]"
  unfolding Split_def split_from_nl_append by (simp add: split_from_nl_line cr_def)

text \<open>The end points are a list of one-line values.\<close>

definition wf_endpoint :: "('h, 'v, 'b, 'z) reglib_scheme \<Rightarrow> EndPoint \<Rightarrow> bool" where
  "wf_endpoint L ep \<longleftrightarrow> lines_ok L \<and> creds_ok L \<and> (\<exists>a. NewTcpEndPoint L a = Inr ep)"

lemma wf_endpoint_text:
  assumes "wf_endpoint L ep"
  obtains b where "EndPoint_String L ep = ''TcpEndPoint'' @ '': '' @ b" "NewTcpEndPoint L b = Inr ep"
    "field_value b" "solid (''TcpEndPoint'' @ '': '' @ b)" "CHR 0x0A \<notin> set (EndPoint_String L ep)"
proof -
  obtain b where b: "EndPoint_String L ep = ''TcpEndPoint: '' @ b" "NewTcpEndPoint L b = Inr ep"
      "field_value b"
    using assms creds_okD(2) unfolding wf_endpoint_def by blast
  have "solid (''TcpEndPoint'' @ '': '' @ b)"
    by (rule solid_labelled [OF _ _ b(3)]) (simp_all add: is_space_def)
  with b show ?thesis by (intro that [of b]) (simp_all add: field_value_def)
qed

interpretation endpoint: line_codec "\<lambda>p ep. [p @ EndPoint_String L ep @ cr]" "cred_endpoint L"
    "wf_endpoint L"
  for L :: "('h, 'v, 'b, 'z) reglib_scheme"
proof
  fix ep p rest
  assume wf: "wf_endpoint L ep" and p: "indent p"
  obtain b where b: "EndPoint_String L ep = ''TcpEndPoint'' @ '': '' @ b" "NewTcpEndPoint L b = Inr ep"
      "field_value b" "solid (''TcpEndPoint'' @ '': '' @ b)"
    using wf by (rule wf_endpoint_text)
  have X: "lines_ok L" using wf by (simp add: wf_endpoint_def)
  have sp: "Split (''TcpEndPoint'' @ '': '' @ b) '': '' = [''TcpEndPoint'', b]"
    using b(3) by (subst Split_label) (simp_all add: field_value_def)
  show "cred_endpoint L ([p @ EndPoint_String L ep @ cr] @ rest) = Ret (Inr (ep, rest))"
    unfolding cred_endpoint_def with_line_def b(1) append_Cons [where 'a = string] append_Nil
      NextNBLine_cr [OF X p b(4)] prod.case sum.case TrimSpace_solid [OF b(4)] sp Let_def
    by (simp add: b(2))
  have "TrimSpace (p @ EndPoint_String L ep @ cr) = ''TcpEndPoint'' @ '': '' @ b"
    unfolding b(1) by (rule TrimSpace_cr [OF p b(4)])
  then show "\<exists>l ls. [p @ EndPoint_String L ep @ cr] = l # ls \<and> TrimSpace l \<noteq> ''}''" by simp
qed

lemma adds_endpoints: "adds add_endpoint es e = Some (e @ es)"
  by (induction es arbitrary: e) (simp_all add: add_endpoint_def)

text \<open>Credentials whose text form reads back.\<close>

definition wf_cred :: "('h, 'v, 'b, 'z) reglib_scheme \<Rightarrow> RegCred \<Rightarrow> bool" where
  "wf_cred L rc \<longleftrightarrow> lines_ok L \<and> nodeids_ok L \<and> creds_ok L
     \<and> field_value (cr_Name rc) \<and> valid_id (Value (cr_ID rc))
     \<and> cr_CommsPubKey rc \<noteq> None \<and> snd (RSAPubKeyToDisk L (cr_CommsPubKey rc)) = None
     \<and> cr_SigPubKey rc \<noteq> None \<and> snd (RSAPubKeyToDisk L (cr_SigPubKey rc)) = None
     \<and> (\<forall>ep \<in> set (cr_EndPoints rc). wf_endpoint L ep)"

text \<open>The line of a key in the text form. The line feed ends it, so that the CR LF after it is a blank line.\<close>

abbreviation key_line :: "('h, 'v, 'b, 'z) reglib_scheme \<Rightarrow> rsa_pub option \<Rightarrow> string" where
  "key_line L k \<equiv> butlast (fst (RSAPubKeyToDisk L k))"

lemma key_line:
  assumes "creds_ok L" and "snd (RSAPubKeyToDisk L (Some k)) = None"
  shows "fst (RSAPubKeyToDisk L (Some k)) = key_line L (Some k) @ newline" "RSAPubKeyFromDisk L (key_line L (Some k)) = Inr k"
    "field_value (key_line L (Some k))"
proof -
  obtain t where "fst (RSAPubKeyToDisk L (Some k)) = t @ newline" "RSAPubKeyFromDisk L t = Inr k" "field_value t"
    using creds_okD(1) [OF assms(1), of k "fst (RSAPubKeyToDisk L (Some k))"] assms(2) by (auto simp: prod_eq_iff)
  then show "fst (RSAPubKeyToDisk L (Some k)) = key_line L (Some k) @ newline" "RSAPubKeyFromDisk L (key_line L (Some k)) = Inr k"
    "field_value (key_line L (Some k))" by (simp_all add: newline_def)
qed

lemma split_RegCred_String:
  assumes "wf_cred L rc"
  shows "split_nl (RegCred_String L rc) =
     ([] @ ''regCred {'' @ cr)
     # (''    '' @ (''Name'' @ '': '' @ cr_Name rc) @ cr)
     # (''    '' @ (''ID'' @ '': '' @ EncodeToString (Value (cr_ID rc))) @ cr)
     # (''    '' @ (''CommsPubKey'' @ '': '' @ key_line L (cr_CommsPubKey rc))) # cr
     # (''    '' @ (''SigPubKey'' @ '': '' @ key_line L (cr_SigPubKey rc))) # cr
     # (''    '' @ ''EndPoints {'' @ cr)
     # concat (map (\<lambda>ep. [''         '' @ EndPoint_String L ep @ cr]) (cr_EndPoints rc))
     @ (''    '' @ ''}'' @ cr)
     # (''    '' @ (''Version'' @ '': '' @ DecimalVersion_String L (cr_Version rc)) @ cr)
     # [''}'' @ cr, []]"
proof -
  have C: "creds_ok L" using assms by (simp add: wf_cred_def)
  have key: "split_nl ((''    '' @ a @ '': '' @ fst (RSAPubKeyToDisk L k)) @ cr) = [''    '' @ a @ '': '' @ key_line L k, cr]"
    if "k \<noteq> None" "snd (RSAPubKeyToDisk L k) = None" "CHR 0x0A \<notin> set a" for k a
  proof -
    from that(1) obtain p where k: "k = Some p" by blast
    note p = key_line(1,3) [OF C that(2) [unfolded k], folded k]
    obtain t where t: "fst (RSAPubKeyToDisk L k) = t @ newline" "field_value (key_line L k)"
      using p by blast
    then have "key_line L k = t" by (simp add: newline_def)
    with t that(3) split_key_cr [of "''    '' @ a @ '': '' @ t"] show ?thesis by (simp add: field_value_def)
  qed
  have ep: "split_nl ((''         '' @ EndPoint_String L e) @ cr) = [''         '' @ EndPoint_String L e @ cr]" if "e \<in> set (cr_EndPoints rc)" for e
  proof -
    have "CHR 0x0A \<notin> set (EndPoint_String L e)" using that assms wf_endpoint_text [of L e] by (metis wf_cred_def)
    with split_line_cr [of "''         '' @ EndPoint_String L e"] show ?thesis by simp
  qed
  have ln: "CHR 0x0A \<notin> set (cr_Name rc)" "CHR 0x0A \<notin> set (EncodeToString b)" "CHR 0x0A \<notin> set (DecimalVersion_String L v)" for b v
    using assms creds_okD(5) [OF C] by (simp_all add: wf_cred_def field_value_def hex_no_newline)
  have k2: "cr_CommsPubKey rc \<noteq> None" "snd (RSAPubKeyToDisk L (cr_CommsPubKey rc)) = None"
      "cr_SigPubKey rc \<noteq> None" "snd (RSAPubKeyToDisk L (cr_SigPubKey rc)) = None"
    using assms by (simp_all add: wf_cred_def)
  have eps: "concat (map (\<lambda>s. split_nl (s @ cr)) (map (\<lambda>e. ''         '' @ EndPoint_String L e) (cr_EndPoints rc))) =
      concat (map (\<lambda>ep. [''         '' @ EndPoint_String L ep @ cr]) (cr_EndPoints rc))"
    unfolding map_map comp_def by (rule arg_cong [of _ _ concat], rule map_cong [OF refl]) (rule ep)
  have keys: "split_nl ((''    CommsPubKey: '' @ fst (RSAPubKeyToDisk L (cr_CommsPubKey rc))) @ cr) = [''    CommsPubKey: '' @ key_line L (cr_CommsPubKey rc), cr]"
      "split_nl ((''    SigPubKey: '' @ fst (RSAPubKeyToDisk L (cr_SigPubKey rc))) @ cr) = [''    SigPubKey: '' @ key_line L (cr_SigPubKey rc), cr]"
    using key [OF k2(1,2), of "''CommsPubKey''"] key [OF k2(3,4), of "''SigPubKey''"] by simp_all
  have rest: "split_nl (s @ cr) = [s @ cr]" if "s \<in> {''regCred {'', ''    Name: '' @ cr_Name rc, ''    ID: '' @ NodeID_String L (cr_ID rc), ''    EndPoints {'',
      ''    }'', ''    Version: '' @ DecimalVersion_String L (cr_Version rc), ''}''}" for s
    using that ln by (intro split_line_cr) (auto simp: creds_okD(3) [OF C])
  show ?thesis
    unfolding RegCred_String_def Let_def
    by (subst split_nl_crlf) (simp, simp only: map_append concat_append list.map concat.simps keys eps rest insert_iff simp_thms,
      simp add: creds_okD(3) [OF C])
qed

lemma ParseRegCred_String:
  assumes "wf_cred L rc"
  shows "ParseRegCred L (RegCred_String L rc) = Ret (Inr rc)"
proof -
  have X: "lines_ok L" and N: "nodeids_ok L" and C: "creds_ok L" and nm: "field_value (cr_Name rc)"
    and i: "valid_id (Value (cr_ID rc))" and es: "\<forall>ep \<in> set (cr_EndPoints rc). wf_endpoint L ep"
    using assms by (simp_all add: wf_cred_def)
  obtain ck sk where ks: "cr_CommsPubKey rc = Some ck" "cr_SigPubKey rc = Some sk"
      "snd (RSAPubKeyToDisk L (Some ck)) = None" "snd (RSAPubKeyToDisk L (Some sk)) = None"
    using assms by (auto simp: wf_cred_def)
  note disk = key_line(2,3) [OF C ks(3)] key_line(2,3) [OF C ks(4)]
  have hex: "field_value (EncodeToString (Value (cr_ID rc)))"
    using i by (auto simp: valid_id_def intro: field_value_hex)
  have q: "indent []" "indent ''    ''" "indent ''         ''" by (simp_all add: indent_def)
  have wl: "with_line L ((p @ s @ cr) # ls) k = k s ls" if "indent p" "solid s"
    for p s ls and k :: "string \<Rightarrow> string list \<Rightarrow> (gerror + RegCred) outcome"
    using that by (simp add: with_line_def NextNBLine_cr [OF X])
  have wk: "with_line L ((p @ s) # cr # ls) k = k s (cr # ls)" "with_line L (cr # ls) k = with_line L ls k" if "indent p" "solid s"
    for p s ls and k :: "string \<Rightarrow> string list \<Rightarrow> (gerror + RegCred) outcome"
    using that lines_okD(2) [OF X, of cr] by (simp_all add: with_line_def NextNBLine_solid [OF X] cr_def TrimSpace_def is_space_def)
  have so: "solid ''regCred {''" "solid ''EndPoints {''" "solid ''}''"
      "solid (''Name'' @ '': '' @ v)" "solid (''ID'' @ '': '' @ v)" "solid (''CommsPubKey'' @ '': '' @ v)"
      "solid (''SigPubKey'' @ '': '' @ v)" "solid (''Version'' @ '': '' @ v)" if "field_value v" for v
    using solid_labelled [OF _ _ that, of "''Name''"] solid_labelled [OF _ _ that, of "''ID''"]
      solid_labelled [OF _ _ that, of "''CommsPubKey''"] solid_labelled [OF _ _ that, of "''SigPubKey''"]
      solid_labelled [OF _ _ that, of "''Version''"]
    by (simp_all add: is_space_def) (simp_all add: solid_def is_space_def)
  have lb: "labelled ''Name'' (''Name'' @ '': '' @ v) = Inr v" "labelled ''ID'' (''ID'' @ '': '' @ v) = Inr v"
      "labelled ''CommsPubKey'' (''CommsPubKey'' @ '': '' @ v) = Inr v"
      "labelled ''SigPubKey'' (''SigPubKey'' @ '': '' @ v) = Inr v"
      "labelled ''Version'' (''Version'' @ '': '' @ v) = Inr v" if "field_value v" for v
    using that by (rule labelled_field [rotated]; simp)+
  have loop: "items_loop (cred_endpoint L) add_endpoint []
      (concat (map (\<lambda>ep. [''         '' @ EndPoint_String L ep @ cr]) (cr_EndPoints rc)) @ (''    '' @ ''}'' @ cr) # r)
      = Some (Ret (cr_EndPoints rc, (''    '' @ ''}'' @ cr) # r, None))" for r
    using q(3) TrimSpace_cr [OF q(2) solid_brace] es adds_endpoints [of "cr_EndPoints rc" "[]", simplified]
    by (rule endpoint.items_loop_reads_back)
  have nv: "xi_New L (Value (cr_ID rc)) = Inr (cr_ID rc)"
    using nodeids_okD(1) [OF N i] by simp
  have tl: "TrimLeft (cr_Name rc) = cr_Name rc" using nm by (simp add: TrimLeft_solid field_value_def)
  show ?thesis
    unfolding ParseRegCred_def split_RegCred_String [OF assms]
    by (simp only: wl wk(1) wk(2) [OF q(1) so(3) [OF nm]] q so [OF nm] so [OF hex] lb [OF nm] lb [OF hex] ks so [OF disk(2)]
        so [OF disk(4)] lb [OF disk(2)] lb [OF disk(4)] disk(1,3) tl nv DecodeString_EncodeToString ext_simps sum.case
        Let_def loop of_loop_simps obind.simps prod.case option.case
        so [OF creds_okD(5) [OF C]] lb [OF creds_okD(5) [OF C]] creds_okD(4) [OF C] simp_thms if_True if_False)
      (simp add: ks [symmetric])
qed

lemma reflib_creds [simp]: "creds_ok (reflib ms)"
proof -
  have "Atoi (fmt_d (unat v)) = Inr (int (unat v))" for v :: u32
    using unsigned_less [of v, where ?'a = nat] by (intro Atoi_fmt_d) simp
  then show ?thesis
    by (auto simp: creds_ok_def field_value_dec Atoi_fmt_d split: option.splits if_splits)
qed

section \<open>Properties\<close>

text \<open>C34. The credentials a registry writes to its file are the ones a client reads: \<open>ParseRegCred\<close>
  reads back what \<open>String\<close> printed, through the CR LF line ends, with the end points in order.
  A key on file ends in a line feed, so that a blank line follows it, which the reader skips. This holds
  when the name can be a field and both keys can be written.\<close>

theorem cred_roundtrip:
  assumes "wf_cred L rc"
  shows "ParseRegCred L (RegCred_String L rc) = Ret (Inr rc)"
  using assms by (rule ParseRegCred_String)

definition ref_cred :: RegCred where
  "ref_cred = \<lparr>cr_Name = ''xlReg'', cr_ID = NodeID (ref_id 3), cr_CommsPubKey = Some ref_pub,
     cr_SigPubKey = Some ref_pub, cr_EndPoints = [EndPoint ''127.0.0.1:44''], cr_Version = 1\<rparr>"

theorem cred_roundtrip_witness:
  "ParseRegCred (reflib [] :: reftype) (RegCred_String (reflib [] :: reftype) ref_cred) = Ret (Inr ref_cred)"
proof (rule cred_roundtrip)
  have f: "field_value ''xlReg''" "field_value ''127.0.0.1:44''"
    by (simp_all add: field_value_def solid_def is_space_def Split_def HasPrefix_def)
  then have "wf_endpoint (reflib [] :: reftype) (EndPoint ''127.0.0.1:44'')"
    by (auto simp: wf_endpoint_def intro!: exI [of _ "''127.0.0.1:44''"])
  with f(1) show "wf_cred (reflib [] :: reftype) ref_cred"
    by (simp add: wf_cred_def ref_cred_def ref_pub_def)
qed

end
