(* ===== verification/Registry.thy ===== *)
theory Registry
  imports RegCluster RegCred
begin

text \<open>
  The registry (\<open>registry.go\<close>): the Bloom filter of the IDs in use, the clusters and their indexes
  by name and by ID, and the random IDs it hands out.

  Clusters are reached through pointers, from the registry's list, its two indexes and the
  sessions. The pointers are positions (\<open>cref\<close>) in the list \<open>reg_heap\<close> of the clusters made so far.
  \<open>reg_draws\<close> numbers the calls of \<open>xi.New(nil)\<close>.
\<close>

section \<open>The structure\<close>

text \<open>The part of \<open>RegNode\<close> the registry uses: the node's identity, its directory and its keys.\<close>

record RegNode =
  rn_BaseNode :: BaseNode
  rn_LFS :: string
  rn_ckPriv :: rsa_priv
  rn_skPriv :: rsa_priv

text \<open>Of the logger it only matters whether there is one.\<close>

record RegOptions =
  opt_Address :: string
  opt_BackingFile :: string
  opt_ClearFilter :: bool
  opt_EndPoint :: "EndPoint option"
  opt_Ephemeral :: bool
  opt_GlobalEndPoint :: "EndPoint option"
  opt_K :: nat
  opt_Lfs :: string
  opt_Logger :: bool
  opt_M :: nat
  opt_Name :: string
  opt_Port :: string
  opt_Testing :: bool
  opt_T :: nat
  opt_Verbose :: bool

record ('h, 'b) Registry =
  reg_LogFile :: string
  reg_Clusters :: "cref list"
  reg_GlobalEndPoint :: "EndPoint option"
  reg_idFilter :: 'b
  reg_ClustersByName :: "cref gomap"
  reg_ClustersByID :: 'h
  reg_RegNode :: RegNode
  reg_heap :: "'h RegCluster list"
  reg_draws :: nat

definition get_cluster :: "('h, 'b) Registry \<Rightarrow> cref \<Rightarrow> 'h RegCluster" where
  "get_cluster reg c = reg_heap reg ! c"

text \<open>An assignment through a cluster pointer, and a new cluster.\<close>

definition put_cluster :: "cref \<Rightarrow> 'h RegCluster \<Rightarrow> ('h, 'b) Registry \<Rightarrow> ('h, 'b) Registry" where
  "put_cluster c rc reg = reg\<lparr>reg_heap := (reg_heap reg)[c := rc]\<rparr>"

definition new_cluster :: "'h RegCluster \<Rightarrow> ('h, 'b) Registry \<Rightarrow> cref \<times> ('h, 'b) Registry" where
  "new_cluster rc reg = (length (reg_heap reg), reg\<lparr>reg_heap := reg_heap reg @ [rc]\<rparr>)"

section \<open>IDs\<close>

definition ContainsID :: "('h, hval, 'b, 'z) reglib_scheme \<Rightarrow> nodeID \<Rightarrow> ('h, 'b) Registry \<Rightarrow> gerror + bool" where
  "ContainsID L n reg = ext (bf_IsMember L (reg_idFilter reg) (Value n))"

definition InsertID ::
  "('h, hval, 'b, 'z) reglib_scheme \<Rightarrow> nodeID \<Rightarrow> ('h, 'b) Registry \<Rightarrow> ('h, 'b) Registry \<times> gerror option" where
  "InsertID L n reg =
     (case bf_IsMember L (reg_idFilter reg) (Value n) of
        Inl e \<Rightarrow> (reg, Some (Ext e))
      | Inr found \<Rightarrow>
          if found then (reg, Some IDAlreadyInUse)
          else (case bf_Insert L (reg_idFilter reg) (Value n) of
                  Inl e \<Rightarrow> (reg, Some (Ext e))
                | Inr f \<Rightarrow> (reg\<lparr>reg_idFilter := f\<rparr>, None)))"

definition IDCount :: "('h, hval, 'b, 'z) reglib_scheme \<Rightarrow> ('h, 'b) Registry \<Rightarrow> nat" where
  "IDCount L reg = bf_Size L (reg_idFilter reg)"

text \<open>
  The loop of \<open>InsertUniqueNodeID\<close>. The error of \<open>xi.New\<close> is overwritten by that of \<open>ContainsID\<close>,
  which reads the value of what is then a nil NodeID.
\<close>

partial_function (option) unique_loop ::
  "('h, hval, 'b, 'z) reglib_scheme \<Rightarrow> ('h, 'b) Registry \<Rightarrow> nat \<Rightarrow>
   (nodeID \<times> nat \<times> gerror option) outcome option" where
  "unique_loop L reg draw =
     (case xi_Random L draw of
        Inl e \<Rightarrow> Some (Panic NilDereference)
      | Inr nodeID \<Rightarrow>
          (case ContainsID L nodeID reg of
             Inl e \<Rightarrow> Some (Ret (nodeID, Suc draw, Some e))
           | Inr found \<Rightarrow>
               if found then unique_loop L reg (Suc draw)
               else Some (Ret (nodeID, Suc draw, None))))"

definition InsertUniqueNodeID ::
  "('h, hval, 'b, 'z) reglib_scheme \<Rightarrow> ('h, 'b) Registry \<Rightarrow>
   (('h, 'b) Registry \<times> nodeID \<times> gerror option) outcome" where
  "InsertUniqueNodeID L reg =
     obind (of_loop (unique_loop L reg (reg_draws reg))) (\<lambda>(nodeID, draws, err).
       let reg = reg\<lparr>reg_draws := draws\<rparr>
       in case err of
            Some e \<Rightarrow> Ret (reg, nodeID, Some e)
          | None \<Rightarrow>
              (case bf_Insert L (reg_idFilter reg) (Value nodeID) of
                 Inl e \<Rightarrow> Ret (reg, nodeID, Some (Ext e))
               | Inr f \<Rightarrow> Ret (reg\<lparr>reg_idFilter := f\<rparr>, nodeID, None)))"

section \<open>Clusters\<close>

text \<open>The stub \<open>indexClusterMember\<close> checks that its arguments are not nil.\<close>

definition indexClusterMember :: "cref option \<Rightarrow> 'm option \<Rightarrow> int \<times> gerror option" where
  "indexClusterMember cluster cm =
     (if cluster = None then (0, Some NilCluster)
      else if cm = None then (0, Some NilClusterMember)
      else (0, None))"

text \<open>
  \<open>RegCluster.GetNodeID\<close> drops the error of \<open>xi.New\<close>; the pointer is then nil.
\<close>

definition rc_GetNodeID :: "('h, hval, 'z) hamtlib_scheme \<Rightarrow> nat \<Rightarrow> 'h RegCluster \<Rightarrow> nodeID option" where
  "rc_GetNodeID L draw rc = (case xi_New_or_random L draw (rc_ID rc) of Inl e \<Rightarrow> None | Inr n \<Rightarrow> Some n)"

text \<open>
  \<open>AddCluster\<close> after the two checks: the list and the name index are updated before the key for
  the ID index is made, so a failure there leaves the cluster half entered.
\<close>

definition cluster_insert ::
  "('h, hval, 'b, 'z) reglib_scheme \<Rightarrow> cref \<Rightarrow> ('h, 'b) Registry \<Rightarrow>
   (('h, 'b) Registry \<times> int \<times> gerror option) outcome" where
  "cluster_insert L c reg =
     (let rc = get_cluster reg c;
          index = int (length (reg_Clusters reg));
          draw = reg_draws reg;
          reg = reg\<lparr>reg_Clusters := reg_Clusters reg @ [c],
                    reg_ClustersByName := (reg_ClustersByName reg)(rc_Name rc \<mapsto> c),
                    reg_draws := (if rc_ID rc = None then Suc draw else draw)\<rparr>
      in case rc_GetNodeID L draw rc of
           None \<Rightarrow> Panic NilDereference
         | Some n \<Rightarrow>
             (case NewBytesKey L (Value n) of
                (cKey, Some e) \<Rightarrow> Ret (reg, -1, Some (Ext e))
              | (cKey, None) \<Rightarrow>
                  (case ha_Insert L (reg_ClustersByID reg) cKey (HCluster c) of
                     (h, Some e) \<Rightarrow> Ret (reg\<lparr>reg_ClustersByID := h\<rparr>, -1, Some (Ext e))
                   | (h, None) \<Rightarrow> Ret (reg\<lparr>reg_ClustersByID := h\<rparr>, index, None))))"

definition AddCluster ::
  "('h, hval, 'b, 'z) reglib_scheme \<Rightarrow> cref option \<Rightarrow> ('h, 'b) Registry \<Rightarrow>
   (('h, 'b) Registry \<times> int \<times> gerror option) outcome" where
  "AddCluster L cluster reg =
     (case cluster of
        None \<Rightarrow> Ret (reg, -1, Some NilCluster)
      | Some c \<Rightarrow>
          (case NewBytesKey L (slice_of (rc_ID (get_cluster reg c))) of
             (bKey, Some e) \<Rightarrow> Ret (reg, -1, Some (Ext e))
           | (bKey, None) \<Rightarrow>
               if reg_ClustersByName reg (rc_Name (get_cluster reg c)) \<noteq> None
               then Ret (reg, -1, Some NameAlreadyInUse)
               else (case ha_Find L (reg_ClustersByID reg) bKey of
                       (whatever, Some e) \<Rightarrow> Ret (reg, -1, Some (Ext e))
                     | (Some w, None) \<Rightarrow> Ret (reg, -1, Some IDAlreadyInUse)
                     | (None, None) \<Rightarrow> cluster_insert L c reg)))"

section \<open>Construction\<close>

definition VERSION :: string where "VERSION = ''1.9.24''"

text \<open>
  \<open>NewRegistry\<close> gets the clusters that exist already but does not enter them in the indexes. It
  returns the registry, the error, and the file it wrote (directory, name and text). The registry is
  returned together with an error when writing the file or entering its own ID failed.
\<close>

definition insert_own_id ::
  "('h, hval, 'b, 'z) reglib_scheme \<Rightarrow> RegNode \<Rightarrow> ('h, 'b) Registry \<Rightarrow> (string \<times> string \<times> string) option \<Rightarrow>
   ('h, 'b) Registry option \<times> gerror option \<times> (string \<times> string \<times> string) option" where
  "insert_own_id L rn reg file =
     (case InsertID L (bn_id (rn_BaseNode rn)) reg of (reg, err) \<Rightarrow> (Some reg, err, file))"

definition registry_cred :: "RegNode \<Rightarrow> EndPoint \<Rightarrow> u32 \<Rightarrow> RegCred" where
  "registry_cred rn ep version =
     \<lparr>cr_Name = bn_name (rn_BaseNode rn), cr_ID = bn_id (rn_BaseNode rn),
      cr_CommsPubKey = bn_ck (rn_BaseNode rn), cr_SigPubKey = bn_sk (rn_BaseNode rn),
      cr_EndPoints = [ep], cr_Version = version\<rparr>"

definition NewRegistry ::
  "('h, hval, 'b, 'z) reglib_scheme \<Rightarrow> 'h RegCluster list \<Rightarrow> nat \<Rightarrow> cref list \<Rightarrow> RegNode option \<Rightarrow>
   RegOptions \<Rightarrow>
   (('h, 'b) Registry option \<times> gerror option \<times> (string \<times> string \<times> string) option) outcome" where
  "NewRegistry L heap draws clusters rn opt =
     (case ext (ParseDecimalVersion L VERSION) of
        Inl e \<Rightarrow> Ret (None, Some e, None)
      | Inr serverVersion \<Rightarrow>
     (case rn of
        None \<Rightarrow> Ret (None, Some NilRegNode, None)
      | Some rn \<Rightarrow>
     (case ext (if opt_BackingFile opt = [] then NewBloomSHA L (opt_M opt) (opt_K opt)
                else NewMappedBloomSHA L (opt_M opt) (opt_K opt) (opt_BackingFile opt)) of
        Inl e \<Rightarrow> Ret (None, Some e, None)
      | Inr idFilter \<Rightarrow>
     (case ext (NewHAMT L (ha_MAX_W L) (opt_T opt)) of
        Inl e \<Rightarrow> Ret (None, Some e, None)
      | Inr m \<Rightarrow>
     (let reg = \<lparr>reg_LogFile = [], reg_Clusters = clusters, reg_GlobalEndPoint = opt_GlobalEndPoint opt,
                 reg_idFilter = idFilter, reg_ClustersByName = Map.empty, reg_ClustersByID = m,
                 reg_RegNode = rn, reg_heap = heap, reg_draws = draws\<rparr>
      in if rn_LFS rn = [] then Ret (insert_own_id L rn reg None)
         else (case opt_GlobalEndPoint opt of
                 None \<Rightarrow> Panic NilDereference
               | Some ep \<Rightarrow>
                   (let serialized = RegCred_String L (registry_cred rn ep serverVersion)
                    in case WriteFile L (rn_LFS rn) ''regCred.dat'' serialized of
                         Some e \<Rightarrow> Ret (Some reg, Some (Ext e), None)
                       | None \<Rightarrow> Ret (insert_own_id L rn reg
                                   (Some (rn_LFS rn, ''regCred.dat'', serialized))))))))))"

section \<open>Text form\<close>

definition Registry_Strings :: "('h, hval, 'b, 'z) reglib_scheme \<Rightarrow> ('h, 'b) Registry \<Rightarrow> string list" where
  "Registry_Strings L reg =
     [''registry {'', ''    LogFile: '' @ reg_LogFile reg, ''}'']
     @ concat (map (\<lambda>c. RegCluster_Strings L (get_cluster reg c)) (reg_Clusters reg))"

definition Registry_String :: "('h, hval, 'b, 'z) reglib_scheme \<Rightarrow> ('h, 'b) Registry \<Rightarrow> string" where
  "Registry_String L reg = Join newline (Registry_Strings L reg)"

section \<open>IDs are entered once\<close>

lemma ContainsID_True: "ContainsID L n reg = Inr True \<longleftrightarrow> bf_IsMember L (reg_idFilter reg) (Value n) = Inr True"
  by (auto simp: ContainsID_def ext_def split: sum.splits)

lemma InsertID_cases:
  obtains (failed) e where "InsertID L n reg = (reg, Some e)"
  | (ok) f where "InsertID L n reg = (reg\<lparr>reg_idFilter := f\<rparr>, None)"
      "ContainsID L n reg = Inr False" "bf_Insert L (reg_idFilter reg) (Value n) = Inr f"
proof (cases "ContainsID L n reg = Inr False")
  case True
  then show ?thesis
    using that by (cases "bf_Insert L (reg_idFilter reg) (Value n)")
      (auto simp: InsertID_def ContainsID_def ext_def split: sum.splits)
next
  case False
  then have "\<exists>e. InsertID L n reg = (reg, Some e)"
    by (auto simp: InsertID_def ContainsID_def ext_def split: sum.splits)
  then show ?thesis using that(1) by blast
qed

text \<open>The loop takes the first draw that the filter does not have.\<close>

definition taken_draw :: "('h, hval, 'b, 'z) reglib_scheme \<Rightarrow> ('h, 'b) Registry \<Rightarrow> nat \<Rightarrow> bool" where
  "taken_draw L reg d \<longleftrightarrow>
     (case xi_Random L d of Inl e \<Rightarrow> False | Inr n \<Rightarrow> ContainsID L n reg = Inr True)"

definition draw_result ::
  "('h, hval, 'b, 'z) reglib_scheme \<Rightarrow> ('h, 'b) Registry \<Rightarrow> nat \<Rightarrow> (nodeID \<times> nat \<times> gerror option) outcome" where
  "draw_result L reg d =
     (case xi_Random L d of
        Inl e \<Rightarrow> Panic NilDereference
      | Inr n \<Rightarrow> (case ContainsID L n reg of Inl e \<Rightarrow> Ret (n, Suc d, Some e) | Inr _ \<Rightarrow> Ret (n, Suc d, None)))"

lemma unique_loop_turn:
  "(case xi_Random L d of
      Inl e \<Rightarrow> Some (Panic NilDereference)
    | Inr n \<Rightarrow>
        (case ContainsID L n reg of
           Inl e \<Rightarrow> Some (Ret (n, Suc d, Some e))
         | Inr found \<Rightarrow> if found then x else Some (Ret (n, Suc d, None))))
   = (if taken_draw L reg d then x else Some (draw_result L reg d))"
  by (auto simp: taken_draw_def draw_result_def split: sum.splits)

lemma unique_loop_unfold:
  "unique_loop L reg d =
     (if taken_draw L reg d then unique_loop L reg (Suc d) else Some (draw_result L reg d))"
  by (subst unique_loop.simps) (rule unique_loop_turn)

lemma unique_loop_skip:
  "(\<And>j. j < k \<Longrightarrow> taken_draw L reg (d + j)) \<Longrightarrow> unique_loop L reg d = unique_loop L reg (d + k)"
proof (induction k)
  case (Suc k)
  have "taken_draw L reg (d + k)" using Suc.prems by simp
  then have "unique_loop L reg (d + k) = unique_loop L reg (d + Suc k)"
    by (subst unique_loop_unfold) simp
  with Suc show ?case by simp
qed simp

lemma unique_loop_first:
  assumes "\<not> taken_draw L reg (d + k)" and "\<And>j. j < k \<Longrightarrow> taken_draw L reg (d + j)"
  shows "unique_loop L reg d = Some (draw_result L reg (d + k))"
  using unique_loop_skip [of k L reg d] assms by (simp add: unique_loop_unfold [of L reg "d + k"])

text \<open>If it ends, it ended that way: there was a draw that the filter does not have.\<close>

lemma unique_loop_result:
  assumes "unique_loop L reg d = Some r"
  shows "\<exists>k \<ge> d. \<not> taken_draw L reg k \<and> r = draw_result L reg k"
  using assms
proof (induction rule: unique_loop.raw_induct [rotated, consumes 1, case_names turn])
  case (turn f L reg d r)
  have step: "(if taken_draw L reg d then f L reg (Suc d) else Some (draw_result L reg d)) = Some r"
    using turn(2) by (simp only: unique_loop_turn)
  show ?case
  proof (cases "taken_draw L reg d")
    case True
    with step have "f L reg (Suc d) = Some r" by simp
    from turn(1) [OF this] obtain k where "k \<ge> Suc d" "\<not> taken_draw L reg k" "r = draw_result L reg k"
      by (elim exE conjE)
    then show ?thesis by (intro exI [of _ k] conjI) simp_all
  next
    case False
    with step show ?thesis by (intro exI [of _ d] conjI) simp_all
  qed
qed

lemma unique_loop_ends_iff: "(\<exists>r. unique_loop L reg d = Some r) \<longleftrightarrow> (\<exists>k \<ge> d. \<not> taken_draw L reg k)"
proof
  assume "\<exists>r. unique_loop L reg d = Some r"
  then show "\<exists>k \<ge> d. \<not> taken_draw L reg k" using unique_loop_result by blast
next
  assume "\<exists>k \<ge> d. \<not> taken_draw L reg k"
  then have ex: "\<exists>k. \<not> taken_draw L reg (d + k)" by (metis le_add_diff_inverse)
  define k where "k = (LEAST k. \<not> taken_draw L reg (d + k))"
  have "\<not> taken_draw L reg (d + k)" unfolding k_def by (rule LeastI_ex [OF ex])
  moreover have "taken_draw L reg (d + j)" if "j < k" for j
    using not_less_Least [OF that [unfolded k_def]] by simp
  ultimately show "\<exists>r. unique_loop L reg d = Some r" using unique_loop_first by blast
qed

lemma InsertUniqueNodeID_Ret:
  assumes "InsertUniqueNodeID L reg = Ret (reg', n, err)"
  obtains (failed) e d where "err = Some e" "reg' = reg\<lparr>reg_draws := d\<rparr>"
  | (fresh) d f where "err = None" "reg' = reg\<lparr>reg_draws := d, reg_idFilter := f\<rparr>"
      "reg_draws reg < d" "xi_Random L (d - 1) = Inr n" "ContainsID L n reg = Inr False"
      "bf_Insert L (reg_idFilter reg) (Value n) = Inr f"
proof -
  define run where "run = (\<lambda>(m, d, e). case e of
       Some e \<Rightarrow> Ret (reg\<lparr>reg_draws := d\<rparr>, m, Some e)
     | None \<Rightarrow> (case bf_Insert L (reg_idFilter reg) (Value m) of
           Inl e \<Rightarrow> Ret (reg\<lparr>reg_draws := d\<rparr>, m, Some (Ext e))
         | Inr f \<Rightarrow> Ret (reg\<lparr>reg_draws := d, reg_idFilter := f\<rparr>, m, None)))"
  have "InsertUniqueNodeID L reg = obind (of_loop (unique_loop L reg (reg_draws reg))) run"
    by (cases "of_loop (unique_loop L reg (reg_draws reg))")
      (auto simp: InsertUniqueNodeID_def run_def Let_def split: option.splits)
  with assms have "obind (of_loop (unique_loop L reg (reg_draws reg))) run = Ret (reg', n, err)" by simp
  then obtain m d e where u: "of_loop (unique_loop L reg (reg_draws reg)) = Ret (m, d, e)"
    and r: "run (m, d, e) = Ret (reg', n, err)"
    unfolding obind_Ret_iff by auto
  have [simp]: "m = n" using r by (simp add: run_def split: option.splits sum.splits)
  have "unique_loop L reg (reg_draws reg) = Some (Ret (n, d, e))"
    using u by (cases "unique_loop L reg (reg_draws reg)") simp_all
  from unique_loop_result [OF this] obtain k where
    k: "k \<ge> reg_draws reg" "\<not> taken_draw L reg k" "Ret (n, d, e) = draw_result L reg k" by blast
  then have draw: "e = None \<Longrightarrow> xi_Random L k = Inr n \<and> ContainsID L n reg = Inr False" "d = Suc k"
    by (auto simp: taken_draw_def draw_result_def split: sum.splits)
  show ?thesis
    using r k(1) draw that
    by (cases e; cases "bf_Insert L (reg_idFilter reg) (Value n)") (auto simp: run_def)
qed

section \<open>Consistency of the indexes\<close>

text \<open>
  The name index has exactly the clusters of the list, under their names, which are different;
  whatever the ID index finds is a cluster of the list with that ID, and the search never fails.
\<close>

definition reg_name :: "('h, 'b) Registry \<Rightarrow> cref \<Rightarrow> string" where
  "reg_name reg c = rc_Name (get_cluster reg c)"

definition reg_names_inv :: "('h, 'b) Registry \<Rightarrow> bool" where
  "reg_names_inv reg \<longleftrightarrow> distinct (map (reg_name reg) (reg_Clusters reg))
     \<and> (\<forall>n c. reg_ClustersByName reg n = Some c \<longleftrightarrow> c \<in> set (reg_Clusters reg) \<and> reg_name reg c = n)"

definition reg_ids_inv :: "('h, hval, 'b, 'z) reglib_scheme \<Rightarrow> ('h, 'b) Registry \<Rightarrow> bool" where
  "reg_ids_inv L reg \<longleftrightarrow> (\<forall>k. snd (ha_Find L (reg_ClustersByID reg) k) = None)
     \<and> (\<forall>k v. fst (ha_Find L (reg_ClustersByID reg) k) = Some v \<longrightarrow>
          (\<exists>c \<in> set (reg_Clusters reg). v = HCluster c \<and> rc_ID (get_cluster reg c) = Some k))"

definition reg_index_inv :: "('h, hval, 'b, 'z) reglib_scheme \<Rightarrow> ('h, 'b) Registry \<Rightarrow> bool" where
  "reg_index_inv L reg \<longleftrightarrow> reg_names_inv reg \<and> reg_ids_inv L reg"

text \<open>
  The invariant of the registry: its indexes are consistent, its pointers are pointers to clusters,
  every cluster is consistent and has an ID.
\<close>

definition reg_inv :: "('h, hval, 'b, 'z) reglib_scheme \<Rightarrow> ('h, 'b) Registry \<Rightarrow> bool" where
  "reg_inv L reg \<longleftrightarrow> reg_index_inv L reg
     \<and> (\<forall>c \<in> set (reg_Clusters reg). c < length (reg_heap reg))
     \<and> (\<forall>rc \<in> set (reg_heap reg). cluster_inv L rc \<and> rc_ID rc \<noteq> None)"

text \<open>What \<open>AddCluster\<close> can do.\<close>

lemma cluster_insert_fields:
  assumes "cluster_insert L c reg = Ret (reg', i, err)"
  shows "reg_Clusters reg' = reg_Clusters reg @ [c]"
    and "reg_ClustersByName reg' = (reg_ClustersByName reg)(reg_name reg c \<mapsto> c)"
    and "reg_heap reg' = reg_heap reg" and "reg_idFilter reg' = reg_idFilter reg"
    and "i = (if err = None then int (length (reg_Clusters reg)) else -1)"
  using assms
  by (auto simp: cluster_insert_def Let_def reg_name_def split: option.splits prod.splits)

lemma AddCluster_cases:
  assumes "AddCluster L (Some c) reg = Ret (reg', i, err)"
  obtains (refused) e where "reg' = reg" "err = Some e" "i = -1"
  | (entered) "cluster_insert L c reg = Ret (reg', i, err)"
      "reg_ClustersByName reg (reg_name reg c) = None"
      "ha_Find L (reg_ClustersByID reg) (fst (NewBytesKey L (slice_of (rc_ID (get_cluster reg c))))) = (None, None)"
      "snd (NewBytesKey L (slice_of (rc_ID (get_cluster reg c)))) = None"
  using assms by (auto simp: AddCluster_def reg_name_def split: prod.splits option.splits if_splits)

lemma AddCluster_frame:
  assumes "AddCluster L (Some c) reg = Ret (reg', i, err)"
  shows "reg_heap reg' = reg_heap reg" and "reg_idFilter reg' = reg_idFilter reg"
  using assms by (cases rule: AddCluster_cases; simp add: cluster_insert_fields)+

lemma cluster_insert_find:
  assumes "hamt_ok L" and "nodeids_ok L" and "cluster_insert L c reg = Ret (reg', i, err)"
    and "rc_ID (get_cluster reg c) = Some k"
  shows "ha_Find L (reg_ClustersByID reg') =
     (if err = None then (ha_Find L (reg_ClustersByID reg))(k := (Some (HCluster c), None))
      else ha_Find L (reg_ClustersByID reg))"
proof -
  obtain n where n: "xi_New L k = Inr n"
    using assms(3,4) by (auto simp: cluster_insert_def Let_def rc_GetNodeID_def xi_New_or_random_def
        split: sum.splits option.splits)
  then have nk: "Value n = k" using nodeids_okD(2) [OF assms(2)] by fastforce
  obtain key kerr where key: "NewBytesKey L k = (key, kerr)" by fastforce
  obtain h herr where h: "ha_Insert L (reg_ClustersByID reg) key (HCluster c) = (h, herr)" by fastforce
  note run = assms(3) [unfolded cluster_insert_def Let_def rc_GetNodeID_def xi_New_or_random_def,
      simplified assms(4) n nk key h option.case sum.case prod.case]
  show ?thesis
  proof (cases kerr)
    case None
    then have "key = k" using hamt_okD(4) [OF assms(1)] key by simp
    with None run h show ?thesis
      by (cases herr) (auto simp: hamt_okD(2,3) [OF assms(1)])
  next
    case (Some e)
    with run show ?thesis by auto
  qed
qed

lemma reg_names_inv_insert:
  assumes "reg_names_inv reg" and "reg_ClustersByName reg (reg_name reg c) = None"
    and "reg_Clusters reg' = reg_Clusters reg @ [c]"
    and "reg_ClustersByName reg' = (reg_ClustersByName reg)(reg_name reg c \<mapsto> c)"
    and "reg_heap reg' = reg_heap reg"
  shows "reg_names_inv reg'"
proof -
  have nm: "reg_name reg' = reg_name reg" by (simp add: fun_eq_iff reg_name_def get_cluster_def assms(5))
  have idx: "reg_ClustersByName reg n = Some x \<longleftrightarrow> x \<in> set (reg_Clusters reg) \<and> reg_name reg x = n" for n x
    using assms(1) by (simp add: reg_names_inv_def)
  have new: "reg_name reg c \<notin> reg_name reg ` set (reg_Clusters reg)"
  proof
    assume "reg_name reg c \<in> reg_name reg ` set (reg_Clusters reg)"
    then obtain x where "x \<in> set (reg_Clusters reg)" "reg_name reg x = reg_name reg c" by auto
    with idx [of "reg_name reg c" x] assms(2) show False by simp
  qed
  then have "reg_name reg x \<noteq> reg_name reg c" if "x \<in> set (reg_Clusters reg)" for x
    using imageI [OF that, of "reg_name reg"] by auto
  then have "reg_ClustersByName reg' n = Some x \<longleftrightarrow> x \<in> set (reg_Clusters reg') \<and> reg_name reg x = n" for n x
    unfolding assms(3,4) using idx [of n x] by (cases "n = reg_name reg c") auto
  with new show ?thesis
    using assms(1,3) by (simp add: reg_names_inv_def nm)
qed

lemma reg_ids_inv_insert:
  assumes "reg_ids_inv L reg" and "set (reg_Clusters reg) \<subseteq> set (reg_Clusters reg')"
    and "reg_heap reg' = reg_heap reg"
    and "c \<in> set (reg_Clusters reg')" and "rc_ID (get_cluster reg c) = Some k"
    and "ha_Find L (reg_ClustersByID reg') =
      (if ok then (ha_Find L (reg_ClustersByID reg))(k := (Some (HCluster c), None))
       else ha_Find L (reg_ClustersByID reg))"
  shows "reg_ids_inv L reg'"
proof -
  have get: "get_cluster reg' = get_cluster reg" by (simp add: fun_eq_iff get_cluster_def assms(3))
  have old: "\<exists>d \<in> set (reg_Clusters reg'). v = HCluster d \<and> rc_ID (get_cluster reg d) = Some j"
    if "fst (ha_Find L (reg_ClustersByID reg) j) = Some v" for j v
    using that assms(1,2) unfolding reg_ids_inv_def by blast
  have err: "snd (ha_Find L (reg_ClustersByID reg) j) = None" for j
    using assms(1) by (simp add: reg_ids_inv_def)
  show ?thesis
    unfolding reg_ids_inv_def assms(6) get
  proof (intro conjI allI impI)
    fix j v
    show "snd ((if ok then (ha_Find L (reg_ClustersByID reg))(k := (Some (HCluster c), None))
        else ha_Find L (reg_ClustersByID reg)) j) = None"
      using err [of j] by simp
    assume "fst ((if ok then (ha_Find L (reg_ClustersByID reg))(k := (Some (HCluster c), None))
        else ha_Find L (reg_ClustersByID reg)) j) = Some v"
    then show "\<exists>d \<in> set (reg_Clusters reg'). v = HCluster d \<and> rc_ID (get_cluster reg d) = Some j"
      using old [of j v] assms(4,5) by (cases "ok \<and> j = k") (auto split: if_splits)
  qed
qed

lemma AddCluster_index_inv:
  assumes "hamt_ok L" and "nodeids_ok L" and "reg_index_inv L reg"
    and "rc_ID (get_cluster reg c) \<noteq> None" and "AddCluster L (Some c) reg = Ret (reg', i, err)"
  shows "reg_index_inv L reg'"
  using assms(5)
proof (cases rule: AddCluster_cases)
  case entered
  note f = cluster_insert_fields [OF entered(1)]
  obtain k where k: "rc_ID (get_cluster reg c) = Some k" using assms(4) by blast
  have "reg_names_inv reg'"
    by (rule reg_names_inv_insert [OF _ entered(2) f(1-3)]) (use assms(3) in \<open>simp add: reg_index_inv_def\<close>)
  moreover have "reg_ids_inv L reg'"
    by (rule reg_ids_inv_insert [OF _ _ f(3) _ k cluster_insert_find [OF assms(1,2) entered(1) k]])
      (use assms(3) in \<open>simp_all add: f(1) reg_index_inv_def subset_iff\<close>)
  ultimately show ?thesis by (simp add: reg_index_inv_def)
qed (use assms(3) in simp)

lemma AddCluster_inv:
  assumes "hamt_ok L" and "nodeids_ok L" and "reg_inv L reg" and "c < length (reg_heap reg)"
    and "AddCluster L (Some c) reg = Ret (reg', i, err)"
  shows "reg_inv L reg'"
proof -
  have "rc_ID (get_cluster reg c) \<noteq> None"
    using assms(3,4) by (simp add: reg_inv_def get_cluster_def)
  then have "reg_index_inv L reg'"
    using assms(3) by (intro AddCluster_index_inv [OF assms(1,2) _ _ assms(5)]) (simp_all add: reg_inv_def)
  moreover have "\<forall>x \<in> set (reg_Clusters reg'). x < length (reg_heap reg)"
    using assms(5) by (cases rule: AddCluster_cases) (use assms(3,4) in \<open>auto simp: reg_inv_def cluster_insert_fields\<close>)
  ultimately show ?thesis
    using assms(3) by (simp add: reg_inv_def AddCluster_frame [OF assms(5)])
qed

text \<open>
  The registry is a name index of its clusters. The interface takes pointers to existing clusters;
  a call that panics (on a cluster whose ID is not one) counts as a refusal.
\<close>

definition add_cluster ::
  "('h, hval, 'b, 'z) reglib_scheme \<Rightarrow> cref \<Rightarrow> ('h, 'b) Registry \<Rightarrow> ('h, 'b) Registry \<times> gerror option" where
  "add_cluster L c reg =
     (if c < length (reg_heap reg) then
        (case AddCluster L (Some c) reg of
           Ret (reg', i, err) \<Rightarrow> (reg', err)
         | _ \<Rightarrow> (reg, Some NilCluster))
      else (reg, Some NilCluster))"

lemma add_cluster_cases:
  obtains (refused) e where "add_cluster L c reg = (reg, Some e)"
  | (entered) reg' i err where "c < length (reg_heap reg)"
      "AddCluster L (Some c) reg = Ret (reg', i, err)" "cluster_insert L c reg = Ret (reg', i, err)"
      "reg_ClustersByName reg (reg_name reg c) = None" "add_cluster L c reg = (reg', err)"
proof (cases "c < length (reg_heap reg)")
  case True
  show ?thesis
  proof (cases "AddCluster L (Some c) reg")
    case (Ret r)
    then obtain reg' i err where r: "AddCluster L (Some c) reg = Ret (reg', i, err)" by (cases r) auto
    then show ?thesis
    proof (cases rule: AddCluster_cases)
      case (refused e)
      with r True show ?thesis by (intro that(1) [of e]) (simp add: add_cluster_def)
    next
      case entered
      with r True show ?thesis by (intro that(2) [of reg' i err]) (simp_all add: add_cluster_def)
    qed
  qed (use that(1) in \<open>simp_all add: add_cluster_def\<close>)
qed (use that(1) in \<open>simp add: add_cluster_def\<close>)

lemma add_cluster_inv:
  assumes "hamt_ok L" and "nodeids_ok L" and "reg_inv L reg"
  shows "reg_inv L (fst (add_cluster L c reg))"
  by (cases rule: add_cluster_cases [of L c reg])
    (use assms AddCluster_inv [OF assms] in auto)

lemma add_cluster_heap: "reg_heap (fst (add_cluster L c reg)) = reg_heap reg"
  by (cases rule: add_cluster_cases [of L c reg]) (auto simp: AddCluster_frame)

interpretation clusters: name_index
    "\<lambda>reg. hamt_ok L \<and> nodeids_ok L \<and> reg_inv L reg \<and> reg_heap reg = H" "add_cluster L"
    reg_Clusters reg_ClustersByName "\<lambda>c. rc_Name (H ! c)"
  for L :: "('h, hval, 'b, 'z) reglib_scheme" and H :: "'h RegCluster list"
proof
  fix reg reg' :: "('h, 'b) Registry" and c d n
  assume inv: "hamt_ok L \<and> nodeids_ok L \<and> reg_inv L reg \<and> reg_heap reg = H"
  then have nm: "reg_name reg = (\<lambda>c. rc_Name (H ! c))"
    by (simp add: fun_eq_iff reg_name_def get_cluster_def)
  show "hamt_ok L \<and> nodeids_ok L \<and> reg_inv L (fst (add_cluster L c reg))
      \<and> reg_heap (fst (add_cluster L c reg)) = H"
    using inv by (simp add: add_cluster_inv add_cluster_heap)
  show "reg_Clusters reg' = reg_Clusters reg @ [c]" if "add_cluster L c reg = (reg', None)"
    using that by (cases rule: add_cluster_cases [of L c reg]) (simp_all add: cluster_insert_fields(1))
  show "\<exists>e. add_cluster L c reg = (reg, Some e)" if "reg_ClustersByName reg (rc_Name (H ! c)) = Some d"
    using that by (cases rule: add_cluster_cases [of L c reg]) (auto simp: nm)
  show "reg_ClustersByName reg n = Some c \<longleftrightarrow> c \<in> set (reg_Clusters reg) \<and> rc_Name (H ! c) = n"
    using inv by (simp add: reg_inv_def reg_index_inv_def reg_names_inv_def nm)
  show "distinct (map (\<lambda>c. rc_Name (H ! c)) (reg_Clusters reg))"
    using inv by (simp add: reg_inv_def reg_index_inv_def reg_names_inv_def nm)
qed

section \<open>Properties\<close>

definition ref_node :: RegNode where
  "ref_node = \<lparr>rn_BaseNode = ref_bn ''xlReg'' 3, rn_LFS = [],
     rn_ckPriv = \<lparr>rsa_pub_of = ref_pub, rsa_D = 3\<rparr>, rn_skPriv = \<lparr>rsa_pub_of = ref_pub, rsa_D = 3\<rparr>\<rparr>"

text \<open>A registry on the sample library with clusters in its heap, none of them entered.\<close>

definition ref_registry ::
  "(bytes \<times> hval) list RegCluster list \<Rightarrow> ((bytes \<times> hval) list, bytes list) Registry" where
  "ref_registry h = \<lparr>reg_LogFile = [], reg_Clusters = [], reg_GlobalEndPoint = None,
     reg_idFilter = [ref_id 3], reg_ClustersByName = Map.empty, reg_ClustersByID = [],
     reg_RegNode = ref_node, reg_heap = h, reg_draws = 0\<rparr>"

lemma ref_registry_inv:
  "\<forall>rc \<in> set h. cluster_inv (reflib ms) rc \<and> rc_ID rc \<noteq> None \<Longrightarrow> reg_inv (reflib ms) (ref_registry h)"
  by (simp add: reg_inv_def reg_index_inv_def reg_names_inv_def reg_ids_inv_def ref_registry_def)

text \<open>An ID is registered once: after \<open>InsertID\<close> succeeds, \<open>ContainsID\<close> reports it, a second
  \<open>InsertID\<close> reports \<open>IDAlreadyInUse\<close> and changes nothing, the count has gone up by one, and every
  ID known before is still known.\<close>

theorem insert_id_once:
  assumes "bloom_ok L" and "InsertID L n reg = (reg', None)"
  shows "ContainsID L n reg = Inr False \<and> ContainsID L n reg' = Inr True
     \<and> InsertID L n reg' = (reg', Some IDAlreadyInUse) \<and> IDCount L reg' = IDCount L reg + 1
     \<and> (\<forall>m. ContainsID L m reg = Inr True \<longrightarrow> ContainsID L m reg' = Inr True)"
proof (cases rule: InsertID_cases [of L n reg])
  case (ok f)
  then have r: "reg' = reg\<lparr>reg_idFilter := f\<rparr>" using assms(2) by simp
  note b = bloom_okD [OF assms(1), of "reg_idFilter reg" "Value n" f, OF ok(3)]
  show ?thesis
    using ok(2) b by (simp add: r ContainsID_True InsertID_def IDCount_def)
qed (use assms(2) in simp)

theorem insert_id_once_witness:
  "InsertID (reflib []) (NodeID (ref_id 5)) ((ref_registry [])\<lparr>reg_idFilter := [ref_id 5, ref_id 3]\<rparr>) =
     ((ref_registry [])\<lparr>reg_idFilter := [ref_id 5, ref_id 3]\<rparr>, Some IDAlreadyInUse)"
proof -
  have "InsertID (reflib []) (NodeID (ref_id 5)) (ref_registry []) =
      ((ref_registry [])\<lparr>reg_idFilter := [ref_id 5, ref_id 3]\<rparr>, None)"
    by (simp add: InsertID_def ref_registry_def)
  from insert_id_once [OF reflib_bloom this] show ?thesis by simp
qed

text \<open>C37. An ID handed out by \<open>InsertUniqueNodeID\<close> is new and is reserved: it was not in the filter
  before, it is afterwards, and no ID that was known is lost.\<close>

theorem unique_id_fresh:
  assumes "bloom_ok L" and "InsertUniqueNodeID L reg = Ret (reg', n, None)"
  shows "ContainsID L n reg = Inr False \<and> ContainsID L n reg' = Inr True
     \<and> (\<forall>m. ContainsID L m reg = Inr True \<longrightarrow> ContainsID L m reg' = Inr True)"
  using assms(2)
proof (cases rule: InsertUniqueNodeID_Ret)
  case (fresh d f)
  with bloom_okD [OF assms(1) fresh(6)] show ?thesis by (simp add: ContainsID_True)
qed simp

lemma ref_unique:
  "InsertUniqueNodeID (reflib []) (ref_registry []) =
     Ret ((ref_registry [])\<lparr>reg_draws := 1, reg_idFilter := [replicate 19 0 @ [0], ref_id 3]\<rparr>,
          NodeID (replicate 19 0 @ [0]), None)"
  by (simp add: InsertUniqueNodeID_def unique_loop_unfold taken_draw_def draw_result_def ContainsID_def
      ref_registry_def ref_id_def)

theorem unique_id_fresh_witness:
  "ContainsID (reflib []) (NodeID (replicate 19 0 @ [0]))
     ((ref_registry [])\<lparr>reg_draws := 1, reg_idFilter := [replicate 19 0 @ [0], ref_id 3]\<rparr>) = Inr True"
  using unique_id_fresh [OF reflib_bloom ref_unique] by simp

text \<open>C38. \<open>InsertUniqueNodeID\<close> comes to an end exactly when some later draw of the random number
  generator is not in the filter (or cannot be checked): it hangs when the filter has every draw.\<close>

theorem unique_id_terminates_iff:
  "InsertUniqueNodeID L reg \<noteq> Hang \<longleftrightarrow> (\<exists>k. k \<ge> reg_draws reg \<and> \<not> taken_draw L reg k)"
proof -
  have d: "draw_result L reg k \<noteq> Hang" for k
    by (auto simp: draw_result_def split: sum.splits)
  have "InsertUniqueNodeID L reg = Hang \<longleftrightarrow> of_loop (unique_loop L reg (reg_draws reg)) = Hang"
  proof (cases "of_loop (unique_loop L reg (reg_draws reg))")
    case (Ret x)
    then show ?thesis
      by (cases x; cases "snd (snd x)"; cases "bf_Insert L (reg_idFilter reg) (Value (fst x))")
        (simp_all add: InsertUniqueNodeID_def Let_def)
  qed (simp_all add: InsertUniqueNodeID_def)
  also have "\<dots> \<longleftrightarrow> unique_loop L reg (reg_draws reg) = None"
  proof (cases "unique_loop L reg (reg_draws reg)")
    case (Some r)
    then show ?thesis using unique_loop_result [OF Some] d by auto
  qed simp
  finally show ?thesis using unique_loop_ends_iff [of L reg "reg_draws reg"] by auto
qed

text \<open>\<open>AddCluster\<close> keeps the registry consistent on every path, also when the ID index refuses the
  cluster after it was entered in the list: names unique, both indexes in agreement with the
  list, every pointer a pointer to a consistent cluster.\<close>

theorem add_cluster_invariant:
  assumes "hamt_ok L" and "nodeids_ok L" and "reg_inv L reg" and "c < length (reg_heap reg)"
    and "AddCluster L (Some c) reg = Ret (reg', i, err)"
  shows "reg_inv L reg'"
  using assms by (rule AddCluster_inv)

definition ref_registry1 :: "((bytes \<times> hval) list, bytes list) Registry" where
  "ref_registry1 = (ref_registry [ref_cluster 9 []])\<lparr>reg_Clusters := [0],
     reg_ClustersByName := [''club'' \<mapsto> 0], reg_ClustersByID := [(ref_id 9, HCluster 0)]\<rparr>"

lemma ref_add_cluster:
  "AddCluster (reflib ms) (Some 0) (ref_registry [ref_cluster 9 []]) = Ret (ref_registry1, 0, None)"
  by (simp add: AddCluster_def cluster_insert_def Let_def get_cluster_def rc_GetNodeID_def
      xi_New_or_random_def ref_registry1_def ref_registry_def ref_cluster_def)

lemma ref_registry_one_inv: "reg_inv (reflib ms) (ref_registry [ref_cluster 9 []])"
proof -
  have "cluster_inv (reflib ms) (ref_cluster 9 [])" by (rule ref_cluster_inv) simp
  then show ?thesis by (intro ref_registry_inv) (simp add: ref_cluster_def)
qed

theorem add_cluster_invariant_witness: "reg_inv (reflib []) ref_registry1"
  by (rule add_cluster_invariant [OF reflib_hamt reflib_nodeids ref_registry_one_inv _ ref_add_cluster])
    (simp add: ref_registry_def)

lemma add_cluster_enters:
  assumes "hamt_ok L" and "nodeids_ok L" and "reg_inv L reg"
    and "AddCluster L (Some c) reg = Ret (reg', i, None)" and "rc_ID (get_cluster reg c) = Some k"
  shows "(\<forall>d \<in> set (reg_Clusters reg). reg_name reg d \<noteq> reg_name reg c)
     \<and> reg_Clusters reg' = reg_Clusters reg @ [c] \<and> i = int (length (reg_Clusters reg))
     \<and> reg_ClustersByName reg' (reg_name reg c) = Some c
     \<and> ha_Find L (reg_ClustersByID reg') k = (Some (HCluster c), None)"
  using assms(4)
proof (cases rule: AddCluster_cases)
  case entered
  have "reg_name reg d \<noteq> reg_name reg c" if "d \<in> set (reg_Clusters reg)" for d
  proof
    assume "reg_name reg d = reg_name reg c"
    then have "reg_ClustersByName reg (reg_name reg c) = Some d"
      using assms(3) that by (simp add: reg_inv_def reg_index_inv_def reg_names_inv_def)
    with entered(2) show False by simp
  qed
  then show ?thesis
    using cluster_insert_fields [OF entered(1)] cluster_insert_find [OF assms(1,2) entered(1) assms(5)]
    by simp
qed simp

text \<open>C39. A cluster entered without error is the last of the list, at the index returned, and is found
  by its name and by its ID; no cluster had its name.\<close>

theorem add_cluster_ok:
  assumes "hamt_ok L" and "nodeids_ok L" and "reg_inv L reg"
    and "AddCluster L (Some c) reg = Ret (reg', i, None)" and "rc_ID (get_cluster reg c) = Some k"
  shows "(\<forall>d \<in> set (reg_Clusters reg). reg_name reg d \<noteq> reg_name reg c)
     \<and> reg_Clusters reg' = reg_Clusters reg @ [c] \<and> i = int (length (reg_Clusters reg))
     \<and> reg_ClustersByName reg' (reg_name reg c) = Some c
     \<and> ha_Find L (reg_ClustersByID reg') k = (Some (HCluster c), None)"
  using assms by (rule add_cluster_enters)

theorem add_cluster_ok_witness:
  "ha_Find (reflib []) (reg_ClustersByID ref_registry1) (ref_id 9) = (Some (HCluster 0), None)"
  using add_cluster_ok [OF reflib_hamt reflib_nodeids ref_registry_one_inv ref_add_cluster, of "ref_id 9"]
  by (simp add: ref_registry_def get_cluster_def ref_cluster_def)

text \<open>Clusters entered one after the other, all without error, are in the list in that order,
  have different names, and each is found by its name.\<close>

theorem clusters_in_order:
  assumes "hamt_ok L" and "nodeids_ok L" and "reg_inv L reg" and "adds (add_cluster L) cs reg = Some reg'"
  shows "reg_Clusters reg' = reg_Clusters reg @ cs \<and> distinct (map (reg_name reg) (reg_Clusters reg @ cs))
     \<and> (\<forall>c \<in> set cs. reg_ClustersByName reg' (reg_name reg c) = Some c)"
proof -
  have inv: "hamt_ok L \<and> nodeids_ok L \<and> reg_inv L reg \<and> reg_heap reg = reg_heap reg"
    using assms(1-3) by simp
  have nm: "reg_name reg = (\<lambda>c. rc_Name (reg_heap reg ! c))"
    by (simp add: fun_eq_iff reg_name_def get_cluster_def)
  show ?thesis
    using clusters.adds_inv_elems [OF inv assms(4)] clusters.adds_lookup [OF inv assms(4)]
      clusters.adds_distinct [OF inv assms(4)]
    by (simp add: nm)
qed

theorem clusters_in_order_witness: "reg_ClustersByName ref_registry1 ''club'' = Some 0"
proof -
  have "adds (add_cluster (reflib [])) [0] (ref_registry [ref_cluster 9 []]) = Some ref_registry1"
    by (simp add: add_cluster_def ref_add_cluster) (simp add: ref_registry_def)
  from clusters_in_order [OF reflib_hamt reflib_nodeids ref_registry_one_inv this] show ?thesis
    by (simp add: reg_name_def get_cluster_def ref_registry_def ref_cluster_def)
qed

end
