(* ===== verification/MsgHandlers.thy ===== *)
theory MsgHandlers
  imports Registry
begin

text \<open>
  The handlers of the messages a client sends over an established session (\<open>msg_handlers.go\<close>).
  Every handler takes the registry and the connection's \<open>InHandler\<close> and returns both; it sets
  \<open>errOut\<close> (in the source by a deferred function), and on success the reply \<open>msgOut\<close> and the exit
  state.
\<close>

section \<open>The state of a connection\<close>

abbreviation (input) "HELLO_RCVD \<equiv> (0 :: nat)"
abbreviation (input) "CLIENT_DETAILS_RCVD \<equiv> (1 :: nat)"
abbreviation (input) "CREATE_REQUEST_RCVD \<equiv> (2 :: nat)"
abbreviation (input) "JOIN_RCVD \<equiv> (3 :: nat)"
abbreviation (input) "BYE_RCVD \<equiv> (4 :: nat)"
abbreviation (input) "IN_CLOSED \<equiv> (5 :: nat)"

record InHandler =
  ih_thisClient :: "ClientInfo option"
  ih_cluster :: "cref option"
  ih_version :: u32
  ih_known :: u64
  ih_entryState :: nat
  ih_exitState :: nat
  ih_msgIn :: "XLRegMsg option"
  ih_msgOut :: "XLRegMsg option"
  ih_errOut :: "gerror option"

definition MIN_CLUSTER_SIZE :: u32 where "MIN_CLUSTER_SIZE = 2"
definition MAX_CLUSTER_SIZE :: u32 where "MAX_CLUSTER_SIZE = 64"

definition badCombo ::
  "('h, 'b) Registry \<Rightarrow> 'x InHandler_scheme \<Rightarrow> (('h, 'b) Registry \<times> 'x InHandler_scheme) outcome" where
  "badCombo reg h = Ret (reg, h\<lparr>ih_errOut := Some RcvdInvalidMsgForState\<rparr>)"

section \<open>Client\<close>

text \<open>The hash over the fields of the token, without the ID.\<close>

definition client_hash ::
  "'z extlib_scheme \<Rightarrow> string \<Rightarrow> u64 \<Rightarrow> bytes option \<Rightarrow> bytes option \<Rightarrow> string list option \<Rightarrow> bytes" where
  "client_hash L name attrs ckBytes skBytes myEnds =
     sha1_Sum L (bytes_of name @ PutUint64 attrs @ slice_of ckBytes @ slice_of skBytes
                 @ concat (map bytes_of (slice_of myEnds)))"

text \<open>The ID of the client: a new one if the token has none, otherwise the one it gives.\<close>

definition client_node_id ::
  "('h, hval, 'b, 'z) reglib_scheme \<Rightarrow> bytes option \<Rightarrow> ('h, 'b) Registry \<Rightarrow>
   (('h, 'b) Registry \<times> nodeID option \<times> gerror option) outcome" where
  "client_node_id L i reg =
     (case i of
        None \<Rightarrow> obind (InsertUniqueNodeID L reg) (\<lambda>(reg, n, err). Ret (reg, Some n, err))
      | Some b \<Rightarrow>
          (case ext (xi_New L b) of
             Inl e \<Rightarrow> Ret (reg, None, Some e)
           | Inr n \<Rightarrow>
               (case ContainsID L n reg of
                  Inl e \<Rightarrow> Ret (reg, Some n, Some e)
                | Inr found \<Rightarrow>
                    if found then Ret (reg, Some n, None)
                    else (case InsertID L n reg of (reg, err) \<Rightarrow> Ret (reg, Some n, err)))))"

text \<open>The checks before the ID is looked at: both keys and the signature.\<close>

definition client_keys ::
  "'z extlib_scheme \<Rightarrow> XLRegMsg_Token option \<Rightarrow> gerror + (rsa_pub \<times> rsa_pub)" where
  "client_keys L clientSpecs =
     (case ext (RSAPubKeyFromWire L (Token_GetCommsKey clientSpecs)) of
        Inl e \<Rightarrow> Inl e
      | Inr ck \<Rightarrow>
          (case ext (RSAPubKeyFromWire L (Token_GetSigKey clientSpecs)) of
             Inl e \<Rightarrow> Inl e
           | Inr sk \<Rightarrow>
               (case VerifyPKCS1v15 L sk
                       (client_hash L (Token_GetName clientSpecs) (Token_GetAttrs clientSpecs)
                          (Token_GetCommsKey clientSpecs) (Token_GetSigKey clientSpecs)
                          (Token_GetMyEnds clientSpecs))
                       (Token_GetDigSig clientSpecs) of
                  Some e \<Rightarrow> Inl (Ext e)
                | None \<Rightarrow> Inr (ck, sk))))"

definition doClientMsg ::
  "('h, hval, 'b, 'z) reglib_scheme \<Rightarrow> ('h, 'b) Registry \<Rightarrow> 'x InHandler_scheme \<Rightarrow>
   (('h, 'b) Registry \<times> 'x InHandler_scheme) outcome" where
  "doClientMsg L reg h =
     (let clientSpecs = GetMemberSpecs (ih_msgIn h);
          name = Token_GetName clientSpecs;
          attrs = Token_GetAttrs clientSpecs
      in case client_keys L clientSpecs of
           Inl e \<Rightarrow> Ret (reg, h\<lparr>ih_errOut := Some e\<rparr>)
         | Inr (ck, sk) \<Rightarrow>
     obind (client_node_id L (Token_GetID clientSpecs) reg) (\<lambda>(reg, nodeID, err).
     if err = None \<or> err = Some IDAlreadyInUse then
       (case NewClientInfo L name nodeID (Some ck) (Some sk) attrs (Token_GetMyEnds clientSpecs) of
          Inl e \<Rightarrow> Ret (reg, h\<lparr>ih_errOut := Some e\<rparr>)
        | Inr cm \<Rightarrow>
            (case nodeID of
               None \<Rightarrow> Panic NilDereference
             | Some n \<Rightarrow>
                 Ret (reg, h\<lparr>ih_thisClient := Some cm,
                             ih_msgOut := Some (zeroMsg\<lparr>msg_Op := Some XLRegMsg_MemberOK,
                               msg_MemberID := Some (Value n), msg_MemberAttrs := Some attrs\<rparr>),
                             ih_exitState := CLIENT_DETAILS_RCVD, ih_errOut := None\<rparr>)))
     else Ret (reg, h\<lparr>ih_errOut := err\<rparr>)))"

section \<open>Create\<close>

definition clamp_size :: "u32 \<Rightarrow> u32" where
  "clamp_size n =
     (if n < MIN_CLUSTER_SIZE then MIN_CLUSTER_SIZE
      else if n > MAX_CLUSTER_SIZE then MAX_CLUSTER_SIZE else n)"

definition create_reply :: "bytes \<Rightarrow> u32 \<Rightarrow> u64 \<Rightarrow> u32 \<Rightarrow> XLRegMsg" where
  "create_reply i maxSize attrs epCount =
     zeroMsg\<lparr>msg_Op := Some XLRegMsg_CreateReply, msg_ClusterID := Some i,
             msg_ClusterMaxSize := Some maxSize, msg_ClusterAttrs := Some attrs,
             msg_EndPointCount := Some epCount\<rparr>"

text \<open>
  A cluster of that name exists: its properties are the reply. The error of \<open>xi.New\<close> is dropped,
  so an ID that is not one gives a nil pointer. The session's cluster is not set.
\<close>

definition create_existing ::
  "('h, hval, 'b, 'z) reglib_scheme \<Rightarrow> cref \<Rightarrow> ('h, 'b) Registry \<Rightarrow> 'x InHandler_scheme \<Rightarrow>
   (('h, 'b) Registry \<times> 'x InHandler_scheme) outcome" where
  "create_existing L c reg h =
     (let cluster = get_cluster reg c;
          draw = reg_draws reg;
          reg = reg\<lparr>reg_draws := (if rc_ID cluster = None then Suc draw else draw)\<rparr>
      in case xi_New_or_random L draw (rc_ID cluster) of
           Inl e \<Rightarrow> Panic NilDereference
         | Inr clusterID \<Rightarrow>
             Ret (reg, h\<lparr>ih_msgOut := Some (create_reply (Value clusterID) (rc_maxSize cluster)
                            (rc_Attrs cluster) (rc_epCount cluster)),
                         ih_exitState := CREATE_REQUEST_RCVD, ih_errOut := None\<rparr>))"

text \<open>
  A new cluster, made with attributes zero; the attributes of the request go into the reply.
\<close>

definition create_new ::
  "('h, hval, 'b, 'z) reglib_scheme \<Rightarrow> string \<Rightarrow> u64 \<Rightarrow> u32 \<Rightarrow> u32 \<Rightarrow> ('h, 'b) Registry \<Rightarrow>
   'x InHandler_scheme \<Rightarrow> (('h, 'b) Registry \<times> 'x InHandler_scheme) outcome" where
  "create_new L clusterName clusterAttrs maxSize endPointCount reg h =
     (let clusterMaxSize = clamp_size maxSize in
     obind (InsertUniqueNodeID L reg) (\<lambda>(reg, clusterID, err).
     case err of
       Some e \<Rightarrow> Ret (reg, h\<lparr>ih_errOut := Some e\<rparr>)
     | None \<Rightarrow>
     (case NewRegCluster L clusterName clusterID 0 clusterMaxSize endPointCount of
        Inl e \<Rightarrow> Ret (reg, h\<lparr>ih_errOut := Some e\<rparr>)
      | Inr rc \<Rightarrow>
     (case new_cluster rc reg of (c, reg) \<Rightarrow>
     obind (AddCluster L (Some c) reg) (\<lambda>(reg, index, err).
     case err of
       Some e \<Rightarrow> Ret (reg, h\<lparr>ih_cluster := Some c, ih_errOut := Some e\<rparr>)
     | None \<Rightarrow>
         Ret (reg, h\<lparr>ih_cluster := Some c,
                     ih_msgOut := Some (create_reply (Value clusterID) clusterMaxSize clusterAttrs endPointCount),
                     ih_exitState := CREATE_REQUEST_RCVD, ih_errOut := None\<rparr>))))))"

definition doCreateMsg ::
  "('h, hval, 'b, 'z) reglib_scheme \<Rightarrow> ('h, 'b) Registry \<Rightarrow> 'x InHandler_scheme \<Rightarrow>
   (('h, 'b) Registry \<times> 'x InHandler_scheme) outcome" where
  "doCreateMsg L reg h =
     (let createMsg = ih_msgIn h; clusterName = GetClusterName createMsg
      in case reg_ClustersByName reg clusterName of
           Some c \<Rightarrow> create_existing L c reg h
         | None \<Rightarrow> create_new L clusterName (GetClusterAttrs createMsg) (GetClusterMaxSize createMsg)
                     (GetEndPointCount createMsg) reg h)"

section \<open>Join\<close>

text \<open>
  The cluster to join: the one of the session when the message names none, the one with the ID, or
  the one with the name. In the branch for the ID the error is a variable of the inner scope, so a
  cluster that is not found gives a nil pointer and no error.
\<close>

definition join_cluster ::
  "('h, hval, 'b, 'z) reglib_scheme \<Rightarrow> ('h, 'b) Registry \<Rightarrow> 'x InHandler_scheme \<Rightarrow> string \<Rightarrow> bytes option \<Rightarrow>
   (cref option \<times> gerror option) outcome" where
  "join_cluster L reg h clusterName clusterID =
     (case clusterID of
        None \<Rightarrow>
          if clusterName = [] then
            (case ih_cluster h of
               Some c \<Rightarrow> Ret (Some c, None)
             | None \<Rightarrow> Ret (None, Some MissingClusterNameOrID))
          else
            (case reg_ClustersByName reg clusterName of
               Some c \<Rightarrow> Ret (Some c, None)
             | None \<Rightarrow> Ret (None, Some CantFindClusterByName))
      | Some b \<Rightarrow>
          (case NewBytesKey L b of
             (bKey, Some e) \<Rightarrow> Ret (None, None)
           | (bKey, None) \<Rightarrow>
               (case fst (ha_Find L (reg_ClustersByID reg) bKey) of
                  None \<Rightarrow> Ret (None, None)
                | Some (HCluster c) \<Rightarrow> Ret (Some c, None)
                | Some (HClient _) \<Rightarrow> Panic BadTypeAssertion)))"

definition join_reply :: "'h RegCluster \<Rightarrow> XLRegMsg" where
  "join_reply rc =
     zeroMsg\<lparr>msg_Op := Some XLRegMsg_JoinReply, msg_ClusterID := rc_ID rc,
             msg_ClusterAttrs := Some (rc_Attrs rc), msg_ClusterMaxSize := Some (rc_maxSize rc),
             msg_EndPointCount := Some (rc_epCount rc)\<rparr>"

text \<open>On every error the cluster's ID is logged, through the pointer that may be nil.\<close>

definition doJoinMsg ::
  "('h, hval, 'b, 'z) reglib_scheme \<Rightarrow> ('h, 'b) Registry \<Rightarrow> 'x InHandler_scheme \<Rightarrow>
   (('h, 'b) Registry \<times> 'x InHandler_scheme) outcome" where
  "doJoinMsg L reg h =
     (let joinMsg = ih_msgIn h in
     case ih_thisClient h of
       None \<Rightarrow> Panic NilDereference
     | Some thisClient \<Rightarrow>
     obind (join_cluster L reg h (GetClusterName joinMsg) (GetClusterID joinMsg)) (\<lambda>(cluster, err).
     case cluster of
       None \<Rightarrow> Panic NilDereference
     | Some c \<Rightarrow>
     (case err of
        Some e \<Rightarrow> Ret (reg, h\<lparr>ih_errOut := Some e\<rparr>)
      | None \<Rightarrow>
     (case AddMember L thisClient (get_cluster reg c) of (rc, err) \<Rightarrow>
     (let reg = put_cluster c rc reg
      in case err of
           Some e \<Rightarrow> Ret (reg, h\<lparr>ih_errOut := Some e\<rparr>)
         | None \<Rightarrow> Ret (reg, h\<lparr>ih_cluster := Some c, ih_msgOut := Some (join_reply rc),
                               ih_exitState := JOIN_RCVD, ih_errOut := None\<rparr>))))))"

section \<open>Get\<close>

text \<open>
  The loop over the members: it stops at the first one that has no token, without an error.
\<close>

fun get_loop ::
  "'z extlib_scheme \<Rightarrow> ClientInfo list \<Rightarrow> u64 \<Rightarrow> nat list \<Rightarrow> XLRegMsg_Token list option \<Rightarrow> u64 \<Rightarrow>
   XLRegMsg_Token list option \<times> u64" where
  "get_loop L members whichToSend [] tokens whichReturned = (tokens, whichReturned)"
| "get_loop L members whichToSend (i # is) tokens whichReturned =
     (if bm_Test L whichToSend i then
        (case ci_Token L (members ! i) of
           Inl e \<Rightarrow> (tokens, whichReturned)
         | Inr token \<Rightarrow>
             get_loop L members whichToSend is (append_slice tokens token) (bm_Set L whichReturned i))
      else get_loop L members whichToSend is tokens whichReturned)"

definition get_members ::
  "('h, hval, 'z) hamtlib_scheme \<Rightarrow> 'h RegCluster \<Rightarrow> u64 \<Rightarrow> XLRegMsg_Token list option \<times> u64" where
  "get_members L cluster whichRequested =
     (let size = (if rc_Size cluster > MAX_CLUSTER_SIZE then MAX_CLUSTER_SIZE else rc_Size cluster);
          weHave = bm_LowNMap L (unat size);
          whichToSend = bm_Intersection L whichRequested weHave
      in get_loop L (rc_Members cluster) whichToSend [0..<unat size] None 0)"

definition doGetMsg ::
  "('h, hval, 'b, 'z) reglib_scheme \<Rightarrow> ('h, 'b) Registry \<Rightarrow> 'x InHandler_scheme \<Rightarrow>
   (('h, 'b) Registry \<times> 'x InHandler_scheme) outcome" where
  "doGetMsg L reg h =
     (let getMsg = ih_msgIn h; clusterID = GetClusterID getMsg
      in case NewBytesKey L (slice_of clusterID) of
           (bKey, Some e) \<Rightarrow> Ret (reg, h\<lparr>ih_errOut := Some (Ext e)\<rparr>)
         | (bKey, None) \<Rightarrow>
             (case ha_Find L (reg_ClustersByID reg) bKey of
                (None, err) \<Rightarrow>
                  Ret (reg, h\<lparr>ih_errOut := Some (ErrNew (''doGetMsg: can'' @ [CHR 0x27] @ ''t find cluster with ID ''
                                @ EncodeToString (slice_of clusterID)))\<rparr>)
              | (Some (HClient _), err) \<Rightarrow> Panic BadTypeAssertion
              | (Some (HCluster c), Some e) \<Rightarrow> Ret (reg, h\<lparr>ih_errOut := Some (Ext e)\<rparr>)
              | (Some (HCluster c), None) \<Rightarrow>
                  (case get_members L (get_cluster reg c) (GetWhich getMsg) of (tokens, whichReturned) \<Rightarrow>
                     Ret (reg, h\<lparr>ih_msgOut := Some (zeroMsg\<lparr>msg_Op := Some XLRegMsg_ClusterMembers,
                                   msg_ClusterID := clusterID, msg_Which := Some whichReturned,
                                   msg_Tokens := tokens\<rparr>),
                                 ih_exitState := JOIN_RCVD, ih_errOut := None\<rparr>))))"

section \<open>Bye\<close>

definition doByeMsg ::
  "('h, 'b) Registry \<Rightarrow> 'x InHandler_scheme \<Rightarrow> (('h, 'b) Registry \<times> 'x InHandler_scheme) outcome" where
  "doByeMsg reg h =
     Ret (reg, h\<lparr>ih_msgOut := Some (zeroMsg\<lparr>msg_Op := Some XLRegMsg_Ack\<rparr>),
                 ih_exitState := BYE_RCVD, ih_errOut := None\<rparr>)"

section \<open>The reply to Get\<close>

lemma bit_or_one: "bit (w OR push_bit i 1 :: u64) j \<longleftrightarrow> bit w j \<or> (j = i \<and> j < 64)"
  by (simp only: bit_or_iff bit_push_bit_iff bit_1_iff possible_bit_word) auto

lemma bit_fold_set:
  "bit (fold (\<lambda>i a. a OR push_bit i 1) xs (w :: u64)) j \<longleftrightarrow> bit w j \<or> (j \<in> set xs \<and> j < 64)"
proof (induction xs arbitrary: w)
  case (Cons x xs)
  show ?case unfolding fold_simps Cons.IH bit_or_one by auto
qed simp

lemma get_loop_result:
  assumes "bitmaps_ok L" and "\<forall>i \<in> set xs. i < 64 \<and> (\<exists>t. ci_Token L (ms ! i) = Inr t)"
  shows "map Inr (slice_of (fst (get_loop L ms send xs ts w))) =
           map Inr (slice_of ts) @ map (\<lambda>i. ci_Token L (ms ! i)) (filter (bit send) xs)
     \<and> snd (get_loop L ms send xs ts w) = fold (\<lambda>i a. a OR push_bit i 1) (filter (bit send) xs) w"
  using assms(2)
proof (induction xs arbitrary: ts w)
  case (Cons i xs)
  then obtain t where t: "ci_Token L (ms ! i) = Inr t" by auto
  have "bm_Test L send i = bit send i" "bm_Set L w i = w OR push_bit i 1"
    using Cons.prems bitmaps_okD(3,4) [OF assms(1), of i] by simp_all
  with Cons t show ?case by (simp add: append_slice_def)
qed simp

lemma get_members_result:
  assumes "bitmaps_ok L" and "length (rc_Members rc) < 2 ^ 32"
    and "\<forall>m \<in> set (rc_Members rc). \<exists>t. ci_Token L m = Inr t"
  defines "n \<equiv> min 64 (length (rc_Members rc))"
  shows "snd (get_members L rc which) = which AND mask n"
    and "map Inr (slice_of (fst (get_members L rc which))) =
      map (\<lambda>i. ci_Token L (rc_Members rc ! i)) (filter (bit which) [0..<n])"
proof -
  let ?size = "if rc_Size rc > MAX_CLUSTER_SIZE then MAX_CLUSTER_SIZE else rc_Size rc"
  have len: "unat (rc_Size rc) = length (rc_Members rc)"
    using assms(2) by (simp add: rc_Size_def unat_of_nat)
  have "rc_Size rc > MAX_CLUSTER_SIZE \<longleftrightarrow> 64 < length (rc_Members rc)"
    unfolding word_less_nat_alt len by (simp add: MAX_CLUSTER_SIZE_def)
  then have size: "unat ?size = n"
    by (simp add: n_def len MAX_CLUSTER_SIZE_def)
  define send where "send = bm_Intersection L which (bm_LowNMap L n)"
  have n: "n \<le> 64" "n \<le> length (rc_Members rc)" by (simp_all add: n_def)
  have bits: "bit send i \<longleftrightarrow> bit which i" if "i < n" for i
    using that n bitmaps_okD(1) [OF assms(1) n(1)] by (simp add: send_def bitmaps_okD(2) [OF assms(1)] bit_and_iff)
  have f: "filter (bit send) [0..<n] = filter (bit which) [0..<n]"
    using bits by (intro filter_cong) auto
  have ok: "\<forall>i \<in> set [0..<n]. i < 64 \<and> (\<exists>t. ci_Token L (rc_Members rc ! i) = Inr t)"
    using n assms(3) by auto
  have run: "get_members L rc which = get_loop L (rc_Members rc) send [0..<n] None 0"
    by (simp only: get_members_def Let_def size send_def)
  note r = get_loop_result [OF assms(1) ok, of send None 0, unfolded f]
  show "map Inr (slice_of (fst (get_members L rc which))) =
      map (\<lambda>i. ci_Token L (rc_Members rc ! i)) (filter (bit which) [0..<n])"
    using r by (simp add: run)
  show "snd (get_members L rc which) = which AND mask n"
  proof (rule bit_word_eqI)
    fix j :: nat assume "j < LENGTH(64)"
    then show "bit (snd (get_members L rc which)) j = bit (which AND mask n) j"
      unfolding run conjunct2 [OF r] bit_fold_set using n by (auto simp: bit_and_iff bit_mask_iff)
  qed
qed

section \<open>Properties\<close>

text \<open>A handler on which a message has arrived.\<close>

definition ref_handler :: "ClientInfo option \<Rightarrow> nat \<Rightarrow> XLRegMsg \<Rightarrow> InHandler" where
  "ref_handler cl st msg = \<lparr>ih_thisClient = cl, ih_cluster = None, ih_version = 0, ih_known = 0,
     ih_entryState = st, ih_exitState = st, ih_msgIn = Some msg, ih_msgOut = None, ih_errOut = None\<rparr>"

definition ref_registry2 :: "((bytes \<times> hval) list, bytes list) Registry" where
  "ref_registry2 = ref_registry1\<lparr>reg_heap := [ref_cluster 9 [ref_client ''al'' 1, ref_client ''bob'' 2]]\<rparr>"

text \<open>C20. A Get for a known cluster answers with exactly the members that were asked for and exist, in
  the order they joined: bit \<open>i\<close> of the reply is set when bit \<open>i\<close> of the request is and there is an
  \<open>i\<close>-th member (of the first 64), and the tokens are those members' tokens. A request
  without a bit map has no bits, and so gets no tokens. The registry is not changed.\<close>

theorem get_reply:
  assumes "bitmaps_ok L" and "NewBytesKey L (slice_of (GetClusterID (ih_msgIn h))) = (k, None)"
    and "ha_Find L (reg_ClustersByID reg) k = (Some (HCluster c), None)"
    and "length (rc_Members (get_cluster reg c)) < 2 ^ 32"
    and "\<forall>m \<in> set (rc_Members (get_cluster reg c)). \<exists>t. ci_Token L m = Inr t"
  defines "n \<equiv> min 64 (length (rc_Members (get_cluster reg c)))"
  shows "\<exists>ts. doGetMsg L reg h =
       Ret (reg, h\<lparr>ih_msgOut := Some (zeroMsg\<lparr>msg_Op := Some XLRegMsg_ClusterMembers,
                       msg_ClusterID := GetClusterID (ih_msgIn h),
                       msg_Which := Some (GetWhich (ih_msgIn h) AND mask n), msg_Tokens := ts\<rparr>),
                     ih_exitState := JOIN_RCVD, ih_errOut := None\<rparr>)
     \<and> map Inr (slice_of ts) = map (\<lambda>i. ci_Token L (rc_Members (get_cluster reg c) ! i))
                                   (filter (bit (GetWhich (ih_msgIn h))) [0..<n])"
proof -
  note r = get_members_result [OF assms(1,4,5), of "GetWhich (ih_msgIn h)", folded n_def]
  obtain ts w where g: "get_members L (get_cluster reg c) (GetWhich (ih_msgIn h)) = (ts, w)" by fastforce
  have "doGetMsg L reg h =
       Ret (reg, h\<lparr>ih_msgOut := Some (zeroMsg\<lparr>msg_Op := Some XLRegMsg_ClusterMembers,
                       msg_ClusterID := GetClusterID (ih_msgIn h), msg_Which := Some w, msg_Tokens := ts\<rparr>),
                     ih_exitState := JOIN_RCVD, ih_errOut := None\<rparr>)"
    by (simp add: doGetMsg_def Let_def assms(2,3) g del: msg_getters)
  with r g show ?thesis by (intro exI [of _ ts] conjI) (simp_all del: msg_getters)
qed

abbreviation hlib :: "((bytes \<times> hval) list, hval, bytes list, u32) serverlib" where
  "hlib \<equiv> reflib []"

theorem get_reply_witness:
  "\<exists>ts. doGetMsg hlib ref_registry2 (ref_handler None 3 (zeroMsg\<lparr>msg_ClusterID := Some (ref_id 9), msg_Which := Some 6\<rparr>)) =
       Ret (ref_registry2, (ref_handler None 3 (zeroMsg\<lparr>msg_ClusterID := Some (ref_id 9), msg_Which := Some 6\<rparr>))
         \<lparr>ih_msgOut := Some (zeroMsg\<lparr>msg_Op := Some 10, msg_ClusterID := Some (ref_id 9), msg_Which := Some 2, msg_Tokens := ts\<rparr>),
          ih_exitState := 3, ih_errOut := None\<rparr>)
     \<and> map Inr (slice_of ts) = [ci_Token hlib (ref_client ''bob'' 2)]"
proof -
  let ?h = "ref_handler None 3 (zeroMsg\<lparr>msg_ClusterID := Some (ref_id 9), msg_Which := Some 6\<rparr>)"
  have cl: "rc_Members (get_cluster ref_registry2 0) = [ref_client ''al'' 1, ref_client ''bob'' 2]"
    by (simp add: ref_registry2_def get_cluster_def ref_cluster_def)
  have n: "min 64 (length (rc_Members (get_cluster ref_registry2 0))) = 2" by (simp add: cl)
  have bits: "filter (bit (6 :: u64)) [0..<2] = [1]" "(6 :: u64) AND mask 2 = 2"
    by (simp_all add: upt_rec mask_eq_exp_minus_1)
  have "\<exists>ts. doGetMsg hlib ref_registry2 ?h =
       Ret (ref_registry2, ?h\<lparr>ih_msgOut := Some (zeroMsg\<lparr>msg_Op := Some 10,
                       msg_ClusterID := GetClusterID (ih_msgIn ?h),
                       msg_Which := Some (GetWhich (ih_msgIn ?h) AND mask (min 64 (length (rc_Members (get_cluster ref_registry2 0))))),
                       msg_Tokens := ts\<rparr>), ih_exitState := 3, ih_errOut := None\<rparr>)
     \<and> map Inr (slice_of ts) = map (\<lambda>i. ci_Token hlib (rc_Members (get_cluster ref_registry2 0) ! i))
          (filter (bit (GetWhich (ih_msgIn ?h))) [0..<min 64 (length (rc_Members (get_cluster ref_registry2 0)))])"
    by (rule get_reply [where k = "ref_id 9"])
      (simp_all add: cl ref_handler_def, simp_all add: ref_registry2_def ref_registry1_def ci_Token_def ref_client_def ref_ToWire_def ref_pub_def)
  then show ?thesis
    unfolding n by (simp add: cl bits ref_handler_def)
qed

text \<open>A Join for a cluster that does not exist crashes the server instead of being answered with an
  error: for an unknown name, for an unknown ID, and for no name and no ID in a session without a
  cluster, the handler dereferences a nil cluster.\<close>

theorem join_unknown_panics:
  assumes "ih_thisClient h \<noteq> None"
    and "GetClusterID (ih_msgIn h) = None \<and> GetClusterName (ih_msgIn h) \<noteq> []
           \<and> reg_ClustersByName reg (GetClusterName (ih_msgIn h)) = None
       \<or> GetClusterID (ih_msgIn h) = Some b \<and> NewBytesKey L b = (k, None)
           \<and> fst (ha_Find L (reg_ClustersByID reg) k) = None
       \<or> GetClusterID (ih_msgIn h) = None \<and> GetClusterName (ih_msgIn h) = [] \<and> ih_cluster h = None"
  shows "doJoinMsg L reg h = Panic NilDereference"
proof -
  obtain m where m: "ih_thisClient h = Some m" using assms(1) by blast
  have "\<exists>err. join_cluster L reg h (GetClusterName (ih_msgIn h)) (GetClusterID (ih_msgIn h)) = Ret (None, err)"
    using assms(2) by (elim disjE conjE) (simp_all add: join_cluster_def del: msg_getters)
  then show ?thesis by (auto simp: doJoinMsg_def m Let_def simp del: msg_getters)
qed

theorem join_unknown_panics_witness:
  "doJoinMsg (reflib []) ref_registry1
     (ref_handler (Some (ref_client ''al'' 1)) 1 (zeroMsg\<lparr>msg_ClusterName := Some ''none''\<rparr>)) = Panic NilDereference"
  by (rule join_unknown_panics [where b = "[]" and k = "[]"])
    (simp_all add: ref_handler_def ref_registry1_def ref_registry_def zeroMsg_def)

text \<open>A client whose signature does not verify is not registered: the handler reports the library's
  error, and neither the registry nor the session's client changes.\<close>

theorem client_forged:
  fixes h :: "'x InHandler_scheme"
  defines "specs \<equiv> GetMemberSpecs (ih_msgIn h)"
  assumes "RSAPubKeyFromWire L (Token_GetCommsKey specs) = Inr ck"
    and "RSAPubKeyFromWire L (Token_GetSigKey specs) = Inr sk"
    and "VerifyPKCS1v15 L sk (client_hash L (Token_GetName specs) (Token_GetAttrs specs)
           (Token_GetCommsKey specs) (Token_GetSigKey specs) (Token_GetMyEnds specs)) (Token_GetDigSig specs) = Some e"
  shows "doClientMsg L reg h = Ret (reg, h\<lparr>ih_errOut := Some (Ext e)\<rparr>)"
  using assms(2-4) unfolding specs_def by (simp add: doClientMsg_def client_keys_def Let_def del: token_getters msg_getters)

theorem client_forged_witness:
  "let h = ref_handler None 0 (zeroMsg\<lparr>msg_MemberSpecs := Some \<lparr>tok_Name = Some ''al'', tok_Attrs = None,
         tok_ID = None, tok_CommsKey = Some [33], tok_SigKey = Some [33], tok_MyEnds = None, tok_DigSig = None\<rparr>\<rparr>)
   in doClientMsg (reflib []) (ref_registry []) h = Ret (ref_registry [], h\<lparr>ih_errOut := Some (Ext ''verification error'')\<rparr>)"
  unfolding Let_def by (rule client_forged) (simp_all add: ref_handler_def ref_FromWire_def)

text \<open>C21. A Create for a name that is in use answers with the properties of the existing cluster, whatever
  sizes and attributes were asked for, and changes nothing else: no cluster is made, and the
  session's own cluster stays as it was.\<close>

theorem create_existing_reply:
  assumes "nodeids_ok L" and "reg_ClustersByName reg (GetClusterName (ih_msgIn h)) = Some c"
    and "rc_ID (get_cluster reg c) = Some b" and "valid_id b"
  shows "doCreateMsg L reg h =
     Ret (reg, h\<lparr>ih_msgOut := Some (create_reply b (rc_maxSize (get_cluster reg c))
                     (rc_Attrs (get_cluster reg c)) (rc_epCount (get_cluster reg c))),
                  ih_exitState := CREATE_REQUEST_RCVD, ih_errOut := None\<rparr>)"
  using nodeids_okD(1) [OF assms(1,4)] assms(2,3)
  by (simp add: doCreateMsg_def create_existing_def Let_def xi_New_or_random_def del: msg_getters)

theorem create_existing_reply_witness:
  "let h = ref_handler (Some (ref_client ''al'' 1)) 1 (zeroMsg\<lparr>msg_ClusterName := Some ''club'', msg_ClusterMaxSize := Some 40\<rparr>)
   in doCreateMsg (reflib []) ref_registry1 h =
      Ret (ref_registry1, h\<lparr>ih_msgOut := Some (create_reply (ref_id 9) 2 5 1), ih_exitState := 2, ih_errOut := None\<rparr>)"
proof -
  have "get_cluster ref_registry1 0 = ref_cluster 9 []" by (simp add: ref_registry1_def ref_registry_def get_cluster_def)
  then show ?thesis
    unfolding Let_def by (subst create_existing_reply [where c = 0 and b = "ref_id 9"])
      (simp_all add: ref_handler_def ref_registry1_def ref_cluster_def)
qed

end
