(* ===== verification/CnxHandler.thy ===== *)
theory CnxHandler
  imports RefLib
begin

text \<open>
  The connection of a session (\<open>cnxHandler.go\<close>): reading and writing raw data, and encoding with
  protocol buffers under AES encryption.
\<close>

section \<open>The connection\<close>

text \<open>
  A TCP connection as its user sees it: what the calls of \<open>Read\<close> will return, which is data and an
  error or nil; what the calls of \<open>Write\<close> will return; the data written so far; and whether
  \<open>Close\<close> was called. \<open>Read\<close> fills at most the buffer it is given and keeps the rest for the next
  call; at the end of the stream it returns \<open>io.EOF\<close>. A peer that neither sends nor closes, so that a
  call of \<open>Read\<close> does not return, has no representation here: the code sets no deadlines, and in that case it
  waits.
\<close>

record TcpConnection =
  cx_in :: "(bytes \<times> gerror option) list"
  cx_writes :: "gerror option list"
  cx_out :: "bytes list"
  cx_closed :: bool

definition MSG_BUF_LEN :: nat where "MSG_BUF_LEN = 16 * 1024"

fun read_some :: "nat \<Rightarrow> (bytes \<times> gerror option) list \<Rightarrow> (bytes \<times> gerror option) \<times> (bytes \<times> gerror option) list" where
  "read_some n [] = (([], Some IoEOF), [])"
| "read_some n ((b, e) # es) =
     (if length b \<le> n then ((b, e), es) else ((take n b, None), (drop n b, e) # es))"

definition Cnx_Read :: "nat \<Rightarrow> TcpConnection \<Rightarrow> (bytes \<times> gerror option) \<times> TcpConnection" where
  "Cnx_Read n cnx = (case read_some n (cx_in cnx) of (r, es) \<Rightarrow> (r, cnx\<lparr>cx_in := es\<rparr>))"

definition Cnx_Write :: "bytes \<Rightarrow> TcpConnection \<Rightarrow> gerror option \<times> TcpConnection" where
  "Cnx_Write data cnx =
     (case cx_writes cnx of
        [] \<Rightarrow> (None, cnx\<lparr>cx_out := cx_out cnx @ [data]\<rparr>)
      | None # ws \<Rightarrow> (None, cnx\<lparr>cx_out := cx_out cnx @ [data], cx_writes := ws\<rparr>)
      | Some e # ws \<Rightarrow> (Some e, cnx\<lparr>cx_writes := ws\<rparr>))"

definition Cnx_Close :: "TcpConnection \<Rightarrow> TcpConnection" where
  "Cnx_Close cnx = cnx\<lparr>cx_closed := True\<rparr>"

section \<open>Operations\<close>

definition NewCnxHandler :: "TcpConnection option \<Rightarrow> gerror + TcpConnection" where
  "NewCnxHandler cnx = (case cnx of None \<Rightarrow> Inl BadOrNilCnx | Some c \<Rightarrow> Inr c)"

definition ReadData :: "TcpConnection \<Rightarrow> bytes option \<times> gerror option \<times> TcpConnection" where
  "ReadData cnx =
     (case Cnx_Read MSG_BUF_LEN cnx of
        ((data, err), cnx) \<Rightarrow>
          if (err = None \<or> err = Some IoEOF) \<and> length data > 0
          then (Some data, err, cnx) else (None, err, cnx))"

definition WriteData :: "bytes \<Rightarrow> TcpConnection \<Rightarrow> gerror option \<times> TcpConnection" where
  "WriteData data cnx = Cnx_Write data cnx"

definition DecodePacket :: "('h, 'v, 'b, 's, 'z) serverlib_scheme \<Rightarrow> bytes \<Rightarrow> gerror + XLRegMsg" where
  "DecodePacket L data = ext (proto_Unmarshal L data)"

definition EncodePacket :: "('h, 'v, 'b, 's, 'z) serverlib_scheme \<Rightarrow> XLRegMsg \<Rightarrow> gerror + bytes" where
  "EncodePacket L msg = ext (proto_Marshal L msg)"

definition EncodePadEncrypt ::
  "('h, 'v, 'b, 's, 'z) serverlib_scheme \<Rightarrow> 's \<Rightarrow> XLRegMsg \<Rightarrow> 's \<times> (gerror + bytes)" where
  "EncodePadEncrypt L s msg =
     (case EncodePacket L msg of
        Inl e \<Rightarrow> (s, Inl e)
      | Inr cData \<Rightarrow> (case aes_Encrypt L s cData of (s, r) \<Rightarrow> (s, ext r)))"

definition DecryptUnpadDecode ::
  "('h, 'v, 'b, 's, 'z) serverlib_scheme \<Rightarrow> 's \<Rightarrow> bytes \<Rightarrow> gerror + XLRegMsg" where
  "DecryptUnpadDecode L s pCiphertext =
     (case ext (aes_Decrypt L s pCiphertext) of
        Inl e \<Rightarrow> Inl e
      | Inr plaintext \<Rightarrow> DecodePacket L plaintext)"

section \<open>A message through the connection\<close>

text \<open>
  What the two ends rely on: a message survives marshalling, and what one end of a session
  encrypts the other end decrypts.
\<close>

definition wire_ok :: "('h, 'v, 'b, 's, 'z) serverlib_scheme \<Rightarrow> XLRegMsg \<Rightarrow> bool" where
  "wire_ok L m \<longleftrightarrow> (\<forall>b. proto_Marshal L m = Inr b \<longrightarrow> proto_Unmarshal L b = Inr m)"

definition sessions_match :: "('h, 'v, 'b, 's, 'z) serverlib_scheme \<Rightarrow> 's \<Rightarrow> 's \<Rightarrow> bool" where
  "sessions_match L s t \<longleftrightarrow>
     (\<forall>p c s'. aes_Encrypt L s p = (s', Inr c) \<longrightarrow> aes_Decrypt L t c = Inr p)"

lemma decode_encoded:
  assumes "wire_ok L m" and "sessions_match L s t" and "EncodePadEncrypt L s m = (s', Inr c)"
  shows "DecryptUnpadDecode L t c = Inr m"
proof -
  obtain b where b: "proto_Marshal L m = Inr b" "aes_Encrypt L s b = (s', Inr c)"
    using assms(3) by (auto simp: EncodePadEncrypt_def EncodePacket_def ext_def split: sum.splits prod.splits)
  then have "aes_Decrypt L t c = Inr b" using assms(2) unfolding sessions_match_def by blast
  moreover have "proto_Unmarshal L b = Inr m" using assms(1) b(1) unfolding wire_ok_def by blast
  ultimately show ?thesis by (simp add: DecryptUnpadDecode_def DecodePacket_def)
qed

end
