(* ===== verification/InHandler.thy ===== *)
theory InHandler
  imports MsgHandlers CnxHandler
begin

text \<open>
  The connection handler of the server (\<open>in_handler.go\<close>): the dispatch table, the hello that opens a
  session, and the loop that reads a message, dispatches on the state of the connection and the
  message's tag, and sends the reply.
\<close>

section \<open>Dispatch\<close>

abbreviation (input) "MIN_TAG \<equiv> (0 :: int)"
abbreviation (input) "MAX_TAG \<equiv> (4 :: int)"

text \<open>The subtraction is on \<open>int32\<close> and wraps; the division is on \<open>int\<close> and rounds towards zero.\<close>

definition op2tag :: "XLRegMsg_Tag \<Rightarrow> int" where
  "op2tag op = go_div (sint (op - XLRegMsg_Member)) 2"

definition msgHandlers ::
  "('h, hval, 'b, 'z) reglib_scheme \<Rightarrow>
   (('h, 'b) Registry \<Rightarrow> 'x InHandler_scheme \<Rightarrow> (('h, 'b) Registry \<times> 'x InHandler_scheme) outcome) list list" where
  "msgHandlers L =
     [[doClientMsg L, badCombo, badCombo, badCombo, doByeMsg],
      [badCombo, doCreateMsg L, doJoinMsg L, badCombo, doByeMsg],
      [badCombo, badCombo, doJoinMsg L, badCombo, doByeMsg],
      [badCombo, badCombo, badCombo, doGetMsg L, doByeMsg]]"

text \<open>\<open>msgHandlers[h.entryState][tag](h)\<close>, with Go's checks of the two indexes.\<close>

definition dispatch ::
  "('h, hval, 'b, 'z) reglib_scheme \<Rightarrow> int \<Rightarrow> ('h, 'b) Registry \<Rightarrow> 'x InHandler_scheme \<Rightarrow>
   (('h, 'b) Registry \<times> 'x InHandler_scheme) outcome" where
  "dispatch L tag reg h =
     (case index2 (msgHandlers L) (ih_entryState h) tag of
        None \<Rightarrow> Panic IndexOutOfRange
      | Some f \<Rightarrow> f reg h)"

text \<open>An error set by the handler becomes an error message, and the connection is to be closed.\<close>

definition error_reply :: "'x InHandler_scheme \<Rightarrow> 'x InHandler_scheme" where
  "error_reply h =
     (case ih_errOut h of
        None \<Rightarrow> h
      | Some e \<Rightarrow>
          h\<lparr>ih_msgOut := Some (zeroMsg\<lparr>msg_Op := Some XLRegMsg_Error, msg_ErrDesc := Some (ErrorText e)\<rparr>),
            ih_errOut := None, ih_exitState := IN_CLOSED\<rparr>)"

text \<open>
  One turn of the loop, from the decoded message to the reply. A tag out of range sets an error,
  but the table is indexed with it all the same.
\<close>

definition handle_message ::
  "('h, hval, 'b, 'z) reglib_scheme \<Rightarrow> XLRegMsg \<Rightarrow> ('h, 'b) Registry \<Rightarrow> 'x InHandler_scheme \<Rightarrow>
   (('h, 'b) Registry \<times> 'x InHandler_scheme) outcome" where
  "handle_message L msg reg h =
     (let h = h\<lparr>ih_msgIn := Some msg\<rparr>;
          tag = op2tag (GetOp (ih_msgIn h));
          h = (if tag < MIN_TAG \<or> tag > MAX_TAG then h\<lparr>ih_errOut := Some TagOutOfRange\<rparr> else h)
      in obind (dispatch L tag reg h) (\<lambda>(reg, h). Ret (reg, error_reply h)))"

section \<open>The session\<close>

record 's SessionHandler = InHandler +
  ih_Session :: 's

text \<open>\<open>NewInHandler\<close>: the zero values of the structure.\<close>

definition new_handler :: "('h, 'v, 'b, 's, 'z) serverlib_scheme \<Rightarrow> 's SessionHandler" where
  "new_handler L = \<lparr>ih_thisClient = None, ih_cluster = None, ih_version = 0, ih_known = 0,
     ih_entryState = HELLO_RCVD, ih_exitState = HELLO_RCVD, ih_msgIn = None, ih_msgOut = None,
     ih_errOut = None, ih_Session = AesSession_zero L\<rparr>"

definition NewInHandler ::
  "('h, 'v, 'b, 's, 'z) serverlib_scheme \<Rightarrow> ('h2, 'b2) Registry option \<Rightarrow> TcpConnection option \<Rightarrow>
   gerror + ('s SessionHandler \<times> TcpConnection)" where
  "NewInHandler L reg conn =
     (if reg = None then Inl NilRegistry
      else if conn = None then Inl (Ext ''NilConnection'')
      else case NewCnxHandler conn of Inl e \<Rightarrow> Inl e | Inr cnx \<Rightarrow> Inr (new_handler L, cnx))"

text \<open>
  \<open>handleHello\<close>: the errors of the reply are those of an inner variable, so they are neither
  returned nor do they close the connection; the session is then the zero value, or the one made
  for a reply that was not sent.
\<close>

definition handleHello ::
  "('h, 'v, 'b, 's, 'z) serverlib_scheme \<Rightarrow> u32 \<Rightarrow> RegNode \<Rightarrow> 's SessionHandler \<Rightarrow> TcpConnection \<Rightarrow>
   's SessionHandler \<times> TcpConnection \<times> gerror option" where
  "handleHello L serverVersion rn h cnx =
     (case ReadData cnx of
        (data, Some e, cnx) \<Rightarrow> (h, Cnx_Close cnx, Some e)
      | (data, None, cnx) \<Rightarrow>
     (case ext (ServerDecryptHello L (slice_of data) (rn_ckPriv rn)) of
        Inl e \<Rightarrow> (h, Cnx_Close cnx, Some e)
      | Inr (sOneShot, version1) \<Rightarrow>
     (case ext (ServerEncryptHelloReply L sOneShot serverVersion) of
        Inl e \<Rightarrow> (h, cnx, None)
      | Inr (sSession, ciphertextOut) \<Rightarrow>
     (let h = h\<lparr>ih_Session := sSession\<rparr>
      in case WriteData ciphertextOut cnx of
           (Some e, cnx) \<Rightarrow> (h, cnx, None)
         | (None, cnx) \<Rightarrow> (h\<lparr>ih_version := serverVersion\<rparr>, cnx, None)))))"

text \<open>Sending the reply. An error is logged and is the one that the loop returns if it ends here.\<close>

definition send_reply ::
  "('h, 'v, 'b, 's, 'z) serverlib_scheme \<Rightarrow> 's SessionHandler \<Rightarrow> TcpConnection \<Rightarrow>
   's SessionHandler \<times> TcpConnection \<times> gerror option" where
  "send_reply L h cnx =
     (case ih_msgOut h of
        None \<Rightarrow> (h, cnx, None)
      | Some msg \<Rightarrow>
          (case EncodePadEncrypt L (ih_Session h) msg of
             (s, Inl e) \<Rightarrow> (h\<lparr>ih_Session := s\<rparr>, cnx, Some e)
           | (s, Inr ciphertext) \<Rightarrow>
               (case WriteData ciphertext cnx of (err, cnx) \<Rightarrow> (h\<lparr>ih_Session := s\<rparr>, cnx, err))))"

text \<open>The message loop of \<open>Start\<close>.\<close>

partial_function (option) start_loop ::
  "('h, hval, 'b, 's, 'z) serverlib_scheme \<Rightarrow> ('h, 'b) Registry \<Rightarrow> 's SessionHandler \<Rightarrow> TcpConnection \<Rightarrow>
   (('h, 'b) Registry \<times> 's SessionHandler \<times> TcpConnection \<times> gerror option) outcome option" where
  "start_loop L reg h cnx =
     (case ReadData cnx of
        (data, Some e, cnx) \<Rightarrow> Some (Ret (reg, h, cnx, Some e))
      | (data, None, cnx) \<Rightarrow>
     (case DecryptUnpadDecode L (ih_Session h) (slice_of data) of
        Inl e \<Rightarrow> Some (Ret (reg, h, cnx, Some e))
      | Inr msg \<Rightarrow>
     (case handle_message L msg reg h of
        Panic p \<Rightarrow> Some (Panic p)
      | Hang \<Rightarrow> Some Hang
      | Ret (reg, h) \<Rightarrow>
     (case send_reply L h cnx of (h, cnx, err) \<Rightarrow>
     (let h = h\<lparr>ih_entryState := ih_exitState h\<rparr>
      in if ih_exitState h = IN_CLOSED then Some (Ret (reg, h, cnx, err))
         else start_loop L reg h cnx)))))"

definition Start ::
  "('h, hval, 'b, 's, 'z) serverlib_scheme \<Rightarrow> u32 \<Rightarrow> ('h, 'b) Registry \<Rightarrow> 's SessionHandler \<Rightarrow> TcpConnection \<Rightarrow>
   (('h, 'b) Registry \<times> 's SessionHandler \<times> TcpConnection \<times> gerror option) outcome" where
  "Start L serverVersion reg h cnx =
     (case handleHello L serverVersion (reg_RegNode reg) h cnx of
        (h, cnx, Some e) \<Rightarrow> Ret (reg, h, Cnx_Close cnx, Some e)
      | (h, cnx, None) \<Rightarrow>
          obind (of_loop (start_loop L reg h cnx))
            (\<lambda>(reg, h, cnx, err). Ret (reg, h, Cnx_Close cnx, err)))"

section \<open>The loop ends\<close>

text \<open>Every turn of the message loop uses up input: a read takes an event or some of its bytes.\<close>

definition input_size :: "TcpConnection \<Rightarrow> nat" where
  "input_size cnx = sum_list (map (\<lambda>(b, e). Suc (length b)) (cx_in cnx))"

lemma read_some_shrinks:
  "read_some n es = ((b, None), es') \<Longrightarrow> 0 < n \<Longrightarrow>
     sum_list (map (\<lambda>(b, e). Suc (length b)) es') < sum_list (map (\<lambda>(b, e). Suc (length b)) es)"
  by (cases "(n, es)" rule: read_some.cases) (auto split: if_splits)

lemma ReadData_shrinks: "ReadData cnx = (data, None, cnx') \<Longrightarrow> input_size cnx' < input_size cnx"
  using read_some_shrinks [of MSG_BUF_LEN "cx_in cnx"]
  by (auto simp: ReadData_def Cnx_Read_def input_size_def MSG_BUF_LEN_def split: prod.splits if_splits)

lemma send_reply_input: "send_reply L h cnx = (h', cnx', err) \<Longrightarrow> input_size cnx' = input_size cnx"
  by (auto simp: send_reply_def WriteData_def Cnx_Write_def input_size_def
      split: option.splits prod.splits sum.splits list.splits)

lemma start_loop_ends: "\<exists>r. start_loop L reg h cnx = Some r"
proof (induction "input_size cnx" arbitrary: reg h cnx rule: less_induct)
  case less
  obtain data err cnx1 where rd: "ReadData cnx = (data, err, cnx1)" by (metis prod_cases3)
  show ?case
  proof (cases err)
    case (Some e)
    with rd show ?thesis by (subst start_loop.simps) simp
  next
    case None
    with rd have small: "input_size cnx1 < input_size cnx" using ReadData_shrinks by blast
    show ?thesis
    proof (cases "DecryptUnpadDecode L (ih_Session h) (slice_of data)")
      case (Inl e)
      with rd None show ?thesis by (subst start_loop.simps) simp
    next
      case (Inr msg)
      show ?thesis
      proof (cases "handle_message L msg reg h")
        case (Ret r)
        obtain reg1 h1 where r: "r = (reg1, h1)" by fastforce
        obtain h2 cnx2 err2 where s: "send_reply L h1 cnx1 = (h2, cnx2, err2)" by (metis prod_cases3)
        have "\<exists>r. start_loop L reg1 (h2\<lparr>ih_entryState := ih_exitState h2\<rparr>) cnx2 = Some r"
          using less small send_reply_input [OF s] by simp
        with rd None Inr Ret r s show ?thesis by (subst start_loop.simps) (simp add: Let_def)
      qed (use rd None Inr in \<open>subst start_loop.simps, simp\<close>)+
    qed
  qed
qed

end
