(* ===== verification/SharedState.thy ===== *)
theory SharedState
  imports MsgHandlers
begin

text \<open>
  What the sessions of a registry share and how it evolves. Three facts about every operation that
  a handler uses: it keeps the registry's invariant, it only adds (no ID is forgotten, no cluster
  is removed, changes its identity or loses a member), and it keeps what the other sessions rely
  on. The contract is a locale, interpreted on the handlers in the theory of the sessions.
\<close>

section \<open>The invariant\<close>

definition known :: "('h, hval, 'b, 'z) reglib_scheme \<Rightarrow> ('h, 'b) Registry \<Rightarrow> bytes \<Rightarrow> bool" where
  "known L reg b \<longleftrightarrow> bf_IsMember L (reg_idFilter reg) b = Inr True"

text \<open>
  The IDs of the clusters are legal, different from each other and in the filter, and so are the
  IDs of their members.
\<close>

definition cluster_known :: "('h, hval, 'b, 'z) reglib_scheme \<Rightarrow> ('h, 'b) Registry \<Rightarrow> 'h RegCluster \<Rightarrow> bool" where
  "cluster_known L reg rc \<longleftrightarrow> valid_id (slice_of (rc_ID rc)) \<and> known L reg (slice_of (rc_ID rc))
     \<and> (\<forall>m \<in> set (rc_Members rc). known L reg (ci_ID m))"

definition srv_inv :: "('h, hval, 'b, 'z) reglib_scheme \<Rightarrow> ('h, 'b) Registry \<Rightarrow> bool" where
  "srv_inv L reg \<longleftrightarrow> reg_inv L reg \<and> distinct (map rc_ID (reg_heap reg))
     \<and> (\<forall>rc \<in> set (reg_heap reg). cluster_known L reg rc)"

section \<open>Growth\<close>

definition cluster_le :: "'h RegCluster \<Rightarrow> 'h RegCluster \<Rightarrow> bool" where
  "cluster_le a b \<longleftrightarrow> rc_Name b = rc_Name a \<and> rc_ID b = rc_ID a \<and> rc_Attrs b = rc_Attrs a
     \<and> rc_maxSize b = rc_maxSize a \<and> rc_epCount b = rc_epCount a
     \<and> (\<exists>ms. rc_Members b = rc_Members a @ ms)"

definition reg_le :: "('h, hval, 'b, 'z) reglib_scheme \<Rightarrow> ('h, 'b) Registry \<Rightarrow> ('h, 'b) Registry \<Rightarrow> bool" where
  "reg_le L r s \<longleftrightarrow> (\<forall>b. known L r b \<longrightarrow> known L s b)
     \<and> (\<exists>cs. reg_Clusters s = reg_Clusters r @ cs)
     \<and> length (reg_heap r) \<le> length (reg_heap s)
     \<and> (\<forall>c < length (reg_heap r). cluster_le (get_cluster r c) (get_cluster s c))"

lemma cluster_le_refl [simp]: "cluster_le a a"
  by (simp add: cluster_le_def)

lemma cluster_le_trans: "cluster_le a b \<Longrightarrow> cluster_le b c \<Longrightarrow> cluster_le a c"
  by (auto simp: cluster_le_def)

lemma reg_le_refl [simp]: "reg_le L r r"
  by (simp add: reg_le_def)

lemma reg_le_trans: "reg_le L r s \<Longrightarrow> reg_le L s t \<Longrightarrow> reg_le L r t"
  unfolding reg_le_def
  by (elim conjE exE, intro conjI)
    (blast, metis append_assoc, simp, meson cluster_le_trans less_le_trans)

lemma reg_le_filter:
  assumes "\<And>b. known L r b \<Longrightarrow> known L s b" and "reg_Clusters s = reg_Clusters r" and "reg_heap s = reg_heap r"
  shows "reg_le L r s"
  using assms by (simp add: reg_le_def get_cluster_def)

section \<open>Changes of the filter\<close>

lemma reg_inv_cong:
  assumes "reg_inv L r" and "reg_Clusters s = reg_Clusters r" and "reg_heap s = reg_heap r"
    and "reg_ClustersByName s = reg_ClustersByName r" and "reg_ClustersByID s = reg_ClustersByID r"
  shows "reg_inv L s"
proof -
  have "get_cluster s = get_cluster r" by (simp add: fun_eq_iff get_cluster_def assms(3))
  then have "reg_name s = reg_name r" by (simp add: fun_eq_iff reg_name_def)
  with \<open>get_cluster s = get_cluster r\<close> assms show ?thesis
    by (simp add: reg_inv_def reg_index_inv_def reg_names_inv_def reg_ids_inv_def)
qed

lemma srv_inv_filter:
  assumes "srv_inv L r" and "\<And>b. known L r b \<Longrightarrow> known L s b"
    and "reg_Clusters s = reg_Clusters r" and "reg_heap s = reg_heap r"
    and "reg_ClustersByName s = reg_ClustersByName r" and "reg_ClustersByID s = reg_ClustersByID r"
  shows "srv_inv L s"
  using assms reg_inv_cong [OF _ assms(3,4,5,6), of L]
  by (auto simp: srv_inv_def cluster_known_def)

lemma InsertUniqueNodeID_step:
  assumes "bloom_ok L" and "srv_inv L r" and "InsertUniqueNodeID L r = Ret (s, n, err)"
  shows "srv_inv L s" and "reg_le L r s" and "reg_heap s = reg_heap r"
    and "err = None \<Longrightarrow> known L s (Value n) \<and> \<not> known L r (Value n)"
proof -
  have *: "srv_inv L s \<and> reg_le L r s \<and> reg_heap s = reg_heap r
      \<and> (err = None \<longrightarrow> known L s (Value n) \<and> \<not> known L r (Value n))"
    using assms(3)
  proof (cases rule: InsertUniqueNodeID_Ret)
    case (failed e d)
    then have "known L r b \<Longrightarrow> known L s b" for b by (simp add: known_def)
    with failed show ?thesis
      by (auto intro: srv_inv_filter [OF assms(2)] reg_le_filter)
  next
    case (fresh d f)
    note b = bloom_okD [OF assms(1) fresh(6)]
    have k: "known L r b \<Longrightarrow> known L s b" for b using b(2) fresh(2) by (simp add: known_def)
    have "srv_inv L s" by (rule srv_inv_filter [OF assms(2) k]) (simp_all add: fresh(2))
    moreover have "reg_le L r s" by (rule reg_le_filter [OF k]) (simp_all add: fresh(2))
    moreover have "\<not> known L r (Value n)"
      using fresh(5) by (auto simp: known_def ContainsID_def)
    ultimately show ?thesis using b(1) fresh(2) by (simp add: known_def)
  qed
  then show "srv_inv L s" and "reg_le L r s" and "reg_heap s = reg_heap r"
    and "err = None \<Longrightarrow> known L s (Value n) \<and> \<not> known L r (Value n)" by simp_all
qed

lemma InsertID_step:
  assumes "bloom_ok L" and "srv_inv L r" and "InsertID L n r = (s, err)"
  shows "srv_inv L s" and "reg_le L r s"
    and "err = None \<or> err = Some IDAlreadyInUse \<Longrightarrow> known L s (Value n)"
proof -
  have *: "srv_inv L s \<and> reg_le L r s \<and> (err = None \<longrightarrow> known L s (Value n))"
  proof (cases rule: InsertID_cases [of L n r])
    case (ok f)
    then have s: "s = r\<lparr>reg_idFilter := f\<rparr>" "err = None" using assms(3) by simp_all
    note b = bloom_okD [OF assms(1) ok(3)]
    have k: "known L r b \<Longrightarrow> known L s b" for b using b(2) s by (simp add: known_def)
    have "srv_inv L s" by (rule srv_inv_filter [OF assms(2) k]) (simp_all add: s)
    moreover have "reg_le L r s" by (rule reg_le_filter [OF k]) (simp_all add: s)
    ultimately show ?thesis using b(1) s by (simp add: known_def)
  qed (use assms(2,3) in simp)
  moreover have "known L s (Value n)" if "err = Some IDAlreadyInUse"
    using assms(3) that by (auto simp: InsertID_def known_def split: sum.splits if_splits)
  ultimately show "srv_inv L s" and "reg_le L r s"
    and "err = None \<or> err = Some IDAlreadyInUse \<Longrightarrow> known L s (Value n)" by auto
qed

section \<open>Changes of the clusters\<close>

lemma reg_inv_heap:
  assumes "reg_inv L r" and "length (reg_heap r) \<le> length (reg_heap s)"
    and "reg_Clusters s = reg_Clusters r" and "reg_ClustersByName s = reg_ClustersByName r"
    and "reg_ClustersByID s = reg_ClustersByID r"
    and same: "\<And>c. c < length (reg_heap r) \<Longrightarrow>
      rc_Name (get_cluster s c) = rc_Name (get_cluster r c) \<and> rc_ID (get_cluster s c) = rc_ID (get_cluster r c)"
    and "\<forall>rc \<in> set (reg_heap s). cluster_inv L rc \<and> rc_ID rc \<noteq> None"
  shows "reg_inv L s"
proof -
  have range: "c < length (reg_heap r)" if "c \<in> set (reg_Clusters r)" for c
    using assms(1) that by (simp add: reg_inv_def)
  have nm: "reg_name s c = reg_name r c" if "c \<in> set (reg_Clusters r)" for c
    using same [OF range [OF that]] by (simp add: reg_name_def)
  have d: "map (reg_name s) (reg_Clusters r) = map (reg_name r) (reg_Clusters r)"
    using nm by (rule map_cong [OF refl])
  have n: "(c \<in> set (reg_Clusters r) \<and> reg_name s c = k) \<longleftrightarrow> (c \<in> set (reg_Clusters r) \<and> reg_name r c = k)" for c k
    using nm by auto
  have i: "(\<exists>c \<in> set (reg_Clusters r). v = HCluster c \<and> rc_ID (get_cluster s c) = Some k) \<longleftrightarrow>
      (\<exists>c \<in> set (reg_Clusters r). v = HCluster c \<and> rc_ID (get_cluster r c) = Some k)" for v k
    using same range by (intro bex_cong refl) auto
  show ?thesis
    using assms(1,2,7) range unfolding reg_inv_def reg_index_inv_def reg_names_inv_def reg_ids_inv_def
      assms(3,4,5) d n i
    by (meson less_le_trans)
qed

lemma AddMember_le: "cluster_le rc (fst (AddMember L m rc))"
  by (cases rule: AddMember_cases [of rc m L]) (simp_all add: cluster_le_def member_insert_fields)

lemma AddMember_members: "set (rc_Members (fst (AddMember L m rc))) \<subseteq> insert m (set (rc_Members rc))"
  by (cases rule: AddMember_cases [of rc m L]) (auto simp: member_insert_fields)

lemma AddMember_step:
  assumes "hamt_ok L" and "srv_inv L r" and "c < length (reg_heap r)" and "known L r (ci_ID m)"
  defines "s \<equiv> put_cluster c (fst (AddMember L m (get_cluster r c))) r"
  shows "srv_inv L s" and "reg_le L r s" and "length (reg_heap s) = length (reg_heap r)"
    and "get_cluster s c = fst (AddMember L m (get_cluster r c))"
proof -
  let ?rc = "get_cluster r c" and ?rc' = "fst (AddMember L m (get_cluster r c))"
  have in_heap: "?rc \<in> set (reg_heap r)" using assms(3) by (simp add: get_cluster_def)
  have get: "get_cluster s d = (if d = c then ?rc' else get_cluster r d)" for d
    using assms(3) by (simp add: s_def put_cluster_def get_cluster_def nth_list_update)
  show len: "length (reg_heap s) = length (reg_heap r)" by (simp add: s_def put_cluster_def)
  show "get_cluster s c = ?rc'" by (simp add: get)
  have heap: "set (reg_heap s) \<subseteq> insert ?rc' (set (reg_heap r))"
    by (simp add: s_def put_cluster_def set_update_subset_insert)
  have kn: "known L s = known L r" by (simp add: fun_eq_iff known_def s_def put_cluster_def)
  have le: "cluster_le ?rc ?rc'" by (rule AddMember_le)
  have "cluster_inv L ?rc' \<and> rc_ID ?rc' \<noteq> None"
    using assms(1,2) in_heap by (auto simp: srv_inv_def reg_inv_def AddMember_frame intro: AddMember_inv)
  then have "\<forall>x \<in> set (reg_heap s). cluster_inv L x \<and> rc_ID x \<noteq> None"
    using heap assms(2) unfolding srv_inv_def reg_inv_def by blast
  then have "reg_inv L s"
    by (intro reg_inv_heap [of L r s])
      (use assms(2) le in \<open>auto simp: srv_inv_def len get cluster_le_def\<close>, simp_all add: s_def put_cluster_def)
  moreover have "map rc_ID (reg_heap s) = map rc_ID (reg_heap r)"
    using le assms(3) by (intro nth_equalityI)
      (auto simp: len s_def put_cluster_def nth_list_update cluster_le_def get_cluster_def)
  moreover have "cluster_known L r ?rc'"
    using assms(2,4) in_heap AddMember_members [of L m ?rc] le
    by (auto simp: srv_inv_def cluster_known_def cluster_le_def)
  then have "\<forall>x \<in> set (reg_heap s). cluster_known L s x"
    using heap assms(2) unfolding srv_inv_def cluster_known_def kn by blast
  ultimately show "srv_inv L s" using assms(2) by (simp add: srv_inv_def)
  show "reg_le L r s"
    using le by (simp add: reg_le_def kn len get) (simp add: s_def put_cluster_def)
qed

lemma new_cluster_step:
  assumes "srv_inv L r" and "cluster_inv L rc" and "rc_ID rc = Some k" and "rc_Members rc = []"
    and "valid_id k" and "known L r k" and "\<forall>x \<in> set (reg_heap r). rc_ID x \<noteq> Some k"
    and "new_cluster rc r = (c, s)"
  shows "srv_inv L s" and "reg_le L r s" and "c < length (reg_heap s)" and "get_cluster s c = rc"
proof -
  have s: "s = r\<lparr>reg_heap := reg_heap r @ [rc]\<rparr>" and c: "c = length (reg_heap r)"
    using assms(8) by (simp_all add: new_cluster_def)
  have get: "get_cluster s d = get_cluster r d" if "d < length (reg_heap r)" for d
    using that by (simp add: s get_cluster_def nth_append)
  have kn: "known L s = known L r" by (simp add: fun_eq_iff known_def s)
  have "reg_inv L s"
    by (rule reg_inv_heap [of L r s]) (use assms(1-3) in \<open>auto simp: get srv_inv_def reg_inv_def\<close>,
      auto simp: s srv_inv_def reg_inv_def)
  moreover have "distinct (map rc_ID (reg_heap s))"
    using assms(1,3,7) by (auto simp: srv_inv_def s)
  moreover have "\<forall>x \<in> set (reg_heap s). cluster_known L s x"
    using assms(1,3-6) by (auto simp: srv_inv_def cluster_known_def kn) (auto simp: s cluster_known_def)
  ultimately show "srv_inv L s" by (simp add: srv_inv_def)
  show "reg_le L r s" by (simp add: reg_le_def kn get) (simp add: s)
  show "c < length (reg_heap s)" by (simp add: s c)
  show "get_cluster s c = rc" by (simp add: s c get_cluster_def)
qed

lemma AddCluster_step:
  assumes "hamt_ok L" and "nodeids_ok L" and "srv_inv L r" and "c < length (reg_heap r)"
    and "AddCluster L (Some c) r = Ret (s, i, err)"
  shows "srv_inv L s" and "reg_le L r s" and "reg_heap s = reg_heap r"
proof -
  note f = AddCluster_frame [OF assms(5)]
  have kn: "known L s = known L r" by (simp add: fun_eq_iff known_def f)
  have "reg_inv L s"
    using assms(1,2,4,5) assms(3) [unfolded srv_inv_def] by (blast intro: AddCluster_inv)
  with assms(3) show "srv_inv L s"
    by (simp add: srv_inv_def cluster_known_def kn f)
  have "\<exists>cs. reg_Clusters s = reg_Clusters r @ cs"
    using assms(5) by (cases rule: AddCluster_cases) (auto simp: cluster_insert_fields)
  then show "reg_le L r s" by (simp add: reg_le_def kn f get_cluster_def)
  show "reg_heap s = reg_heap r" by (rule f(1))
qed

text \<open>The only errors of \<open>InsertUniqueNodeID\<close> are those of the library.\<close>

lemma InsertUniqueNodeID_no_dup:
  assumes "InsertUniqueNodeID L r = Ret (s, n, err)"
  shows "err \<noteq> Some IDAlreadyInUse"
proof -
  have c: "ContainsID L m r \<noteq> Inl IDAlreadyInUse" for m
    by (auto simp: ContainsID_def ext_def split: sum.splits)
  obtain m d e where u: "of_loop (unique_loop L r (reg_draws r)) = Ret (m, d, e)"
    and r: "e = Some x \<Longrightarrow> err = Some x" "e = None \<Longrightarrow> err \<noteq> Some IDAlreadyInUse" for x
    using assms by (auto simp: InsertUniqueNodeID_def obind_Ret_iff Let_def split: option.splits sum.splits)
  obtain k where "Ret (m, d, e) = draw_result L r k"
    using u unique_loop_result [of L r "reg_draws r"]
    by (cases "unique_loop L r (reg_draws r)") auto
  then have "e \<noteq> Some IDAlreadyInUse" using c by (auto simp: draw_result_def split: sum.splits)
  with r show ?thesis by (cases e) auto
qed

lemma InsertUniqueNodeID_clusters:
  "InsertUniqueNodeID L r = Ret (s, n, err) \<Longrightarrow> reg_Clusters s = reg_Clusters r"
  by (cases rule: InsertUniqueNodeID_Ret) auto

end
