(* ===== verification/Sessions.thy ===== *)
theory Sessions
  imports InHandler SharedState Interleave
begin

text \<open>
  The sessions of the server over the shared registry: what a session relies on, that every
  handler keeps it and the registry's invariant, the protocol's state machine, and the
  interleavings of any number of sessions.
\<close>

section \<open>What the libraries must do\<close>

definition libs_ok :: "('h, hval, 'b, 'z) reglib_scheme \<Rightarrow> bool" where
  "libs_ok L \<longleftrightarrow> hamt_ok L \<and> nodeids_ok L \<and> bloom_ok L \<and> basenodes_ok L"

section \<open>What a session relies on\<close>

text \<open>The client's ID is registered, and the pointer to the session's cluster is one.\<close>

definition sess_refs :: "('h, hval, 'b, 'z) reglib_scheme \<Rightarrow> ('h, 'b) Registry \<Rightarrow> 'x InHandler_scheme \<Rightarrow> bool" where
  "sess_refs L reg h \<longleftrightarrow> (\<forall>m. ih_thisClient h = Some m \<longrightarrow> known L reg (ci_ID m))
     \<and> (\<forall>c. ih_cluster h = Some c \<longrightarrow> c < length (reg_heap reg))"

lemma sess_refs_mono: "reg_le L r s \<Longrightarrow> sess_refs L r h \<Longrightarrow> sess_refs L s h"
  by (auto simp: sess_refs_def reg_le_def)

lemma sess_refs_cong [simp]:
  "sess_refs L r (h\<lparr>ih_errOut := e\<rparr>) = sess_refs L r h" "sess_refs L r (h\<lparr>ih_msgIn := i\<rparr>) = sess_refs L r h"
  "sess_refs L r (h\<lparr>ih_msgOut := m\<rparr>) = sess_refs L r h" "sess_refs L r (h\<lparr>ih_exitState := x\<rparr>) = sess_refs L r h"
  "sess_refs L r (h\<lparr>ih_entryState := n\<rparr>) = sess_refs L r h"
  by (simp_all add: sess_refs_def)

text \<open>The outcome of a handler that keeps all of it.\<close>

definition keeps ::
  "('h, hval, 'b, 'z) reglib_scheme \<Rightarrow> ('h, 'b) Registry \<Rightarrow> ('h, 'b) Registry \<times> 'x InHandler_scheme \<Rightarrow> bool" where
  "keeps L r out \<longleftrightarrow> srv_inv L (fst out) \<and> reg_le L r (fst out) \<and> sess_refs L (fst out) (snd out)"

lemma client_node_id_step:
  assumes "libs_ok L" and "srv_inv L r" and "client_node_id L i r = Ret (s, n, err)"
  shows "srv_inv L s" and "reg_le L r s"
    and "err = None \<or> err = Some IDAlreadyInUse \<Longrightarrow> \<exists>m. n = Some m \<and> known L s (Value m)"
proof -
  have B: "bloom_ok L" using assms(1) by (simp add: libs_ok_def)
  have "srv_inv L s \<and> reg_le L r s
      \<and> (err = None \<or> err = Some IDAlreadyInUse \<longrightarrow> (\<exists>m. n = Some m \<and> known L s (Value m)))"
  proof (cases i)
    case None
    then obtain m where m: "InsertUniqueNodeID L r = Ret (s, m, err)" "n = Some m"
      using assms(3) by (auto simp: client_node_id_def go_simps)
    have "err \<noteq> Some IDAlreadyInUse" using m(1)
      by (rule InsertUniqueNodeID_no_dup)
    with InsertUniqueNodeID_step [OF B assms(2) m(1)] m(2) show ?thesis by auto
  next
    case (Some b)
    show ?thesis
    proof (cases "xi_New L b")
      case (Inl e)
      with Some assms(2,3) show ?thesis by (auto simp: client_node_id_def)
    next
      case (Inr m)
      show ?thesis
      proof (cases "ContainsID L m r = Inr False")
        case True
        then have "InsertID L m r = (s, err)" "n = Some m"
          using assms(3) Some Inr by (auto simp: client_node_id_def split: prod.splits)
        with InsertID_step [OF B assms(2) this(1)] show ?thesis by auto
      next
        case False
        then show ?thesis
          using assms(2,3) Some Inr
          by (auto simp: client_node_id_def known_def ContainsID_def ext_def split: sum.splits if_splits)
      qed
    qed
  qed
  then show "srv_inv L s" and "reg_le L r s"
    and "err = None \<or> err = Some IDAlreadyInUse \<Longrightarrow> \<exists>m. n = Some m \<and> known L s (Value m)" by auto
qed

lemma doClientMsg_keeps:
  assumes "libs_ok L" and "srv_inv L r" and "sess_refs L r h" and "doClientMsg L r h = Ret out"
  shows "keeps L r out"
proof (cases "client_keys L (GetMemberSpecs (ih_msgIn h))")
  case (Inl e)
  with assms show ?thesis by (auto simp: doClientMsg_def keeps_def Let_def)
next
  case (Inr p)
  obtain ck sk where p: "p = (ck, sk)" by fastforce
  let ?specs = "GetMemberSpecs (ih_msgIn h)"
  obtain s n err where c: "client_node_id L (Token_GetID ?specs) r = Ret (s, n, err)"
    and run: "(if err = None \<or> err = Some IDAlreadyInUse then
       (case NewClientInfo L (Token_GetName ?specs) n (Some ck) (Some sk) (Token_GetAttrs ?specs) (Token_GetMyEnds ?specs) of
          Inl e \<Rightarrow> Ret (s, h\<lparr>ih_errOut := Some e\<rparr>)
        | Inr cm \<Rightarrow>
            (case n of
               None \<Rightarrow> Panic NilDereference
             | Some m \<Rightarrow>
                 Ret (s, h\<lparr>ih_thisClient := Some cm,
                             ih_msgOut := Some (zeroMsg\<lparr>msg_Op := Some XLRegMsg_MemberOK,
                               msg_MemberID := Some (Value m), msg_MemberAttrs := Some (Token_GetAttrs ?specs)\<rparr>),
                             ih_exitState := CLIENT_DETAILS_RCVD, ih_errOut := None\<rparr>)))
     else Ret (s, h\<lparr>ih_errOut := err\<rparr>)) = Ret out"
    using assms(4) unfolding doClientMsg_def Let_def Inr p sum.case prod.case obind_Ret_iff by auto
  note st = client_node_id_step [OF assms(1,2) c]
  have refs: "sess_refs L s h" using st(2) assms(3) by (rule sess_refs_mono)
  show ?thesis
  proof (cases "err = None \<or> err = Some IDAlreadyInUse")
    case False
    with run st refs show ?thesis by (auto simp: keeps_def)
  next
    case True
    then obtain m where m: "n = Some m" "known L s (Value m)" using st(3) by blast
    show ?thesis
    proof (cases "NewClientInfo L (Token_GetName ?specs) n (Some ck) (Some sk) (Token_GetAttrs ?specs) (Token_GetMyEnds ?specs)")
      case (Inl e)
      with True run st refs show ?thesis by (auto simp: keeps_def)
    next
      case (Inr cm)
      have "basenodes_ok L" using assms(1) by (simp add: libs_ok_def)
      from NewClientInfo_Inr [OF this Inr] m have "ci_ID cm = Value m" by (auto simp: ci_ID_def)
      with True run st refs Inr m show ?thesis by (auto simp: keeps_def sess_refs_def)
    qed
  qed
qed

lemma create_existing_keeps:
  assumes "srv_inv L r" and "sess_refs L r h" and "create_existing L c r h = Ret out"
  shows "keeps L r out"
proof -
  obtain d where s: "fst out = r\<lparr>reg_draws := d\<rparr>" and h: "sess_refs L (fst out) (snd out) = sess_refs L (fst out) h"
    using assms(3) by (auto simp: create_existing_def Let_def split: sum.splits)
  have k: "known L r b \<Longrightarrow> known L (fst out) b" for b by (simp add: s known_def)
  have "srv_inv L (fst out)" by (rule srv_inv_filter [OF assms(1) k]) (simp_all add: s)
  moreover have "reg_le L r (fst out)" by (rule reg_le_filter [OF k]) (simp_all add: s)
  ultimately show ?thesis using assms(2) sess_refs_mono by (auto simp: keeps_def h)
qed

lemma create_new_keeps:
  assumes "libs_ok L" and "srv_inv L r" and "sess_refs L r h"
    and "create_new L name attrs sz eps r h = Ret out"
  shows "keeps L r out"
proof -
  have B: "bloom_ok L" and H: "hamt_ok L" and N: "nodeids_ok L" using assms(1) by (simp_all add: libs_ok_def)
  obtain x where "InsertUniqueNodeID L r = Ret x"
    using assms(4) unfolding create_new_def Let_def by (cases "InsertUniqueNodeID L r") simp_all
  then obtain s n err where u: "InsertUniqueNodeID L r = Ret (s, n, err)" by (cases x) simp
  note st = InsertUniqueNodeID_step [OF B assms(2) u]
  have refs: "sess_refs L s h" using st(2) assms(3) by (rule sess_refs_mono)
  note run = assms(4) [unfolded create_new_def Let_def u obind.simps prod.case]
  show ?thesis
  proof (cases err)
    case (Some e)
    with run st refs show ?thesis by (auto simp: keeps_def)
  next
    case None
    note fresh = st(4) [OF None]
    show ?thesis
    proof (cases "NewRegCluster L name n 0 (clamp_size sz) eps")
      case (Inl e)
      with None run st refs show ?thesis by (auto simp: keeps_def)
    next
      case (Inr rc)
      then have rc: "cluster_inv L rc" "rc_ID rc = Some (Value n)" "rc_Members rc = []"
        using NewRegCluster_inv [OF H Inr] by (auto simp: NewRegCluster_Inr)
      have v: "valid_id (Value n)"
        using u by (cases rule: InsertUniqueNodeID_Ret) (use None nodeids_okD(3) [OF N] in auto)
      have new: "\<forall>x \<in> set (reg_heap s). rc_ID x \<noteq> Some (Value n)"
        using fresh assms(2) st(3) by (auto simp: srv_inv_def cluster_known_def)
      obtain c t where ct: "new_cluster rc s = (c, t)" by fastforce
      note nt = new_cluster_step [OF st(1) rc v conjunct1 [OF fresh] new ct]
      obtain y where "AddCluster L (Some c) t = Ret y"
        using run None Inr ct by (cases "AddCluster L (Some c) t") simp_all
      then obtain w i err2 where a: "AddCluster L (Some c) t = Ret (w, i, err2)" by (cases y) simp
      note aw = AddCluster_step [OF H N nt(1,3) a]
      have le: "reg_le L r w" using st(2) nt(2) aw(2) reg_le_trans by blast
      have "sess_refs L w h" using le assms(3) by (rule sess_refs_mono)
      then have "sess_refs L w (h\<lparr>ih_cluster := Some c\<rparr>)"
        using nt(3) aw(3) by (simp add: sess_refs_def)
      then show ?thesis
        using run None Inr ct a aw(1) le by (cases err2) (auto simp: keeps_def sess_refs_def)
    qed
  qed
qed

lemma doCreateMsg_keeps:
  assumes "libs_ok L" and "srv_inv L r" and "sess_refs L r h" and "doCreateMsg L r h = Ret out"
  shows "keeps L r out"
  using assms(4) create_existing_keeps [OF assms(2,3)] create_new_keeps [OF assms(1-3)]
  by (auto simp: doCreateMsg_def Let_def split: option.splits)

lemma join_cluster_found:
  assumes "reg_inv L r" and "hamt_ok L" and "sess_refs L r h" and "join_cluster L r h name i = Ret (Some c, err)"
  shows "c < length (reg_heap r)" and "err = None"
proof -
  have range: "d < length (reg_heap r)" if "d \<in> set (reg_Clusters r)" for d
    using assms(1) that by (simp add: reg_inv_def)
  have nm: "d \<in> set (reg_Clusters r)" if "reg_ClustersByName r n = Some d" for n d
    using assms(1) that by (simp add: reg_inv_def reg_index_inv_def reg_names_inv_def)
  have ids: "d \<in> set (reg_Clusters r)" if "fst (ha_Find L (reg_ClustersByID r) k) = Some (HCluster d)" for k d
    using assms(1) that unfolding reg_inv_def reg_index_inv_def reg_ids_inv_def by blast
  show "c < length (reg_heap r)" and "err = None"
    using assms(3,4) range nm ids
    by (auto simp: join_cluster_def sess_refs_def split: option.splits if_splits prod.splits hval.splits)
qed

text \<open>Which cluster that is: the one with the ID, the one with the name, or the one of the session.\<close>

lemma join_cluster_asked:
  assumes "reg_inv L r" and "hamt_ok L" and "join_cluster L r h name i = Ret (Some c, err)"
  shows "case i of Some b \<Rightarrow> rc_ID (get_cluster r c) = Some b
     | None \<Rightarrow> (if name = [] then ih_cluster h else reg_ClustersByName r name) = Some c"
proof (cases i)
  case None
  with assms(3) show ?thesis by (auto simp: join_cluster_def split: option.splits if_splits)
next
  case (Some b)
  with assms(3) have "NewBytesKey L b = (fst (NewBytesKey L b), None)"
    by (auto simp: join_cluster_def split: prod.splits option.splits)
  then have k: "NewBytesKey L b = (b, None)" using hamt_okD(4) [OF assms(2), of b] by metis
  with assms(3) Some have "fst (ha_Find L (reg_ClustersByID r) b) = Some (HCluster c)"
    by (auto simp: join_cluster_def split: prod.splits option.splits hval.splits)
  with assms(1) have "rc_ID (get_cluster r c) = Some b"
    unfolding reg_inv_def reg_index_inv_def reg_ids_inv_def by blast
  with Some show ?thesis by simp
qed

lemma doJoinMsg_keeps:
  assumes "libs_ok L" and "srv_inv L r" and "sess_refs L r h" and "doJoinMsg L r h = Ret out"
  shows "keeps L r out"
proof -
  have H: "hamt_ok L" using assms(1) by (simp add: libs_ok_def)
  have I: "reg_inv L r" using assms(2) by (simp add: srv_inv_def)
  obtain m where m: "ih_thisClient h = Some m" "known L r (ci_ID m)"
    using assms(3,4) by (cases "ih_thisClient h") (auto simp: doJoinMsg_def sess_refs_def)
  let ?j = "join_cluster L r h (GetClusterName (ih_msgIn h)) (GetClusterID (ih_msgIn h))"
  obtain cl err where j: "?j = Ret (cl, err)"
    using assms(4) m(1) by (cases ?j) (auto simp: doJoinMsg_def Let_def)
  then obtain c where c: "cl = Some c"
    using assms(4) m(1) by (cases cl) (auto simp: doJoinMsg_def Let_def)
  note ok = join_cluster_found [OF I H assms(3) j [unfolded c]]
  note st = AddMember_step [OF H assms(2) ok(1) m(2)]
  obtain rc e where a: "AddMember L m (get_cluster r c) = (rc, e)" by fastforce
  then have rc: "fst (AddMember L m (get_cluster r c)) = rc" by simp
  have "sess_refs L (put_cluster c rc r) h"
    using st(2) assms(3) unfolding rc by (rule sess_refs_mono)
  moreover have "c < length (reg_heap (put_cluster c rc r))" using ok(1) st(3) by (simp add: rc)
  ultimately show ?thesis
    using assms(4) st(1,2) m(1) j c ok(2) a
    by (cases e) (auto simp: doJoinMsg_def Let_def keeps_def sess_refs_def rc)
qed

lemma doGetMsg_keeps:
  assumes "srv_inv L r" and "sess_refs L r h" and "doGetMsg L r h = Ret out"
  shows "keeps L r out"
proof -
  have "fst out = r \<and> sess_refs L r (snd out)"
    using assms(2,3) by (auto simp: doGetMsg_def Let_def split: prod.splits option.splits hval.splits)
  with assms(1) show ?thesis by (simp add: keeps_def)
qed

section \<open>Where a handler leaves the session\<close>

text \<open>
  A handler reports an error, or it sets the reply with the operation code and the exit state that
  belong to it. It never changes the entry state or forgets the client.
\<close>

definition answers :: "nat \<Rightarrow> XLRegMsg_Tag \<Rightarrow> 'x InHandler_scheme \<Rightarrow> 'x InHandler_scheme \<Rightarrow> bool" where
  "answers exit op h k \<longleftrightarrow> ih_entryState k = ih_entryState h
     \<and> (ih_thisClient h \<noteq> None \<longrightarrow> ih_thisClient k \<noteq> None)
     \<and> (ih_errOut k = None \<longrightarrow> ih_exitState k = exit \<and> (\<exists>m. ih_msgOut k = Some m \<and> msg_Op m = Some op))"

lemma zeroMsg_op [simp]: "msg_Op (zeroMsg\<lparr>msg_Op := op\<rparr>) = op"
  by simp

lemma doClientMsg_answers: "oall (\<lambda>(s, k). answers CLIENT_DETAILS_RCVD XLRegMsg_MemberOK h k \<and> (ih_errOut k = None \<longrightarrow> ih_thisClient k \<noteq> None)) (doClientMsg L r h)"
  unfolding doClientMsg_def Let_def
  by (auto split: sum.split prod.split option.split intro!: oall_obindI simp: answers_def)

lemma doCreateMsg_answers: "oall (\<lambda>(s, k). answers CREATE_REQUEST_RCVD XLRegMsg_CreateReply h k) (doCreateMsg L r h)"
  unfolding doCreateMsg_def create_existing_def create_new_def Let_def
  by (auto split: sum.split prod.split option.split intro!: oall_obindI simp: answers_def create_reply_def join_reply_def)

lemma doJoinMsg_answers: "oall (\<lambda>(s, k). answers JOIN_RCVD XLRegMsg_JoinReply h k) (doJoinMsg L r h)"
  unfolding doJoinMsg_def Let_def
  by (auto split: prod.split option.split intro!: oall_obindI simp: answers_def create_reply_def join_reply_def)

lemma doGetMsg_answers: "oall (\<lambda>(s, k). answers JOIN_RCVD XLRegMsg_ClusterMembers h k) (doGetMsg L r h)"
  unfolding doGetMsg_def Let_def
  by (auto split: prod.split option.split hval.split intro!: oall_obindI simp: answers_def)

lemma doByeMsg_answers: "oall (\<lambda>(s, k). answers BYE_RCVD XLRegMsg_Ack h k) (doByeMsg r h)"
  by (simp add: doByeMsg_def answers_def)

section \<open>Dispatch\<close>

lemma index2_msgHandlers:
  "index2 (msgHandlers L) e t = Some f \<Longrightarrow>
     e \<le> 3 \<and> 0 \<le> t \<and> t \<le> 4 \<and> (
       e = 0 \<and> t = 0 \<and> f = doClientMsg L \<or> e = 1 \<and> t = 1 \<and> f = doCreateMsg L
     \<or> (e = 1 \<or> e = 2) \<and> t = 2 \<and> f = doJoinMsg L \<or> e = 3 \<and> t = 3 \<and> f = doGetMsg L
     \<or> t = 4 \<and> f = doByeMsg \<or> f = badCombo)"
proof -
  assume a: "index2 (msgHandlers L) e t = Some f"
  then have e: "e = 0 \<or> e = 1 \<or> e = 2 \<or> e = 3" by (auto simp: index2_def msgHandlers_def split: if_splits)
  have "0 \<le> t \<and> nat t < 5"
    using a e by (auto simp: index2_def msgHandlers_def split: if_splits)
  then have t: "t = 0 \<or> t = 1 \<or> t = 2 \<or> t = 3 \<or> t = 4" by arith
  show ?thesis
    using a e t by (elim disjE) (simp_all add: index2_def msgHandlers_def)
qed

lemma msgHandlers_length [simp]: "length (msgHandlers L) = 4" "e \<le> 3 \<Longrightarrow> length (msgHandlers L ! e) = 5"
proof -
  show "length (msgHandlers L ! e) = 5" if "e \<le> 3"
  proof -
    have "e = 0 \<or> e = 1 \<or> e = 2 \<or> e = 3" using that by arith
    then show ?thesis by (elim disjE) (simp_all add: msgHandlers_def)
  qed
qed (simp add: msgHandlers_def)

lemma index2_msgHandlers_None:
  "index2 (msgHandlers L) e t = None \<longleftrightarrow> 3 < e \<or> t < 0 \<or> 4 < t"
  by (cases "e \<le> 3") (auto simp: index2_def)

lemma dispatch_keeps:
  assumes "libs_ok L" and "srv_inv L r" and "sess_refs L r h" and "dispatch L t r h = Ret out"
  shows "keeps L r out"
proof -
  obtain f where f: "index2 (msgHandlers L) (ih_entryState h) t = Some f" "f r h = Ret out"
    using assms(4) by (auto simp: dispatch_def split: option.splits)
  have "keeps L r out" if "badCombo r h = Ret out" using that assms(2,3) by (auto simp: badCombo_def keeps_def)
  moreover have "keeps L r out" if "doByeMsg r h = Ret out" using that assms(2,3) by (auto simp: doByeMsg_def keeps_def)
  ultimately show ?thesis
    using index2_msgHandlers [OF f(1)] f(2) assms(1-3) doClientMsg_keeps doCreateMsg_keeps doJoinMsg_keeps doGetMsg_keeps
    by blast
qed

text \<open>
  The states a session goes through as its requests succeed: the protocol of the dispatch table. Any
  other message closes the session.
\<close>

inductive proto_next :: "nat \<Rightarrow> int \<Rightarrow> nat \<Rightarrow> bool" where
  client: "proto_next HELLO_RCVD 0 CLIENT_DETAILS_RCVD"
| create: "proto_next CLIENT_DETAILS_RCVD 1 CREATE_REQUEST_RCVD"
| join: "s = CLIENT_DETAILS_RCVD \<or> s = CREATE_REQUEST_RCVD \<Longrightarrow> proto_next s 2 JOIN_RCVD"
| get: "proto_next JOIN_RCVD 3 JOIN_RCVD"
| bye: "s \<le> JOIN_RCVD \<Longrightarrow> proto_next s 4 BYE_RCVD"

inductive_cases proto_next_elim: "proto_next s t u"

lemmas proto_intros = proto_next.intros proto_next.intros [unfolded One_nat_def]

definition reply_of :: "nat \<Rightarrow> int \<Rightarrow> XLRegMsg_Tag" where
  "reply_of exit t = (if exit = IN_CLOSED then XLRegMsg_Error else word_of_int (2 * t + 4))"

lemma dispatch_answers:
  assumes "dispatch L t r h = Ret (s, k)"
  shows "ih_entryState k = ih_entryState h \<and> ih_entryState h \<le> 3 \<and> 0 \<le> t \<and> t \<le> 4
     \<and> (ih_thisClient h \<noteq> None \<or> ih_entryState h = 0 \<and> t = 0 \<and> ih_errOut k = None \<longrightarrow> ih_thisClient k \<noteq> None)
     \<and> (ih_errOut k = None \<longrightarrow> proto_next (ih_entryState h) t (ih_exitState k) \<and> ih_exitState k \<noteq> IN_CLOSED
          \<and> (\<exists>m. ih_msgOut k = Some m \<and> msg_Op m = Some (word_of_int (2 * t + 4))))"
proof -
  obtain f where f: "index2 (msgHandlers L) (ih_entryState h) t = Some f" "f r h = Ret (s, k)"
    using assms by (auto simp: dispatch_def split: option.splits)
  from index2_msgHandlers [OF f(1)] consider
      "ih_entryState h = 0" "t = 0" "f = doClientMsg L" | "ih_entryState h = 1" "t = 1" "f = doCreateMsg L"
    | "ih_entryState h = 1 \<or> ih_entryState h = 2" "t = 2" "f = doJoinMsg L"
    | "ih_entryState h = 3" "t = 3" "f = doGetMsg L" | "ih_entryState h \<le> 3" "t = 4" "f = doByeMsg"
    | "ih_entryState h \<le> 3" "0 \<le> t" "t \<le> 4" "f = badCombo" by (elim conjE disjE) simp_all
  then show ?thesis
  proof cases
    case 1
    with f(2) oallD [OF doClientMsg_answers, of L r h "(s, k)"] show ?thesis
      by (auto simp: answers_def intro: proto_intros)
  next
    case 2
    with f(2) oallD [OF doCreateMsg_answers, of L r h "(s, k)"] show ?thesis
      by (auto simp: answers_def intro: proto_intros)
  next
    case 3
    with f(2) oallD [OF doJoinMsg_answers, of L r h "(s, k)"] show ?thesis
      by (auto simp: answers_def intro: proto_intros)
  next
    case 4
    with f(2) oallD [OF doGetMsg_answers, of L r h "(s, k)"] show ?thesis
      by (auto simp: answers_def intro: proto_intros)
  next
    case 5
    with f(2) oallD [OF doByeMsg_answers, of r h "(s, k)"] show ?thesis
      by (auto simp: answers_def intro: proto_intros)
  next
    case 6
    with f(2) show ?thesis by (auto simp: badCombo_def)
  qed
qed

section \<open>One message\<close>

text \<open>
  Between two messages: the last error was turned into a reply, the session relies on what
  \<open>sess_refs\<close> says, and from the client's message to the farewell there is a client.
\<close>

definition sess_inv :: "('h, hval, 'b, 'z) reglib_scheme \<Rightarrow> ('h, 'b) Registry \<Rightarrow> 'x InHandler_scheme \<Rightarrow> bool" where
  "sess_inv L reg h \<longleftrightarrow> sess_refs L reg h \<and> ih_errOut h = None \<and> ih_entryState h \<le> IN_CLOSED
     \<and> (CLIENT_DETAILS_RCVD \<le> ih_entryState h \<and> ih_entryState h \<le> JOIN_RCVD \<longrightarrow> ih_thisClient h \<noteq> None)"

text \<open>A turn of the message loop as the registry sees it: \<open>Start\<close> without the connection.\<close>

definition message_turn ::
  "('h, hval, 'b, 'z) reglib_scheme \<Rightarrow> XLRegMsg \<Rightarrow> ('h, 'b) Registry \<Rightarrow> 'x InHandler_scheme \<Rightarrow>
   (('h, 'b) Registry \<times> 'x InHandler_scheme) outcome" where
  "message_turn L msg reg h =
     obind (handle_message L msg reg h) (\<lambda>(reg, h). Ret (reg, h\<lparr>ih_entryState := ih_exitState h\<rparr>))"

lemma handle_message_dispatch:
  assumes "handle_message L msg r h = Ret (s, k)"
  obtains j where "dispatch L (op2tag (GetOp (Some msg))) r (h\<lparr>ih_msgIn := Some msg\<rparr>) = Ret (s, j)"
    and "k = error_reply j"
proof -
  let ?t = "op2tag (GetOp (Some msg))"
  obtain j e where d: "dispatch L ?t r (if ?t < 0 \<or> ?t > 4 then h\<lparr>ih_msgIn := Some msg, ih_errOut := Some TagOutOfRange\<rparr>
      else h\<lparr>ih_msgIn := Some msg\<rparr>) = Ret (s, j)" and k: "k = error_reply j"
    using assms by (auto simp: handle_message_def Let_def obind_Ret_iff simp del: msg_getters split: if_splits)
  have "0 \<le> ?t \<and> ?t \<le> 4" using dispatch_answers [OF d] by simp
  with d k show ?thesis by (intro that) auto
qed

lemma handle_message_keeps:
  assumes "libs_ok L" and "srv_inv L r" and "sess_refs L r h" and "handle_message L msg r h = Ret out"
  shows "keeps L r out"
proof -
  obtain s k where out: "out = (s, k)" by fastforce
  obtain j where d: "dispatch L (op2tag (GetOp (Some msg))) r (h\<lparr>ih_msgIn := Some msg\<rparr>) = Ret (s, j)"
    and k: "k = error_reply j"
    using assms(4) out by (auto elim: handle_message_dispatch)
  have "keeps L r (s, j)" using assms(1,2) _ d by (rule dispatch_keeps) (simp add: assms(3))
  then show ?thesis by (auto simp: keeps_def out k error_reply_def split: option.splits)
qed

lemma handle_message_follows:
  assumes "handle_message L msg r h = Ret (s, k)"
  defines "t \<equiv> op2tag (GetOp (Some msg))"
  shows "proto_next (ih_entryState h) t (ih_exitState k) \<or> ih_exitState k = IN_CLOSED" and "ih_errOut k = None"
    and "ih_entryState k = ih_entryState h"
    and "\<exists>m. ih_msgOut k = Some m \<and> msg_Op m = Some (reply_of (ih_exitState k) t)"
    and "ih_thisClient h \<noteq> None \<or> ih_exitState k = CLIENT_DETAILS_RCVD \<Longrightarrow> ih_thisClient k \<noteq> None"
proof -
  obtain j where d: "dispatch L t r (h\<lparr>ih_msgIn := Some msg\<rparr>) = Ret (s, j)" and k: "k = error_reply j"
    using handle_message_dispatch [OF assms(1)] unfolding t_def by blast
  note a = dispatch_answers [OF d, simplified]
  show "ih_errOut k = None" by (simp add: k error_reply_def split: option.split)
  show "ih_entryState k = ih_entryState h" using a by (simp add: k error_reply_def split: option.split)
  show p: "proto_next (ih_entryState h) t (ih_exitState k) \<or> ih_exitState k = IN_CLOSED"
    using a by (auto simp: k error_reply_def intro: proto_intros split: option.split)
  show "\<exists>m. ih_msgOut k = Some m \<and> msg_Op m = Some (reply_of (ih_exitState k) t)"
    using a by (auto simp: k error_reply_def reply_of_def split: option.split)
  have "ih_thisClient k = ih_thisClient j" by (simp add: k error_reply_def split: option.split)
  moreover have "ih_exitState k = CLIENT_DETAILS_RCVD \<Longrightarrow> ih_entryState h = 0 \<and> t = 0 \<and> ih_errOut j = None"
    using p by (auto elim!: proto_next_elim simp: k error_reply_def split: option.splits)
  ultimately show "ih_thisClient h \<noteq> None \<or> ih_exitState k = CLIENT_DETAILS_RCVD \<Longrightarrow> ih_thisClient k \<noteq> None"
    using a by auto
qed

lemma message_turn_keeps:
  assumes "libs_ok L" and "srv_inv L r" and "sess_inv L r h" and "message_turn L msg r h = Ret (s, k)"
  shows "srv_inv L s \<and> sess_inv L s k \<and> reg_le L r s"
proof -
  obtain j where j: "handle_message L msg r h = Ret (s, j)" "k = j\<lparr>ih_entryState := ih_exitState j\<rparr>"
    using assms(4) by (auto simp: message_turn_def obind_Ret_iff)
  have "keeps L r (s, j)"
    using assms(1,2) _ j(1) by (rule handle_message_keeps) (use assms(3) in \<open>simp add: sess_inv_def\<close>)
  moreover note f = handle_message_follows [OF j(1)]
  have "ih_exitState j \<le> 5" using f(1) by (auto elim: proto_next_elim)
  moreover have "ih_thisClient j \<noteq> None" if "1 \<le> ih_exitState j" "ih_exitState j \<le> 3"
  proof -
    have "ih_exitState j = 1 \<or> 1 \<le> ih_entryState h \<and> ih_entryState h \<le> 3"
      using f(1) that by (auto elim!: proto_next_elim)
    with f(5) assms(3) show ?thesis by (auto simp: sess_inv_def)
  qed
  ultimately show ?thesis using f(2) j(2) by (simp add: keeps_def sess_inv_def)
qed

text \<open>The message loop is a shared service.\<close>

definition idle_handler :: InHandler where
  "idle_handler = \<lparr>ih_thisClient = None, ih_cluster = None, ih_version = 0, ih_known = 0,
     ih_entryState = HELLO_RCVD, ih_exitState = HELLO_RCVD, ih_msgIn = None, ih_msgOut = None, ih_errOut = None\<rparr>"

interpretation registry: shared_service "message_turn L" "\<lambda>h. h = idle_handler"
    "\<lambda>reg. libs_ok L \<and> srv_inv L reg" "sess_inv L" "reg_le L"
  for L :: "('h, hval, 'b, 'z) reglib_scheme"
proof
  fix g g' g'' :: "('h, 'b) Registry" and l l' :: InHandler and i
  show "libs_ok L \<and> srv_inv L g \<Longrightarrow> sess_inv L g l \<Longrightarrow> message_turn L i g l = Ret (g', l') \<Longrightarrow>
      (libs_ok L \<and> srv_inv L g') \<and> sess_inv L g' l' \<and> reg_le L g g'"
    using message_turn_keeps by blast
  show "libs_ok L \<and> srv_inv L g \<Longrightarrow> l = idle_handler \<Longrightarrow> sess_inv L g l"
    by (simp add: sess_inv_def sess_refs_def idle_handler_def)
  show "reg_le L g g' \<Longrightarrow> sess_inv L g l \<Longrightarrow> sess_inv L g' l"
    using sess_refs_mono by (auto simp: sess_inv_def)
  show "reg_le L g g" by simp
  show "reg_le L g g' \<Longrightarrow> reg_le L g' g'' \<Longrightarrow> reg_le L g g''" by (rule reg_le_trans)
qed

section \<open>Properties\<close>

lemma doClientMsg_accepted:
  assumes "doClientMsg L r h = Ret (s, k)" and "ih_errOut k = None"
  obtains ck sk n err cm where "client_keys L (GetMemberSpecs (ih_msgIn h)) = Inr (ck, sk)"
    "client_node_id L (Token_GetID (GetMemberSpecs (ih_msgIn h))) r = Ret (s, Some n, err)"
    "err = None \<or> err = Some IDAlreadyInUse"
    "NewClientInfo L (Token_GetName (GetMemberSpecs (ih_msgIn h))) (Some n) (Some ck) (Some sk)
       (Token_GetAttrs (GetMemberSpecs (ih_msgIn h))) (Token_GetMyEnds (GetMemberSpecs (ih_msgIn h))) = Inr cm"
    "ih_thisClient k = Some cm"
    "ih_msgOut k = Some (zeroMsg\<lparr>msg_Op := Some XLRegMsg_MemberOK, msg_MemberID := Some (Value n),
       msg_MemberAttrs := Some (Token_GetAttrs (GetMemberSpecs (ih_msgIn h)))\<rparr>)"
proof (cases "client_keys L (GetMemberSpecs (ih_msgIn h))")
  case (Inl e)
  with assms show ?thesis by (auto simp: doClientMsg_def Let_def)
next
  case (Inr p)
  obtain ck sk where p: "p = (ck, sk)" by fastforce
  let ?i = "client_node_id L (Token_GetID (GetMemberSpecs (ih_msgIn h))) r"
  let ?new = "\<lambda>n. NewClientInfo L (Token_GetName (GetMemberSpecs (ih_msgIn h))) n (Some ck) (Some sk)
       (Token_GetAttrs (GetMemberSpecs (ih_msgIn h))) (Token_GetMyEnds (GetMemberSpecs (ih_msgIn h)))"
  note run = assms(1) [unfolded doClientMsg_def Let_def Inr p sum.case prod.case]
  obtain x where "?i = Ret x" using run by (cases ?i) simp_all
  then obtain s' n err where i: "?i = Ret (s', n, err)" by (cases x) simp
  note run = run [unfolded i obind.simps prod.case]
  show ?thesis
  proof (cases "err = None \<or> err = Some IDAlreadyInUse")
    case True
    show ?thesis
    proof (cases "?new n")
      case (Inl e)
      with run True assms(2) show ?thesis by auto
    next
      case (Inr cm)
      show ?thesis
      proof (cases n)
        case None
        with run True Inr show ?thesis by simp
      next
        case (Some m)
        have "s' = s" "ih_thisClient k = Some cm"
          "ih_msgOut k = Some (zeroMsg\<lparr>msg_Op := Some XLRegMsg_MemberOK, msg_MemberID := Some (Value m),
             msg_MemberAttrs := Some (Token_GetAttrs (GetMemberSpecs (ih_msgIn h)))\<rparr>)"
          using run True Inr [unfolded Some] unfolding Some by (simp_all del: msg_getters token_getters) auto
        with that [OF \<open>client_keys L (GetMemberSpecs (ih_msgIn h)) = Inr p\<close> [unfolded p] _ True] i Inr Some
        show ?thesis by simp
      qed
    qed
  next
    case False
    then obtain e where "err = Some e" by auto
    with run False assms(2) show ?thesis by auto
  qed
qed

text \<open>C17. An accepted client proved that it has the signature key, and is recorded as it described itself:
  if the Client message is answered without error, the signature over its fields verified with the
  key it sent, the session's client has the token's name, attributes, end points and keys, its ID
  is registered, and the reply tells it that ID. The ID is the one in the token, or a new one
  that was not registered before.\<close>

theorem client_accepted:
  fixes h :: "'x InHandler_scheme"
  defines "specs \<equiv> GetMemberSpecs (ih_msgIn h)"
  assumes "libs_ok L" and "srv_inv L r" and "doClientMsg L r h = Ret (s, k)" and "ih_errOut k = None"
  shows "\<exists>n ck sk. ih_thisClient k = Some \<lparr>ci_Attrs = Token_GetAttrs specs, ci_MyEnds = Token_GetMyEnds specs,
        ci_BaseNode = \<lparr>bn_name = Token_GetName specs, bn_id = n, bn_ck = Some ck, bn_sk = Some sk\<rparr>\<rparr>
     \<and> VerifyPKCS1v15 L sk (client_hash L (Token_GetName specs) (Token_GetAttrs specs)
          (Token_GetCommsKey specs) (Token_GetSigKey specs) (Token_GetMyEnds specs)) (Token_GetDigSig specs) = None
     \<and> RSAPubKeyFromWire L (Token_GetSigKey specs) = Inr sk
     \<and> known L s (Value n)
     \<and> (case Token_GetID specs of Some b \<Rightarrow> Value n = b | None \<Rightarrow> \<not> known L r (Value n))
     \<and> ih_msgOut k = Some (zeroMsg\<lparr>msg_Op := Some XLRegMsg_MemberOK, msg_MemberID := Some (Value n),
          msg_MemberAttrs := Some (Token_GetAttrs specs)\<rparr>)"
proof -
  have B: "bloom_ok L" and N: "nodeids_ok L" and BN: "basenodes_ok L" using assms(2) by (simp_all add: libs_ok_def)
  from assms(4,5) obtain ck sk n err cm where c: "client_keys L specs = Inr (ck, sk)"
    "client_node_id L (Token_GetID specs) r = Ret (s, Some n, err)" "err = None \<or> err = Some IDAlreadyInUse"
    "NewClientInfo L (Token_GetName specs) (Some n) (Some ck) (Some sk) (Token_GetAttrs specs) (Token_GetMyEnds specs) = Inr cm"
    "ih_thisClient k = Some cm"
    "ih_msgOut k = Some (zeroMsg\<lparr>msg_Op := Some XLRegMsg_MemberOK, msg_MemberID := Some (Value n),
       msg_MemberAttrs := Some (Token_GetAttrs specs)\<rparr>)"
    unfolding specs_def by (rule doClientMsg_accepted)
  have keys: "RSAPubKeyFromWire L (Token_GetSigKey specs) = Inr sk"
    "VerifyPKCS1v15 L sk (client_hash L (Token_GetName specs) (Token_GetAttrs specs)
          (Token_GetCommsKey specs) (Token_GetSigKey specs) (Token_GetMyEnds specs)) (Token_GetDigSig specs) = None"
    using c(1) by (auto simp: client_keys_def ext_def simp del: token_getters split: sum.splits option.splits)
  have kn: "known L s (Value n)" using client_node_id_step(3) [OF assms(2,3) c(2,3)] by auto
  have cm: "cm = \<lparr>ci_Attrs = Token_GetAttrs specs, ci_MyEnds = Token_GetMyEnds specs,
        ci_BaseNode = \<lparr>bn_name = Token_GetName specs, bn_id = n, bn_ck = Some ck, bn_sk = Some sk\<rparr>\<rparr>"
    using NewClientInfo_Inr [OF BN c(4)] by auto
  have "case Token_GetID specs of Some b \<Rightarrow> Value n = b | None \<Rightarrow> \<not> known L r (Value n)"
  proof (cases "Token_GetID specs")
    case None
    then have u: "InsertUniqueNodeID L r = Ret (s, n, err)"
      using c(2) by (auto simp: client_node_id_def obind_Ret_iff)
    then have "err = None" using c(3) InsertUniqueNodeID_no_dup by blast
    with None InsertUniqueNodeID_step(4) [OF B assms(3) u] show ?thesis by simp
  next
    case (Some b)
    then have "xi_New L b = Inr n"
      using c(2) by (auto simp: client_node_id_def ext_def split: sum.splits if_splits prod.splits)
    with Some nodeids_okD(2) [OF N] show ?thesis by fastforce
  qed
  with c(5,6) keys kn show ?thesis unfolding cm by blast
qed

definition ref_client_msg :: XLRegMsg where
  "ref_client_msg = zeroMsg\<lparr>msg_Op := Some XLRegMsg_Member, msg_MemberSpecs := Some
     \<lparr>tok_Name = Some ''al'', tok_Attrs = Some 3, tok_ID = Some (ref_id 1), tok_CommsKey = Some [33],
      tok_SigKey = Some [33], tok_MyEnds = Some [''127.0.0.1:55'', ''127.0.0.1:56''],
      tok_DigSig = Some (client_hash hlib ''al'' 3 (Some [33]) (Some [33]) (Some [''127.0.0.1:55'', ''127.0.0.1:56'']))\<rparr>\<rparr>"

lemma hlib_ok [simp]: "libs_ok hlib"
  by (simp add: libs_ok_def)

lemma ref_srv_inv [simp]: "srv_inv hlib (ref_registry [])"
  using ref_registry_inv [of "[]"] by (simp add: srv_inv_def) (simp add: ref_registry_def)

lemma ref_doClientMsg:
  "doClientMsg hlib (ref_registry []) (ref_handler None 0 ref_client_msg) =
     Ret ((ref_registry [])\<lparr>reg_idFilter := [ref_id 1, ref_id 3]\<rparr>,
       (ref_handler (Some (ref_client ''al'' 1)) 0 ref_client_msg)
         \<lparr>ih_msgOut := Some (zeroMsg\<lparr>msg_Op := Some XLRegMsg_MemberOK, msg_MemberID := Some (ref_id 1),
            msg_MemberAttrs := Some 3\<rparr>), ih_exitState := 1, ih_errOut := None\<rparr>)"
  by (simp add: doClientMsg_def client_keys_def client_node_id_def ref_handler_def ref_client_msg_def
      ref_FromWire_def ContainsID_def InsertID_def ref_registry_def NewClientInfo_def ref_client_def ref_bn_def
      ref_pub_def Let_def zeroMsg_def client_hash_def)

theorem client_accepted_witness:
  "known hlib ((ref_registry [])\<lparr>reg_idFilter := [ref_id 1, ref_id 3]\<rparr>) (ref_id 1)"
  using client_accepted [OF hlib_ok ref_srv_inv ref_doClientMsg]
  by (auto simp: ref_handler_def ref_client_msg_def ref_client_def ref_bn_def)

text \<open>The calls of a Create that made a new cluster.\<close>

lemma create_new_run:
  assumes "create_new L nm attrs sz eps r h = Ret (s, k)" and "ih_errOut k = None"
  obtains t n rc c w i where "InsertUniqueNodeID L r = Ret (t, n, None)" and "NewRegCluster L nm n 0 (clamp_size sz) eps = Inr rc"
    and "new_cluster rc t = (c, w)" and "AddCluster L (Some c) w = Ret (s, i, None)" and "ih_cluster k = Some c"
    and "ih_msgOut k = Some (create_reply (Value n) (clamp_size sz) attrs eps)"
proof -
  obtain x where "InsertUniqueNodeID L r = Ret x"
    using assms(1) unfolding create_new_def Let_def by (cases "InsertUniqueNodeID L r") simp_all
  then obtain t n err where u: "InsertUniqueNodeID L r = Ret (t, n, err)" by (cases x) simp
  note run = assms(1) [unfolded create_new_def Let_def u obind.simps prod.case]
  have none: "err = None" using run assms(2) by (cases err) auto
  obtain rc where nc: "NewRegCluster L nm n 0 (clamp_size sz) eps = Inr rc"
    using run none assms(2) by (cases "NewRegCluster L nm n 0 (clamp_size sz) eps") auto
  obtain c w where cw: "new_cluster rc t = (c, w)" by fastforce
  note run = run [unfolded none nc option.case sum.case cw prod.case]
  obtain y where "AddCluster L (Some c) w = Ret y" using run by (cases "AddCluster L (Some c) w") simp_all
  then obtain s' i err2 where a: "AddCluster L (Some c) w = Ret (s', i, err2)" by (cases y) simp
  have "err2 = None" using run a assms(2) by (cases err2) auto
  with that u none nc cw a run show ?thesis by auto
qed

lemma doCreateMsg_new:
  fixes h :: "'x InHandler_scheme"
  defines "msg \<equiv> ih_msgIn h"
  assumes "libs_ok L" and "srv_inv L r" and "reg_ClustersByName r (GetClusterName msg) = None"
    and "doCreateMsg L r h = Ret (s, k)" and "ih_errOut k = None"
  shows "\<exists>c n. ih_cluster k = Some c \<and> reg_Clusters s = reg_Clusters r @ [c] \<and> c = length (reg_heap r)
     \<and> rc_ID (get_cluster s c) = Some n \<and> \<not> known L r n \<and> known L s n
     \<and> rc_maxSize (get_cluster s c) = clamp_size (GetClusterMaxSize msg)
     \<and> 2 \<le> rc_maxSize (get_cluster s c) \<and> rc_maxSize (get_cluster s c) \<le> 64
     \<and> rc_Attrs (get_cluster s c) = 0 \<and> rc_Members (get_cluster s c) = []
     \<and> rc_Name (get_cluster s c) = (if GetClusterName msg = [] then ''xlCluster'' else GetClusterName msg)
     \<and> reg_ClustersByName s (rc_Name (get_cluster s c)) = Some c
     \<and> ha_Find L (reg_ClustersByID s) n = (Some (HCluster c), None)
     \<and> ih_msgOut k = Some (create_reply n (clamp_size (GetClusterMaxSize msg)) (GetClusterAttrs msg) (GetEndPointCount msg))"
proof -
  have B: "bloom_ok L" and H: "hamt_ok L" and N: "nodeids_ok L" using assms(2) by (simp_all add: libs_ok_def)
  have "create_new L (GetClusterName msg) (GetClusterAttrs msg) (GetClusterMaxSize msg) (GetEndPointCount msg) r h = Ret (s, k)"
    using assms(4,5) by (simp add: doCreateMsg_def Let_def msg_def del: msg_getters)
  then obtain t n rc c w i where u: "InsertUniqueNodeID L r = Ret (t, n, None)"
      and nc: "NewRegCluster L (GetClusterName msg) n 0 (clamp_size (GetClusterMaxSize msg)) (GetEndPointCount msg) = Inr rc"
      and cw: "new_cluster rc t = (c, w)" and a: "AddCluster L (Some c) w = Ret (s, i, None)" and kc: "ih_cluster k = Some c"
      and ko: "ih_msgOut k = Some (create_reply (Value n) (clamp_size (GetClusterMaxSize msg)) (GetClusterAttrs msg) (GetEndPointCount msg))"
    using assms(6) by (rule create_new_run)
  note st = InsertUniqueNodeID_step [OF B assms(3) u]
  note fresh = st(4) [OF refl]
  have v: "valid_id (Value n)"
    using u by (cases rule: InsertUniqueNodeID_Ret) (use nodeids_okD(3) [OF N] in auto)
  have new: "\<forall>x \<in> set (reg_heap t). rc_ID x \<noteq> Some (Value n)"
    using fresh assms(3) st(3) by (auto simp: srv_inv_def cluster_known_def)
  note rcf = NewRegCluster_Inr [THEN iffD1, OF nc]
  have rc: "cluster_inv L rc" "rc_ID rc = Some (Value n)" "rc_Members rc = []"
    using NewRegCluster_inv [OF H nc] rcf by auto
  note nt = new_cluster_step [OF st(1) rc v conjunct1 [OF fresh] new cw]
  have wI: "reg_inv L w" using nt(1) by (simp add: srv_inv_def)
  have get: "get_cluster s c = rc" using AddCluster_frame(1) [OF a] nt(4) by (simp add: get_cluster_def)
  have "rc_ID (get_cluster w c) = Some (Value n)" using nt(4) rc(2) by simp
  note ok = add_cluster_enters [OF H N wI a this]
  have cl: "reg_Clusters w = reg_Clusters r" "c = length (reg_heap r)"
    using cw u st(3) InsertUniqueNodeID_clusters [OF u] by (auto simp: new_cluster_def)
  have size: "2 \<le> clamp_size m \<and> clamp_size m \<le> 64" for m
    by (auto simp: clamp_size_def MIN_CLUSTER_SIZE_def MAX_CLUSTER_SIZE_def not_less)
  have kn: "known L s (Value n)"
    using fresh nt(2) AddCluster_step(2) [OF H N nt(1,3) a] by (simp add: reg_le_def)
  have f: "rc_Name rc = (if GetClusterName msg = [] then ''xlCluster'' else GetClusterName msg)"
    "rc_Attrs rc = 0" "rc_maxSize rc = clamp_size (GetClusterMaxSize msg)"
    using rcf by (auto simp del: msg_getters)
  have nm: "reg_name w c = rc_Name rc" using nt(4) by (simp add: reg_name_def)
  note ok = ok [unfolded nm cl(1)]
  show ?thesis
    unfolding f(1) [symmetric]
    by (intro exI [of _ c] exI [of _ "Value n"] conjI)
      (use ok fresh kn size [of "GetClusterMaxSize msg"] in \<open>simp_all add: get [unfolded cl(2)] rc f(2,3) kc ko cl(2) del: msg_getters\<close>)
qed

text \<open>C18. A Create for a free name that is answered without error makes one new cluster: its ID was not
  registered before and is now, its size is the one asked for brought into the range 2 to 64, its
  attributes are zero, it has no members, and it is the session's cluster and the one found under
  its name (\<open>xlCluster\<close> when the name is empty) and under its ID. The reply has the ID and the
  sizes of the cluster, but the attributes of the request.\<close>

theorem create_new_ok:
  fixes h :: "'x InHandler_scheme"
  defines "msg \<equiv> ih_msgIn h"
  assumes "libs_ok L" and "srv_inv L r" and "reg_ClustersByName r (GetClusterName msg) = None"
    and "doCreateMsg L r h = Ret (s, k)" and "ih_errOut k = None"
  shows "\<exists>c n. ih_cluster k = Some c \<and> reg_Clusters s = reg_Clusters r @ [c] \<and> c = length (reg_heap r)
     \<and> rc_ID (get_cluster s c) = Some n \<and> \<not> known L r n \<and> known L s n
     \<and> rc_maxSize (get_cluster s c) = clamp_size (GetClusterMaxSize msg)
     \<and> 2 \<le> rc_maxSize (get_cluster s c) \<and> rc_maxSize (get_cluster s c) \<le> 64
     \<and> rc_Attrs (get_cluster s c) = 0 \<and> rc_Members (get_cluster s c) = []
     \<and> rc_Name (get_cluster s c) = (if GetClusterName msg = [] then ''xlCluster'' else GetClusterName msg)
     \<and> reg_ClustersByName s (rc_Name (get_cluster s c)) = Some c
     \<and> ha_Find L (reg_ClustersByID s) n = (Some (HCluster c), None)
     \<and> ih_msgOut k = Some (create_reply n (clamp_size (GetClusterMaxSize msg)) (GetClusterAttrs msg) (GetEndPointCount msg))"
  unfolding msg_def using assms(2-6) [unfolded msg_def] by (rule doCreateMsg_new)

definition ref_created :: "((bytes \<times> hval) list, bytes list) Registry" where
  "ref_created = (let i = replicate 19 0 @ [0 :: u8]; rc = \<lparr>rc_Name = ''duo'', rc_ID = Some i, rc_Attrs = 0, rc_maxSize = 64,
       rc_epCount = 1, rc_Members = [], rc_MembersByName = Map.empty, rc_MembersByID = []\<rparr>
     in (ref_registry [])\<lparr>reg_draws := 1, reg_idFilter := [i, ref_id 3], reg_heap := [rc], reg_Clusters := [0],
          reg_ClustersByName := [''duo'' \<mapsto> 0], reg_ClustersByID := [(i, HCluster 0)]\<rparr>)"

definition ref_create_handler :: InHandler where
  "ref_create_handler = ref_handler (Some (ref_client ''al'' 1)) 1
     (zeroMsg\<lparr>msg_Op := Some XLRegMsg_Create, msg_ClusterName := Some ''duo'',
       msg_ClusterMaxSize := Some 100, msg_EndPointCount := Some 1\<rparr>)"

lemma ref_doCreateMsg:
  "doCreateMsg hlib (ref_registry []) ref_create_handler =
     Ret (ref_created, ref_create_handler\<lparr>ih_cluster := Some 0,
            ih_msgOut := Some (create_reply (replicate 19 0 @ [0]) 64 0 1), ih_exitState := 2, ih_errOut := None\<rparr>)"
proof -
  let ?i = "replicate 19 0 @ [0 :: u8]"
  let ?rc = "\<lparr>rc_Name = ''duo'', rc_ID = Some ?i, rc_Attrs = 0, rc_maxSize = 64,
       rc_epCount = 1, rc_Members = [], rc_MembersByName = Map.empty, rc_MembersByID = []\<rparr>"
  let ?r = "(ref_registry [])\<lparr>reg_draws := 1, reg_idFilter := [?i, ref_id 3]\<rparr>"
  have msg: "doCreateMsg hlib (ref_registry []) ref_create_handler =
       create_new hlib ''duo'' 0 100 1 (ref_registry []) ref_create_handler"
    by (simp add: doCreateMsg_def ref_create_handler_def ref_handler_def zeroMsg_def ref_registry_def)
  have new: "NewRegCluster hlib ''duo'' (NodeID ?i) 0 64 1 = Inr ?rc"
    by (simp add: NewRegCluster_def)
  have heap: "new_cluster ?rc ?r = (0, ?r\<lparr>reg_heap := [?rc]\<rparr>)"
    by (simp add: new_cluster_def ref_registry_def)
  have add: "AddCluster hlib (Some 0) (?r\<lparr>reg_heap := [?rc]\<rparr>) = Ret (ref_created, 0, None)"
    by (simp add: AddCluster_def ref_registry_def get_cluster_def rc_GetNodeID_def valid_id_def cluster_insert_def
        xi_New_or_random_def ref_created_def Let_def)
  have "clamp_size 100 = 64"
    by (simp add: clamp_size_def MIN_CLUSTER_SIZE_def MAX_CLUSTER_SIZE_def)
  then show ?thesis
    unfolding msg create_new_def Let_def ref_unique
    by (simp only: obind.simps prod.case option.case new sum.case heap add nodeID.sel)
qed

theorem create_new_ok_witness: "rc_maxSize (get_cluster ref_created 0) = 64 \<and> reg_ClustersByName ref_created ''duo'' = Some 0"
  using create_new_ok [OF hlib_ok ref_srv_inv _ ref_doCreateMsg]
  by (auto simp: ref_create_handler_def ref_handler_def ref_registry_def zeroMsg_def clamp_size_def MIN_CLUSTER_SIZE_def
      MAX_CLUSTER_SIZE_def)

lemma doJoinMsg_joins:
  assumes "libs_ok L" and "srv_inv L r" and "sess_refs L r h" and "doJoinMsg L r h = Ret (s, k)" and "ih_errOut k = None"
  shows "\<exists>c m. ih_thisClient h = Some m \<and> c < length (reg_heap r) \<and> ih_cluster k = Some c
     \<and> (case GetClusterID (ih_msgIn h) of Some b \<Rightarrow> rc_ID (get_cluster r c) = Some b
          | None \<Rightarrow> (if GetClusterName (ih_msgIn h) = [] then ih_cluster h
                     else reg_ClustersByName r (GetClusterName (ih_msgIn h))) = Some c)
     \<and> rc_Members (get_cluster s c) = rc_Members (get_cluster r c) @ [m]
     \<and> rc_MembersByName (get_cluster s c) (ci_GetName m) = Some m
     \<and> s = put_cluster c (get_cluster s c) r
     \<and> ih_msgOut k = Some (join_reply (get_cluster r c)) \<and> ih_exitState k = JOIN_RCVD"
proof -
  have H: "hamt_ok L" and I: "reg_inv L r" using assms(1,2) by (simp_all add: libs_ok_def srv_inv_def)
  obtain m where m: "ih_thisClient h = Some m"
    using assms(4) by (cases "ih_thisClient h") (auto simp: doJoinMsg_def)
  then have kn: "known L r (ci_ID m)" using assms(3) by (simp add: sess_refs_def)
  let ?j = "join_cluster L r h (GetClusterName (ih_msgIn h)) (GetClusterID (ih_msgIn h))"
  obtain cl err where j: "?j = Ret (cl, err)"
    using assms(4) m by (cases ?j) (auto simp: doJoinMsg_def Let_def)
  then obtain c where c: "cl = Some c"
    using assms(4) m by (cases cl) (auto simp: doJoinMsg_def Let_def)
  note ok = join_cluster_found [OF I H assms(3) j [unfolded c]]
  obtain rc e where a: "AddMember L m (get_cluster r c) = (rc, e)" by fastforce
  note run = assms(4) [unfolded doJoinMsg_def Let_def m option.case j c ok(2) obind.simps prod.case a]
  have e: "e = None" using run assms(5) by (cases e) auto
  then have sk: "s = put_cluster c rc r" "ih_cluster k = Some c" "ih_msgOut k = Some (join_reply rc)" "ih_exitState k = JOIN_RCVD"
    using run by auto
  have get: "get_cluster s c = rc"
    using ok(1) by (simp add: sk(1) put_cluster_def get_cluster_def)
  have "join_reply rc = join_reply (get_cluster r c)"
    using AddMember_frame [of L m "get_cluster r c"] a by (simp add: join_reply_def)
  then show ?thesis
    using m ok c sk AddMember_ok(1,2) [OF H a [unfolded e]] join_cluster_asked [OF I H j [unfolded c]]
    by (intro exI [of _ c] exI [of _ m]) (simp add: get [unfolded sk(1)] del: msg_getters)
qed

text \<open>C19. A Join that is answered without error adds the session's client, as the last member, to the
  cluster that was asked for (the one with the ID if the message has one, else the one with the
  name, else the session's own), makes it the session's cluster, and changes nothing else of the
  registry; the reply has the cluster's ID, attributes and sizes.\<close>

theorem join_ok:
  assumes "libs_ok L" and "srv_inv L r" and "sess_refs L r h" and "doJoinMsg L r h = Ret (s, k)" and "ih_errOut k = None"
  shows "\<exists>c m. ih_thisClient h = Some m \<and> c < length (reg_heap r) \<and> ih_cluster k = Some c
     \<and> (case GetClusterID (ih_msgIn h) of Some b \<Rightarrow> rc_ID (get_cluster r c) = Some b
          | None \<Rightarrow> (if GetClusterName (ih_msgIn h) = [] then ih_cluster h
                     else reg_ClustersByName r (GetClusterName (ih_msgIn h))) = Some c)
     \<and> rc_Members (get_cluster s c) = rc_Members (get_cluster r c) @ [m]
     \<and> rc_MembersByName (get_cluster s c) (ci_GetName m) = Some m
     \<and> s = put_cluster c (get_cluster s c) r
     \<and> ih_msgOut k = Some (join_reply (get_cluster r c)) \<and> ih_exitState k = JOIN_RCVD"
  using assms by (rule doJoinMsg_joins)

definition ref_join_handler :: InHandler where
  "ref_join_handler = ref_handler (Some (ref_client ''al'' 1)) 1
     (zeroMsg\<lparr>msg_Op := Some XLRegMsg_Join, msg_ClusterName := Some ''club''\<rparr>)"

definition ref_registry3 :: "((bytes \<times> hval) list, bytes list) Registry" where
  "ref_registry3 = ref_registry1\<lparr>reg_idFilter := [ref_id 1, ref_id 9, ref_id 3]\<rparr>"

lemma ref_registry3_inv: "srv_inv hlib ref_registry3"
proof -
  have "reg_inv hlib ref_registry1"
    by (rule AddCluster_inv [OF reflib_hamt reflib_nodeids ref_registry_one_inv _ ref_add_cluster]) (simp add: ref_registry_def)
  then have "reg_inv hlib ref_registry3"
    by (rule reg_inv_cong) (simp_all add: ref_registry3_def)
  then show ?thesis
    by (simp add: srv_inv_def cluster_known_def known_def)
      (simp add: ref_registry3_def ref_registry1_def ref_registry_def ref_cluster_def)
qed

lemma ref_doJoinMsg:
  "doJoinMsg hlib ref_registry3 ref_join_handler =
     Ret (put_cluster 0 (ref_cluster 9 [ref_client ''al'' 1]) ref_registry3,
       ref_join_handler\<lparr>ih_cluster := Some 0, ih_msgOut := Some (join_reply (ref_cluster 9 [])),
         ih_exitState := 3, ih_errOut := None\<rparr>)"
proof -
  have g: "get_cluster ref_registry3 0 = ref_cluster 9 []"
    by (simp add: ref_registry3_def ref_registry1_def ref_registry_def get_cluster_def)
  have a: "AddMember hlib (ref_client ''al'' 1) (ref_cluster 9 []) = (ref_cluster 9 [ref_client ''al'' 1], None)"
    using ref_cluster_add [of "ref_client ''al'' 1" "[]" 9] by simp
  have j: "join_cluster hlib ref_registry3 ref_join_handler ''club'' None = Ret (Some 0, None)"
    by (simp add: join_cluster_def ref_registry3_def ref_registry1_def)
  have h: "ih_thisClient ref_join_handler = Some (ref_client ''al'' 1)"
    "GetClusterName (ih_msgIn ref_join_handler) = ''club''" "GetClusterID (ih_msgIn ref_join_handler) = None"
    by (simp_all add: ref_join_handler_def ref_handler_def zeroMsg_def)
  have "join_reply (ref_cluster 9 [ref_client ''al'' 1]) = join_reply (ref_cluster 9 [])"
    by (simp add: join_reply_def ref_cluster_def)
  then show ?thesis
    unfolding doJoinMsg_def Let_def h by (simp add: j g a)
qed

theorem join_ok_witness:
  "rc_Members (get_cluster (put_cluster 0 (ref_cluster 9 [ref_client ''al'' 1]) ref_registry3) 0) = [ref_client ''al'' 1]"
proof -
  have "sess_refs hlib ref_registry3 ref_join_handler"
    by (simp add: sess_refs_def ref_join_handler_def ref_handler_def known_def) (simp add: ref_registry3_def)
  from join_ok [OF hlib_ok ref_registry3_inv this ref_doJoinMsg] show ?thesis
    by (auto simp: ref_join_handler_def ref_handler_def ref_registry3_def ref_registry1_def ref_registry_def
        get_cluster_def ref_cluster_def)
qed

end
