(* ===== verification/Server.thy ===== *)
theory Server
  imports Sessions
begin

text \<open>
  The server as a whole, with each message handled without interruption: the inputs that end the
  process, which requests are refused and how all others are answered, and that no interleaving of
  whole messages breaks the registry.
\<close>

section \<open>Calls that return\<close>

definition returns :: "'a outcome \<Rightarrow> bool" where
  "returns m \<longleftrightarrow> (case m of Ret _ \<Rightarrow> True | _ \<Rightarrow> False)"

lemma returns_simps [simp]: "returns (Ret x)" "\<not> returns (Panic p)" "\<not> returns Hang"
  by (simp_all add: returns_def)

lemma returns_iff: "returns m \<longleftrightarrow> (\<exists>x. m = Ret x)"
  by (cases m) auto

lemma returns_obind: "returns m \<Longrightarrow> (\<And>x. m = Ret x \<Longrightarrow> returns (f x)) \<Longrightarrow> returns (obind m f)"
  by (cases m) auto

text \<open>
  The generator of IDs works, and one of its next draws is not known to the registry.
\<close>

definition random_ok :: "('h, hval, 'b, 'z) reglib_scheme \<Rightarrow> ('h, 'b) Registry \<Rightarrow> bool" where
  "random_ok L r \<longleftrightarrow> (\<forall>d. \<exists>n. xi_Random L d = Inr n) \<and> (\<exists>k \<ge> reg_draws r. \<not> taken_draw L r k)"

lemma InsertUniqueNodeID_returns:
  assumes "random_ok L r"
  shows "returns (InsertUniqueNodeID L r)"
proof -
  obtain u where u: "unique_loop L r (reg_draws r) = Some u"
    using assms unique_loop_ends_iff [of L r "reg_draws r"] by (auto simp: random_ok_def)
  then obtain k where k: "u = draw_result L r k" using unique_loop_result by blast
  obtain n where "xi_Random L k = Inr n" using assms by (auto simp: random_ok_def)
  with k have "returns u" by (simp add: draw_result_def split: sum.split)
  with u show ?thesis
    unfolding InsertUniqueNodeID_def by (intro returns_obind) (auto simp: Let_def split: option.split sum.split)
qed

lemma client_node_id_returns: "random_ok L r \<Longrightarrow> returns (client_node_id L i r)"
  using InsertUniqueNodeID_returns [of L r]
  by (auto simp: client_node_id_def returns_iff split: option.split sum.split prod.split)

lemma client_node_id_None:
  "client_node_id L i r = Ret (s, None, err) \<Longrightarrow> \<exists>e. err = Some (Ext e)"
  by (auto simp: client_node_id_def ext_def obind_Ret_iff split: option.splits sum.splits prod.splits if_splits)

lemma doClientMsg_returns:
  assumes "random_ok L r"
  shows "returns (doClientMsg L r h)"
proof (cases "client_keys L (GetMemberSpecs (ih_msgIn h))")
  case (Inl e)
  then show ?thesis by (simp add: doClientMsg_def Let_def del: msg_getters token_getters)
next
  case (Inr ks)
  obtain ck sk where ks: "ks = (ck, sk)" by fastforce
  let ?i = "Token_GetID (GetMemberSpecs (ih_msgIn h))"
  obtain s n err where c: "client_node_id L ?i r = Ret (s, n, err)"
    using client_node_id_returns [OF assms, of ?i] by (auto simp: returns_iff simp del: msg_getters token_getters)
  have "n = None \<Longrightarrow> \<exists>e. err = Some (Ext e)"
    using c client_node_id_None [of L ?i r s err] by simp
  then show ?thesis
    unfolding doClientMsg_def Let_def Inr ks sum.case prod.case c obind.simps
    by (auto simp del: msg_getters token_getters split: sum.split option.split)
qed

lemma known_cluster_id:
  assumes "nodeids_ok L" and "srv_inv L r" and "c < length (reg_heap r)"
  obtains k where "rc_ID (get_cluster r c) = Some k" and "xi_New L k = Inr (NodeID k)"
proof -
  have "cluster_known L r (get_cluster r c)"
    using assms(2,3) by (simp add: srv_inv_def get_cluster_def)
  then obtain k where k: "rc_ID (get_cluster r c) = Some k" "valid_id k"
    by (cases "rc_ID (get_cluster r c)") (simp_all add: cluster_known_def valid_id_def)
  show ?thesis using that [OF k(1)] nodeids_okD(1) [OF assms(1) k(2)] by simp
qed

lemma create_existing_returns:
  assumes "nodeids_ok L" and "srv_inv L r" and "c < length (reg_heap r)"
  shows "returns (create_existing L c r h)"
proof -
  obtain k where "rc_ID (get_cluster r c) = Some k" "xi_New L k = Inr (NodeID k)"
    using assms by (rule known_cluster_id)
  then show ?thesis by (simp add: create_existing_def Let_def xi_New_or_random_def)
qed

lemma AddCluster_returns:
  assumes "rc_ID (get_cluster r c) = Some k" and "xi_New L k = Inr n"
  shows "returns (AddCluster L (Some c) r)"
  using assms
  by (auto simp: AddCluster_def cluster_insert_def rc_GetNodeID_def xi_New_or_random_def Let_def
      split: prod.split option.split)

lemma create_new_returns:
  assumes "nodeids_ok L" and "random_ok L r"
  shows "returns (create_new L name attrs sz eps r h)"
proof -
  obtain s n err where u: "InsertUniqueNodeID L r = Ret (s, n, err)"
    using InsertUniqueNodeID_returns [OF assms(2)] by (auto simp: returns_iff)
  note run = create_new_def [of L name attrs sz eps r h, unfolded Let_def u obind.simps prod.case]
  show ?thesis
  proof (cases err)
    case None
    have v: "xi_New L (Value n) = Inr (NodeID (Value n))"
      using u None nodeids_okD(1,3) [OF assms(1)] by (cases rule: InsertUniqueNodeID_Ret) simp_all
    show ?thesis
    proof (cases "NewRegCluster L name n 0 (clamp_size sz) eps")
      case (Inr rc)
      obtain c s' where nc: "new_cluster rc s = (c, s')" by fastforce
      then have "get_cluster s' c = rc" by (auto simp: new_cluster_def get_cluster_def)
      moreover have "rc_ID rc = Some (Value n)" using Inr by (auto simp: NewRegCluster_Inr)
      ultimately have "returns (AddCluster L (Some c) s')" using v by (intro AddCluster_returns) simp_all
      then show ?thesis
        unfolding run None option.case Inr sum.case nc prod.case
        by (intro returns_obind) (auto split: option.split)
    qed (simp add: run None)
  qed (simp add: run)
qed

lemma named_cluster:
  "srv_inv L r \<Longrightarrow> reg_ClustersByName r n = Some c \<Longrightarrow> c < length (reg_heap r)"
  by (simp add: srv_inv_def reg_inv_def reg_index_inv_def reg_names_inv_def)

lemma doCreateMsg_returns:
  assumes "nodeids_ok L" and "srv_inv L r" and "random_ok L r"
  shows "returns (doCreateMsg L r h)"
  using create_existing_returns [OF assms(1,2) named_cluster [OF assms(2)]] create_new_returns [OF assms(1,3)]
  by (auto simp: doCreateMsg_def Let_def simp del: msg_getters split: option.split)

text \<open>The ID index has clusters only, so no type assertion fails.\<close>

lemma indexed_cluster:
  "srv_inv L r \<Longrightarrow> fst (ha_Find L (reg_ClustersByID r) k) = Some v \<Longrightarrow> \<exists>c. v = HCluster c"
  unfolding srv_inv_def reg_inv_def reg_index_inv_def reg_ids_inv_def by blast

lemma doGetMsg_returns:
  assumes "srv_inv L r"
  shows "returns (doGetMsg L r h)"
proof -
  obtain k e where k: "NewBytesKey L (slice_of (GetClusterID (ih_msgIn h))) = (k, e)" by fastforce
  obtain v f where f: "ha_Find L (reg_ClustersByID r) k = (v, f)" by fastforce
  then have "v = None \<or> (\<exists>c. v = Some (HCluster c))"
    using indexed_cluster [OF assms, of k] by (cases v) auto
  then show ?thesis
    unfolding doGetMsg_def Let_def k prod.case
    by (auto simp: f simp del: msg_getters split: option.split prod.split)
qed

text \<open>The cluster that a Join asks for exists.\<close>

definition join_found :: "('h, hval, 'b, 'z) reglib_scheme \<Rightarrow> ('h, 'b) Registry \<Rightarrow> 'x InHandler_scheme \<Rightarrow> XLRegMsg \<Rightarrow> bool" where
  "join_found L r h msg \<longleftrightarrow>
     (\<exists>c e. join_cluster L r h (GetClusterName (Some msg)) (GetClusterID (Some msg)) = Ret (Some c, e))"

lemma join_cluster_msgIn: "join_cluster L r (h\<lparr>ih_msgIn := m\<rparr>) nm i = join_cluster L r h nm i"
proof -
  have e: "ih_cluster (h\<lparr>ih_msgIn := m\<rparr>) = ih_cluster h" by simp
  show ?thesis unfolding join_cluster_def e ..
qed

lemma doJoinMsg_returns:
  assumes "join_found L r h msg" and "ih_msgIn h = Some msg" and "ih_thisClient h \<noteq> None"
  shows "returns (doJoinMsg L r h)"
  using assms by (auto simp: doJoinMsg_def join_found_def Let_def simp del: msg_getters split: option.split prod.split)

lemma join_found_msgIn [simp]: "join_found L r (h\<lparr>ih_msgIn := i\<rparr>) msg = join_found L r h msg"
  by (simp add: join_found_def join_cluster_msgIn)

lemma dispatch_returns:
  fixes L :: "('h, hval, 'b, 'z) reglib_scheme" and h :: "'x InHandler_scheme"
  assumes "libs_ok L" and "srv_inv L r" and "random_ok L r" and "sess_inv L r h"
    and "ih_msgIn h = Some msg" and "ih_entryState h \<le> JOIN_RCVD" and "0 \<le> t" and "t \<le> 4"
    and "t = 2 \<Longrightarrow> ih_entryState h = 1 \<or> ih_entryState h = 2 \<Longrightarrow> join_found L r h msg"
  shows "returns (dispatch L t r h)"
proof -
  have N: "nodeids_ok L" using assms(1) by (simp add: libs_ok_def)
  have "index2 (msgHandlers L :: (('h, 'b) Registry \<Rightarrow> 'x InHandler_scheme \<Rightarrow> _) list list) (ih_entryState h) t \<noteq> None"
    using assms(6-8) by (simp add: index2_msgHandlers_None)
  then obtain f :: "('h, 'b) Registry \<Rightarrow> 'x InHandler_scheme \<Rightarrow> (('h, 'b) Registry \<times> 'x InHandler_scheme) outcome"
    where f: "index2 (msgHandlers L) (ih_entryState h) t = Some f" by (elim exE not_None_eq [THEN iffD1, elim_format])
  from index2_msgHandlers [OF f]
  consider "f = doClientMsg L" | "f = doCreateMsg L" | "f = doGetMsg L" | "f = doByeMsg" | "f = badCombo"
    | "ih_entryState h = 1 \<or> ih_entryState h = 2" "t = 2" "f = doJoinMsg L"
    by (elim conjE disjE) (rule that; (assumption | (rule disjI1, assumption) | (rule disjI2, assumption)))+
  then have "returns (f r h)"
  proof cases
    case 6
    then have "ih_thisClient h \<noteq> None" using assms(4) by (auto simp: sess_inv_def)
    with 6(3) doJoinMsg_returns [OF assms(9) [OF 6(2,1)] assms(5)] show ?thesis by simp
  qed (simp_all add: doClientMsg_returns [OF assms(3)] doCreateMsg_returns [OF N assms(2,3)] doGetMsg_returns [OF assms(2)]
      doByeMsg_def badCombo_def)
  with f show ?thesis by (simp add: dispatch_def)
qed

section \<open>Messages that end the process\<close>

text \<open>
  The combinations of state, tag and contents that the server does not survive: the table has no
  entry, or a Join asks for a cluster that is not there.
\<close>

definition fatal :: "('h, hval, 'b, 'z) reglib_scheme \<Rightarrow> ('h, 'b) Registry \<Rightarrow> 'x InHandler_scheme \<Rightarrow> XLRegMsg \<Rightarrow> bool" where
  "fatal L r h msg \<longleftrightarrow> (let t = op2tag (GetOp (Some msg)); e = ih_entryState h
     in JOIN_RCVD < e \<or> t < 0 \<or> 4 < t \<or> t = 2 \<and> (e = 1 \<or> e = 2) \<and> \<not> join_found L r h msg)"

lemma obind_Panic: "m = Panic p \<Longrightarrow> obind m f = Panic p"
  by simp

lemma doJoinMsg_lost:
  assumes "ih_msgIn h = Some msg" and "\<not> join_found L r h msg"
  shows "\<exists>p. doJoinMsg L r h = Panic p"
proof (cases "ih_thisClient h")
  case (Some m)
  let ?j = "join_cluster L r h (GetClusterName (Some msg)) (GetClusterID (Some msg))"
  have "?j \<noteq> Hang"
    unfolding join_cluster_def by (auto simp del: msg_getters split: option.split prod.split hval.split)
  then show ?thesis
    using assms Some by (cases ?j) (auto simp: doJoinMsg_def join_found_def Let_def simp del: msg_getters split: option.splits)
qed (simp add: doJoinMsg_def Let_def)

lemma fatal_panics:
  fixes L :: "('h, hval, 'b, 'z) reglib_scheme" and h :: "'x InHandler_scheme"
  assumes "fatal L r h msg"
  shows "\<exists>p. handle_message L msg r h = Panic p"
proof -
  let ?t = "op2tag (GetOp (Some msg))" and ?e = "ih_entryState h"
  define h' where "h' = (if ?t < 0 \<or> ?t > 4 then h\<lparr>ih_msgIn := Some msg, ih_errOut := Some TagOutOfRange\<rparr>
      else h\<lparr>ih_msgIn := Some msg\<rparr>)"
  have e: "ih_entryState h' = ?e" by (simp add: h'_def)
  have "\<exists>p. dispatch L ?t r h' = Panic p"
  proof (cases "JOIN_RCVD < ?e \<or> ?t < 0 \<or> 4 < ?t")
    case True
    then show ?thesis by (simp add: dispatch_def e index2_msgHandlers_None [THEN iffD2, OF True] del: msg_getters)
  next
    case False
    with assms have j: "?t = 2" "?e = 1 \<or> ?e = 2" "\<not> join_found L r h msg"
      by (auto simp: fatal_def Let_def simp del: msg_getters)
    then have "dispatch L ?t r h' = doJoinMsg L r h'"
      by (auto simp: dispatch_def e index2_def msgHandlers_def simp del: msg_getters)
    moreover have "\<exists>p. doJoinMsg L r h' = Panic p"
      using j by (intro doJoinMsg_lost [of _ msg]) (simp_all add: h'_def del: msg_getters)
    ultimately show ?thesis by simp
  qed
  then show ?thesis
    by (auto simp: handle_message_def Let_def h'_def simp del: msg_getters)
qed

lemma handle_message_returns:
  assumes "libs_ok L" and "srv_inv L r" and "random_ok L r" and "sess_inv L r h" and "\<not> fatal L r h msg"
  shows "returns (handle_message L msg r h)"
proof -
  let ?t = "op2tag (GetOp (Some msg))" and ?h = "h\<lparr>ih_msgIn := Some msg\<rparr>"
  have t: "ih_entryState h \<le> JOIN_RCVD" "0 \<le> ?t" "?t \<le> 4"
    "?t = 2 \<Longrightarrow> ih_entryState h = 1 \<or> ih_entryState h = 2 \<Longrightarrow> join_found L r h msg"
    using assms(5) by (auto simp: fatal_def Let_def simp del: msg_getters)
  have "sess_inv L r ?h" using assms(4) by (simp add: sess_inv_def)
  with assms(1-3) have "returns (dispatch L ?t r ?h)"
    by (rule dispatch_returns [where msg = msg]) (use t in simp_all)
  then show ?thesis
    using t by (simp add: handle_message_def Let_def del: msg_getters) (auto simp: returns_iff)
qed

section \<open>Requests that are refused\<close>

text \<open>The stores take what they are given: the filter, the tries, and the making of a trie do not fail.\<close>

definition stores_work :: "('h, hval, 'b, 'z) reglib_scheme \<Rightarrow> bool" where
  "stores_work L \<longleftrightarrow> (\<forall>f b. \<exists>x. bf_IsMember L f b = Inr x) \<and> (\<forall>f b. \<exists>f'. bf_Insert L f b = Inr f')
     \<and> (\<forall>h k v. snd (ha_Insert L h k v) = None) \<and> (\<forall>w t. \<exists>h. NewHAMT L w t = Inr h)"

text \<open>
  Why a request is refused, besides coming in the wrong state. A Member: its keys or its signature are
  bad, its ID is not one, or no node can be made of it. A Create: it names no cluster, and the cluster
  of the default name is there already. A Join: the cluster has a member of the client's name, or its
  own ID is the ID of a member, or the client's ID is not a key. A GetCluster: no cluster has the ID.
  A Bye is never refused.
\<close>

definition client_refused :: "('h, hval, 'b, 'z) reglib_scheme \<Rightarrow> ('h, 'b) Registry \<Rightarrow> XLRegMsg_Token option \<Rightarrow> bool" where
  "client_refused L r specs \<longleftrightarrow> (\<exists>e. client_keys L specs = Inl e)
     \<or> (\<exists>b e. Token_GetID specs = Some b \<and> xi_New L b = Inl e)
     \<or> (\<exists>ck sk s n err e. client_keys L specs = Inr (ck, sk) \<and> client_node_id L (Token_GetID specs) r = Ret (s, n, err)
          \<and> NewClientInfo L (Token_GetName specs) n (Some ck) (Some sk) (Token_GetAttrs specs) (Token_GetMyEnds specs) = Inl e)"

definition create_refused :: "('h, 'b) Registry \<Rightarrow> XLRegMsg \<Rightarrow> bool" where
  "create_refused r msg \<longleftrightarrow> GetClusterName (Some msg) = [] \<and> reg_ClustersByName r [] = None \<and> reg_ClustersByName r ''xlCluster'' \<noteq> None"

definition join_refused :: "('h, hval, 'b, 'z) reglib_scheme \<Rightarrow> ('h, 'b) Registry \<Rightarrow> 'x InHandler_scheme \<Rightarrow> XLRegMsg \<Rightarrow> bool" where
  "join_refused L r h msg \<longleftrightarrow> (\<exists>c m. join_cluster L r h (GetClusterName (Some msg)) (GetClusterID (Some msg)) = Ret (Some c, None)
     \<and> ih_thisClient h = Some m
     \<and> (member_name_in_use (get_cluster r c) m
        \<or> fst (ha_Find L (rc_MembersByID (get_cluster r c)) (slice_of (rc_ID (get_cluster r c)))) \<noteq> None
        \<or> snd (NewBytesKey L (ci_ID m)) \<noteq> None))"

definition get_refused :: "('h, hval, 'b, 'z) reglib_scheme \<Rightarrow> ('h, 'b) Registry \<Rightarrow> XLRegMsg \<Rightarrow> bool" where
  "get_refused L r msg \<longleftrightarrow> (case NewBytesKey L (slice_of (GetClusterID (Some msg))) of
     (k, err) \<Rightarrow> err \<noteq> None \<or> fst (ha_Find L (reg_ClustersByID r) k) = None)"

definition refused :: "('h, hval, 'b, 'z) reglib_scheme \<Rightarrow> ('h, 'b) Registry \<Rightarrow> 'x InHandler_scheme \<Rightarrow> XLRegMsg \<Rightarrow> bool" where
  "refused L r h msg \<longleftrightarrow> (let t = op2tag (GetOp (Some msg)); e = ih_entryState h
     in t = 0 \<and> (e \<noteq> HELLO_RCVD \<or> client_refused L r (GetMemberSpecs (Some msg)))
      \<or> t = 1 \<and> (e \<noteq> CLIENT_DETAILS_RCVD \<or> create_refused r msg)
      \<or> t = 2 \<and> (e \<noteq> CLIENT_DETAILS_RCVD \<and> e \<noteq> CREATE_REQUEST_RCVD \<or> join_refused L r h msg)
      \<or> t = 3 \<and> (e \<noteq> JOIN_RCVD \<or> get_refused L r msg))"

lemma stores_workD:
  assumes "stores_work L"
  shows "\<exists>x. bf_IsMember L f b = Inr x" and "\<exists>f'. bf_Insert L f b = Inr f'" and "\<exists>h'. ha_Insert L h k v = (h', None)"
    and "\<exists>h. NewHAMT L w t = Inr h"
  using assms unfolding stores_work_def by (blast, blast, metis prod.collapse, blast)

lemma stores_InsertUniqueNodeID:
  assumes "stores_work L" and "InsertUniqueNodeID L r = Ret (s, n, err)"
  shows "err = None"
proof -
  have c: "ContainsID L m r \<noteq> Inl e" for m e
    using stores_workD(1) [OF assms(1), of "reg_idFilter r" "Value m"] by (auto simp: ContainsID_def ext_def)
  obtain f where f: "bf_Insert L (reg_idFilter r) (Value n) = Inr f" using stores_workD(2) [OF assms(1)] by blast
  obtain m d e where u: "of_loop (unique_loop L r (reg_draws r)) = Ret (m, d, e)"
    and r: "e = None \<Longrightarrow> m = n \<Longrightarrow> err = None" "m = n"
    using assms(2) f by (auto simp: InsertUniqueNodeID_def obind_Ret_iff Let_def split: option.splits sum.splits)
  obtain k where "Ret (m, d, e) = draw_result L r k"
    using u unique_loop_result [of L r "reg_draws r"] by (cases "unique_loop L r (reg_draws r)") auto
  then have "e = None" using c by (auto simp: draw_result_def split: sum.splits)
  with r show ?thesis by simp
qed

lemma stores_client_node_id:
  assumes "stores_work L" and "client_node_id L i r = Ret (s, n, err)"
  shows "(\<exists>b e. i = Some b \<and> xi_New L b = Inl e) \<or> err = None \<and> n \<noteq> None"
proof (cases i)
  case None
  with assms(2) stores_InsertUniqueNodeID [OF assms(1)] show ?thesis by (auto simp: client_node_id_def obind_Ret_iff)
next
  case (Some b)
  show ?thesis
  proof (cases "xi_New L b")
    case (Inl e)
    with Some show ?thesis by simp
  next
    case (Inr m)
    obtain x where x: "bf_IsMember L (reg_idFilter r) (Value m) = Inr x" using stores_workD(1) [OF assms(1)] by blast
    obtain f where f: "bf_Insert L (reg_idFilter r) (Value m) = Inr f" using stores_workD(2) [OF assms(1)] by blast
    from assms(2) Some Inr x f show ?thesis
      by (cases x) (auto simp: client_node_id_def ContainsID_def InsertID_def)
  qed
qed

lemma doClientMsg_refused:
  assumes "stores_work L" and "ih_msgIn h = Some msg" and "doClientMsg L r h = Ret (s, k)"
  shows "ih_errOut k = None \<longleftrightarrow> \<not> client_refused L r (GetMemberSpecs (Some msg))"
proof (cases "client_keys L (GetMemberSpecs (Some msg))")
  case (Inl e)
  with assms(2,3) show ?thesis by (auto simp: doClientMsg_def client_refused_def Let_def simp del: token_getters msg_getters)
next
  case (Inr p)
  obtain ck sk where p: "p = (ck, sk)" by fastforce
  note run = assms(3) [unfolded doClientMsg_def Let_def assms(2) Inr p sum.case prod.case]
  then obtain s' n err where i: "client_node_id L (Token_GetID (GetMemberSpecs (Some msg))) r = Ret (s', n, err)"
    by (auto simp: obind_Ret_iff simp del: token_getters msg_getters)
  note run = run [unfolded i obind.simps prod.case]
  consider (bad) b e where "Token_GetID (GetMemberSpecs (Some msg)) = Some b" "xi_New L b = Inl e"
    | (ok) "err = None" "n \<noteq> None" "\<nexists>b e. Token_GetID (GetMemberSpecs (Some msg)) = Some b \<and> xi_New L b = Inl e"
    using stores_client_node_id [OF assms(1) i] by blast
  then show ?thesis
  proof cases
    case bad
    with i have "err = Some (Ext e)" by (auto simp: client_node_id_def simp del: token_getters msg_getters)
    with run have "ih_errOut k \<noteq> None" by auto
    with bad show ?thesis by (auto simp: client_refused_def simp del: token_getters msg_getters)
  next
    case ok
    with run Inr p i show ?thesis
      by (auto simp: client_refused_def simp del: token_getters msg_getters split: sum.splits option.splits)
  qed
qed

lemma clamp_nonzero: "clamp_size n \<noteq> 0"
  by (auto simp: clamp_size_def MIN_CLUSTER_SIZE_def MAX_CLUSTER_SIZE_def)

lemma create_new_refused:
  assumes "libs_ok L" and "srv_inv L r" and "stores_work L" and "reg_ClustersByName r nm = None"
    and "create_new L nm a ms n r h = Ret (s, k)"
  shows "ih_errOut k = None \<longleftrightarrow> \<not> (nm = [] \<and> reg_ClustersByName r ''xlCluster'' \<noteq> None)"
proof -
  have lib: "hamt_ok L" "nodeids_ok L" "bloom_ok L" using assms(1) by (simp_all add: libs_ok_def)
  obtain r1 i where i: "InsertUniqueNodeID L r = Ret (r1, i, None)"
    using assms(5) stores_InsertUniqueNodeID [OF assms(3)] by (auto simp: create_new_def Let_def obind_Ret_iff)
  obtain d f where r1: "r1 = r\<lparr>reg_draws := d, reg_idFilter := f\<rparr>" "xi_Random L (d - 1) = Inr i"
    using i by (cases rule: InsertUniqueNodeID_Ret) simp_all
  note st = InsertUniqueNodeID_step [OF lib(3) assms(2) i]
  obtain m where "NewHAMT L (ha_MAX_W L) (NextExp2_32 L (clamp_size ms)) = Inr m" using stores_workD(4) [OF assms(3)] by blast
  then obtain rc where rc: "NewRegCluster L nm i 0 (clamp_size ms) n = Inr rc"
      "rc_Name rc = (if nm = [] then ''xlCluster'' else nm)" "rc_ID rc = Some (Value i)"
    using NewRegCluster_Inr [of L nm i 0 "clamp_size ms" n] clamp_nonzero by auto
  define c where "c = length (reg_heap r1)"
  define r2 where "r2 = r1\<lparr>reg_heap := reg_heap r1 @ [rc]\<rparr>"
  have n2: "new_cluster rc r1 = (c, r2)" by (simp add: new_cluster_def c_def r2_def)
  have get: "get_cluster r2 c = rc" by (simp add: get_cluster_def c_def r2_def)
  have key: "NewBytesKey L (Value i) = (Value i, None)"
    using hamt_okD(5) [OF lib(1)] nodeids_okD(3) [OF lib(2) r1(2)] by simp
  have find: "ha_Find L (reg_ClustersByID r2) (Value i) = (None, None)"
  proof -
    have "ha_Find L (reg_ClustersByID r2) (Value i) = ha_Find L (reg_ClustersByID r) (Value i)" by (simp add: r2_def r1(1))
    moreover have "fst (ha_Find L (reg_ClustersByID r) (Value i)) = None"
    proof (rule ccontr)
      assume "fst (ha_Find L (reg_ClustersByID r) (Value i)) \<noteq> None"
      then obtain c where "c \<in> set (reg_Clusters r)" "rc_ID (get_cluster r c) = Some (Value i)"
        using assms(2) unfolding srv_inv_def reg_inv_def reg_index_inv_def reg_ids_inv_def by blast
      moreover from this(1) have "get_cluster r c \<in> set (reg_heap r)" using assms(2) by (auto simp: srv_inv_def reg_inv_def get_cluster_def)
      ultimately have "known L r (Value i)" using assms(2) by (auto simp: srv_inv_def cluster_known_def dest!: bspec)
      with st(4) show False by simp
    qed
    moreover have "snd (ha_Find L (reg_ClustersByID r) (Value i)) = None"
      using assms(2) by (simp add: srv_inv_def reg_inv_def reg_index_inv_def reg_ids_inv_def)
    ultimately show ?thesis by (simp add: prod_eq_iff)
  qed
  have "xi_New L (Value i) = Inr i" using nodeids_okD(1) [OF lib(2) nodeids_okD(3) [OF lib(2) r1(2)]] by simp
  then have "rc_GetNodeID L (reg_draws r2) (get_cluster r2 c) = Some i"
    by (simp add: rc_GetNodeID_def xi_New_or_random_def get rc(3))
  moreover obtain t where "ha_Insert L (reg_ClustersByID r2) (Value i) (HCluster c) = (t, None)" using stores_workD(3) [OF assms(3)] by blast
  ultimately have "\<exists>s' j. cluster_insert L c r2 = Ret (s', j, None)"
    using key get rc(3) by (simp add: cluster_insert_def Let_def)
  then have "(\<exists>s' j. AddCluster L (Some c) r2 = Ret (s', j, None)) \<longleftrightarrow> reg_ClustersByName r (rc_Name rc) = None"
    using key find get rc(3) by (auto simp: AddCluster_def r2_def r1(1))
  moreover obtain s' j e where e: "AddCluster L (Some c) r2 = Ret (s', j, e)"
    using assms(5) i rc(1) n2 by (auto simp: create_new_def Let_def obind_Ret_iff)
  moreover have "ih_errOut k = e"
    using assms(5) i rc(1) n2 e by (cases e) (auto simp: create_new_def Let_def)
  ultimately have "ih_errOut k = None \<longleftrightarrow> reg_ClustersByName r (rc_Name rc) = None" by auto
  then show ?thesis using assms(4) rc(2) by auto
qed

lemma doCreateMsg_refused:
  assumes "libs_ok L" and "srv_inv L r" and "stores_work L" and "ih_msgIn h = Some msg" and "doCreateMsg L r h = Ret (s, k)"
  shows "ih_errOut k = None \<longleftrightarrow> \<not> create_refused r msg"
proof (cases "reg_ClustersByName r (GetClusterName (Some msg))")
  case None
  with assms(4,5) have "create_new L (GetClusterName (Some msg)) (GetClusterAttrs (Some msg)) (GetClusterMaxSize (Some msg))
      (GetEndPointCount (Some msg)) r h = Ret (s, k)" by (simp add: doCreateMsg_def Let_def del: msg_getters)
  from create_new_refused [OF assms(1-3) None this] None show ?thesis by (auto simp: create_refused_def simp del: msg_getters)
next
  case (Some c)
  with assms(4,5) have "create_existing L c r h = Ret (s, k)" by (simp add: doCreateMsg_def Let_def del: msg_getters)
  then have "ih_errOut k = None" by (auto simp: create_existing_def Let_def split: sum.splits)
  with Some show ?thesis by (auto simp: create_refused_def simp del: msg_getters)
qed

lemma AddMember_refused:
  assumes "libs_ok L" and "stores_work L" and "srv_inv L r" and "c < length (reg_heap r)"
  shows "snd (AddMember L m (get_cluster r c)) = None \<longleftrightarrow> \<not> (member_name_in_use (get_cluster r c) m
        \<or> fst (ha_Find L (rc_MembersByID (get_cluster r c)) (slice_of (rc_ID (get_cluster r c)))) \<noteq> None
        \<or> snd (NewBytesKey L (ci_ID m)) \<noteq> None)"
proof -
  let ?rc = "get_cluster r c"
  have in_heap: "?rc \<in> set (reg_heap r)" using assms(4) by (simp add: get_cluster_def)
  then have "valid_id (slice_of (rc_ID ?rc))" "ids_inv L ?rc"
    using assms(3) by (auto simp: srv_inv_def reg_inv_def cluster_inv_def cluster_known_def)
  then have "NewBytesKey L (slice_of (rc_ID ?rc)) = (slice_of (rc_ID ?rc), None)"
      "snd (ha_Find L (rc_MembersByID ?rc) (slice_of (rc_ID ?rc))) = None"
    using assms(1) hamt_okD(5) [of L] by (simp_all add: libs_ok_def ids_inv_def)
  then have i: "member_id_check L ?rc = None \<longleftrightarrow> fst (ha_Find L (rc_MembersByID ?rc) (slice_of (rc_ID ?rc))) = None"
    by (cases "ha_Find L (rc_MembersByID ?rc) (slice_of (rc_ID ?rc))") (simp add: member_id_check_def split: option.split)
  have m: "snd (member_insert L ?rc m) = None \<longleftrightarrow> snd (NewBytesKey L (ci_ID m)) = None"
    using stores_workD(3) [OF assms(2), of "rc_MembersByID ?rc" "fst (NewBytesKey L (ci_ID m))" "HClient m"]
    by (cases "NewBytesKey L (ci_ID m)") (auto simp: member_insert_def Let_def split: option.split)
  show ?thesis using i m by (auto simp: AddMember_def split: option.split)
qed

lemma join_cluster_range:
  assumes "srv_inv L r" and "sess_refs L r h" and "join_cluster L r h nm i = Ret (Some c, e)"
  shows "c < length (reg_heap r) \<and> e = None"
proof -
  have n: "c < length (reg_heap r)" if "reg_ClustersByName r nm = Some c" for c
    using assms(1) that by (auto simp: srv_inv_def reg_inv_def reg_index_inv_def reg_names_inv_def)
  have i: "c < length (reg_heap r)" if "fst (ha_Find L (reg_ClustersByID r) k) = Some (HCluster c)" for c k
    using assms(1) that by (fastforce simp: srv_inv_def reg_inv_def reg_index_inv_def reg_ids_inv_def)
  show ?thesis
    using assms(2,3) n i by (auto simp: join_cluster_def sess_refs_def split: option.splits if_splits prod.splits hval.splits)
qed

lemma doJoinMsg_refused:
  assumes "libs_ok L" and "srv_inv L r" and "stores_work L" and "sess_refs L r h" and "ih_msgIn h = Some msg"
    and "doJoinMsg L r h = Ret (s, k)"
  shows "ih_errOut k = None \<longleftrightarrow> \<not> join_refused L r h msg"
proof -
  obtain m c e where m: "ih_thisClient h = Some m"
      "join_cluster L r h (GetClusterName (Some msg)) (GetClusterID (Some msg)) = Ret (Some c, e)"
    using assms(5,6) by (auto simp: doJoinMsg_def Let_def obind_Ret_iff simp del: msg_getters split: option.splits)
  have c: "c < length (reg_heap r)" "e = None" using join_cluster_range [OF assms(2,4) m(2)] by simp_all
  have "ih_errOut k = None \<longleftrightarrow> snd (AddMember L m (get_cluster r c)) = None"
    using assms(5,6) m c(2) by (auto simp: doJoinMsg_def Let_def simp del: msg_getters split: prod.splits option.splits)
  then show ?thesis
    unfolding AddMember_refused [OF assms(1,3,2) c(1)] using m c(2) by (auto simp: join_refused_def simp del: msg_getters)
qed

lemma doGetMsg_refused:
  assumes "srv_inv L r" and "ih_msgIn h = Some msg" and "doGetMsg L r h = Ret (s, k)"
  shows "ih_errOut k = None \<longleftrightarrow> \<not> get_refused L r msg"
proof -
  have "snd (ha_Find L (reg_ClustersByID r) b) = None" for b
    using assms(1) by (simp add: srv_inv_def reg_inv_def reg_index_inv_def reg_ids_inv_def)
  then have "ha_Find L (reg_ClustersByID r) b = (x, y) \<Longrightarrow> y = None" for b x y by (metis snd_conv)
  then show ?thesis
    using assms(2,3) by (auto simp: doGetMsg_def get_refused_def Let_def simp del: msg_getters split: prod.splits option.splits hval.splits)
qed

lemma error_reply_kept:
  "ih_errOut j = None \<Longrightarrow> error_reply j = j" "ih_errOut j \<noteq> None \<Longrightarrow> ih_exitState (error_reply j) = IN_CLOSED"
  "ih_errOut j \<noteq> None \<Longrightarrow> \<exists>m. ih_msgOut (error_reply j) = Some m \<and> msg_Op m = Some XLRegMsg_Error"
  by (auto simp: error_reply_def)

text \<open>The request's handler by the table, and its error.\<close>

lemma dispatch_refused:
  assumes "libs_ok L" and "srv_inv L r" and "stores_work L" and "sess_inv L r h" and "ih_msgIn h = Some msg"
    and "dispatch L (op2tag (GetOp (Some msg))) r h = Ret (s, k)"
  shows "ih_errOut k = None \<longleftrightarrow> \<not> refused L r h msg"
proof -
  let ?t = "op2tag (GetOp (Some msg))" and ?e = "ih_entryState h"
  have refs: "sess_refs L r h" using assms(4) by (simp add: sess_inv_def)
  have range: "?e \<le> 3" "0 \<le> ?t" "?t \<le> 4" using dispatch_answers [OF assms(6)] by auto
  define f where "f = (if ?t = 0 \<and> ?e = 0 then doClientMsg L r h else if ?t = 1 \<and> ?e = 1 then doCreateMsg L r h
     else if ?t = 2 \<and> (?e = 1 \<or> ?e = 2) then doJoinMsg L r h else if ?t = 3 \<and> ?e = 3 then doGetMsg L r h
     else if ?t = 4 then doByeMsg r h else badCombo r h)"
  have "dispatch L ?t r h = f"
  proof -
    have "?e = 0 \<or> ?e = 1 \<or> ?e = 2 \<or> ?e = 3" "?t = 0 \<or> ?t = 1 \<or> ?t = 2 \<or> ?t = 3 \<or> ?t = 4" using range by linarith+
    then show ?thesis
      by (elim disjE) (simp_all add: f_def dispatch_def index2_def msgHandlers_def del: msg_getters)
  qed
  then have run: "f = Ret (s, k)" using assms(6) by simp
  consider "?t = 0" "?e = 0" | "?t = 1" "?e = 1" | "?t = 2" "?e = 1 \<or> ?e = 2" | "?t = 3" "?e = 3" | "?t = 4"
    | "?t \<noteq> 4" "\<not> (?t = 0 \<and> ?e = 0)" "\<not> (?t = 1 \<and> ?e = 1)" "\<not> (?t = 2 \<and> (?e = 1 \<or> ?e = 2))" "\<not> (?t = 3 \<and> ?e = 3)"
    by metis
  then show ?thesis
  proof cases
    case 1
    with run doClientMsg_refused [OF assms(3,5)] show ?thesis by (simp add: f_def refused_def Let_def del: msg_getters)
  next
    case 2
    with run doCreateMsg_refused [OF assms(1-3,5)] show ?thesis by (simp add: f_def refused_def Let_def del: msg_getters)
  next
    case 3
    with run doJoinMsg_refused [OF assms(1-3) refs assms(5)] show ?thesis by (auto simp: f_def refused_def Let_def simp del: msg_getters)
  next
    case 4
    with run doGetMsg_refused [OF assms(2,5)] show ?thesis by (simp add: f_def refused_def Let_def del: msg_getters)
  next
    case 5
    with run show ?thesis by (auto simp: f_def refused_def Let_def doByeMsg_def simp del: msg_getters)
  next
    case 6
    then have "f = badCombo r h" by (auto simp: f_def simp del: msg_getters)
    moreover have "?t = 0 \<or> ?t = 1 \<or> ?t = 2 \<or> ?t = 3" using range 6(1) by linarith
    ultimately show ?thesis using run 6 by (auto simp: badCombo_def refused_def Let_def simp del: msg_getters)
  qed
qed

section \<open>A whole session\<close>

lemma send_reply_handler:
  assumes "send_reply L h cnx = (h', cnx', err)"
  obtains s where "h' = h\<lparr>ih_Session := s\<rparr>"
  using assms that [of "ih_Session h'"] that [of "ih_Session h"]
  by (auto simp: send_reply_def split: option.splits prod.splits sum.splits)

lemma sess_inv_Session [simp]: "sess_inv L r (h\<lparr>ih_Session := s\<rparr>) = sess_inv L r h"
  by (simp add: sess_inv_def sess_refs_def)

lemma start_loop_keeps:
  assumes "libs_ok L" and "srv_inv L r" and "sess_inv L r h" and "start_loop L r h cnx = Some (Ret (s, k, cnx', err))"
  shows "srv_inv L s \<and> reg_le L r s"
  using assms(2-4)
proof (induction "input_size cnx" arbitrary: r h cnx rule: less_induct)
  case less
  obtain data e cnx1 where rd: "ReadData cnx = (data, e, cnx1)" by (metis prod_cases3)
  note run = less.prems(3) [unfolded start_loop.simps [of L r h cnx] rd prod.case]
  show ?case
  proof (cases e)
    case (Some e)
    with run less.prems(1) show ?thesis by simp
  next
    case None
    then have small: "input_size cnx1 < input_size cnx" using rd ReadData_shrinks by blast
    show ?thesis
    proof (cases "DecryptUnpadDecode L (ih_Session h) (slice_of data)")
      case (Inl e)
      with None run less.prems(1) show ?thesis by simp
    next
      case (Inr msg)
      then obtain r1 h1 where hm: "handle_message L msg r h = Ret (r1, h1)"
        using None run by (cases "handle_message L msg r h") auto
      obtain h2 cnx2 err2 where sr: "send_reply L h1 cnx1 = (h2, cnx2, err2)" by (metis prod_cases3)
      obtain w where h2: "h2 = h1\<lparr>ih_Session := w\<rparr>" using sr by (rule send_reply_handler)
      let ?h = "h2\<lparr>ih_entryState := ih_exitState h2\<rparr>"
      have "message_turn L msg r h = Ret (r1, h1\<lparr>ih_entryState := ih_exitState h1\<rparr>)"
        by (simp add: message_turn_def hm)
      from message_turn_keeps [OF assms(1) less.prems(1,2) this]
      have k: "srv_inv L r1" "sess_inv L r1 ?h" "reg_le L r r1"
        by (simp_all add: h2 sess_inv_def sess_refs_def)
      have "s = r1 \<or> start_loop L r1 ?h cnx2 = Some (Ret (s, k, cnx', err))"
        using run None Inr hm sr by (auto simp: Let_def split: if_splits)
      moreover have "input_size cnx2 < input_size cnx" using small send_reply_input [OF sr] by simp
      ultimately show ?thesis using k less.hyps [OF _ k(1,2)] reg_le_trans [OF k(3)] by blast
    qed
  qed
qed

lemma Start_keeps:
  assumes "libs_ok L" and "srv_inv L r" and "Start L version r (new_handler L) cnx = Ret (s, k, cnx', err)"
  shows "srv_inv L s \<and> reg_le L r s \<and> cx_closed cnx'"
proof -
  obtain h cnx1 e where hello: "handleHello L version (reg_RegNode r) (new_handler L) cnx = (h, cnx1, e)"
    by (metis prod_cases3)
  have "sess_inv L r (new_handler L)"
    by (simp add: sess_inv_def sess_refs_def new_handler_def)
  then have h: "sess_inv L r h"
    using hello by (auto simp: handleHello_def sess_inv_def sess_refs_def Let_def split: prod.splits option.splits sum.splits)
  show ?thesis
  proof (cases e)
    case (Some x)
    then show ?thesis using assms(2,3) hello by (auto simp: Start_def Cnx_Close_def)
  next
    case None
    obtain out where o: "start_loop L r h cnx1 = Some out" using start_loop_ends by blast
    then obtain cnx2 where c: "out = Ret (s, k, cnx2, err)" "cnx' = Cnx_Close cnx2"
      using assms(3) hello None by (cases out) (auto simp: Start_def)
    show ?thesis
      using start_loop_keeps [OF assms(1,2) h o [unfolded c(1)]] by (simp add: Cnx_Close_def c(2))
  qed
qed

section \<open>Properties\<close>

text \<open>C7. Which messages end the process: with a generator that works, handling a message panics exactly
  when the state and the tag have no entry in the table (after a Bye, or with an operation outside
  the requests and replies) or a Join asks for a cluster that does not exist.\<close>

theorem server_crashes_iff:
  assumes "libs_ok L" and "srv_inv L r" and "random_ok L r" and "sess_inv L r h"
  shows "(\<exists>p. handle_message L msg r h = Panic p) \<longleftrightarrow> fatal L r h msg"
  using fatal_panics [of L r h msg] handle_message_returns [OF assms, of msg]
  by (cases "fatal L r h msg") (auto simp: returns_iff)


text \<open>When each message is handled without interruption: however the messages of any number of sessions
  are interleaved, from any consistent registry, it stays consistent (each index agrees with its list,
  cluster and member IDs are registered, cluster IDs are different), every session's client and cluster
  exist, and no ID, cluster or member is ever lost.\<close>

theorem interleaved_sessions_safe:
  assumes "libs_ok L" and "srv_inv L r0" and "interleaved (message_turn L) (\<lambda>h. h = idle_handler) (r0, []) (r, hs)"
  shows "srv_inv L r \<and> (\<forall>h \<in> set hs. sess_inv L r h) \<and> reg_le L r0 r"
  using registry.interleaved_safe [OF assms(3)] assms(1,2) by simp

text \<open>A whole connection, from the hello to the end of the loop, keeps the registry consistent, loses
  nothing, and closes the connection.\<close>

theorem session_safe:
  assumes "libs_ok L" and "srv_inv L r" and "Start L version r (new_handler L) cnx = Ret (s, k, cnx', err)"
  shows "srv_inv L s \<and> reg_le L r s \<and> cx_closed cnx'"
  using assms by (rule Start_keeps)

section \<open>Sample runs\<close>

lemma reflib_libs [simp]: "libs_ok (reflib ms)"
  by (simp add: libs_ok_def)

lemma ref_srv_inv_any [simp]: "srv_inv (reflib ms) (ref_registry [])"
  using ref_registry_inv [of "[]" ms] by (simp add: srv_inv_def) (simp add: ref_registry_def)

lemma ref_random [simp]: "random_ok (reflib ms) (ref_registry [])"
proof -
  have "\<not> taken_draw (reflib ms) (ref_registry []) 0"
    by (simp add: taken_draw_def ContainsID_def ref_registry_def ref_id_def)
  then show ?thesis by (auto simp: random_ok_def ref_registry_def)
qed

lemma idle_sess [simp]: "sess_inv L r idle_handler"
  by (simp add: sess_inv_def sess_refs_def idle_handler_def)

definition byeMsg :: XLRegMsg where "byeMsg = zeroMsg\<lparr>msg_Op := Some XLRegMsg_Bye\<rparr>"
definition ackMsg :: XLRegMsg where "ackMsg = zeroMsg\<lparr>msg_Op := Some XLRegMsg_Ack\<rparr>"

lemma op2tag_samples [simp]: "op2tag 1 = -1" "op2tag 3 = 0" "op2tag 11 = 4"
  by (simp_all add: op2tag_def go_div_def)

theorem server_crashes_iff_witness: "\<exists>p. handle_message hlib zeroMsg (ref_registry []) idle_handler = Panic p"
  unfolding server_crashes_iff [OF reflib_libs ref_srv_inv_any ref_random idle_sess]
  by (simp add: fatal_def zeroMsg_def)

lemma reflib_stores: "stores_work (reflib ms)"
  by (simp add: stores_work_def)


lemma ref_client_turn:
  "message_turn hlib ref_client_msg (ref_registry []) idle_handler =
     Ret ((ref_registry [])\<lparr>reg_idFilter := [ref_id 1, ref_id 3]\<rparr>,
       (ref_handler (Some (ref_client ''al'' 1)) 1 ref_client_msg)
         \<lparr>ih_msgOut := Some (zeroMsg\<lparr>msg_Op := Some XLRegMsg_MemberOK, msg_MemberID := Some (ref_id 1),
            msg_MemberAttrs := Some 3\<rparr>)\<rparr>)"
proof -
  have t: "op2tag (GetOp (Some ref_client_msg)) = 0" by (simp add: ref_client_msg_def)
  have h: "idle_handler\<lparr>ih_msgIn := Some ref_client_msg\<rparr> = ref_handler None 0 ref_client_msg"
    by (simp add: idle_handler_def ref_handler_def)
  have f: "ih_msgIn (ref_handler None 0 ref_client_msg) = Some ref_client_msg" "ih_entryState (ref_handler None 0 ref_client_msg) = 0"
    by (simp_all add: ref_handler_def)
  show ?thesis
    by (simp add: message_turn_def handle_message_def h f t dispatch_def index2_def msgHandlers_def Let_def ref_doClientMsg
        del: msg_getters)
      (simp add: ref_handler_def error_reply_def)
qed

theorem interleaved_sessions_safe_witness:
  "srv_inv hlib ((ref_registry [])\<lparr>reg_idFilter := [ref_id 1, ref_id 3]\<rparr>)"
proof -
  have "interleaved (message_turn hlib) (\<lambda>h. h = idle_handler) (ref_registry [], []) (ref_registry [], [] @ [idle_handler])"
    by (intro interleaved.opens interleaved.start) simp
  then have "interleaved (message_turn hlib) (\<lambda>h. h = idle_handler) (ref_registry [], [])
      ((ref_registry [])\<lparr>reg_idFilter := [ref_id 1, ref_id 3]\<rparr>, ([] @ [idle_handler])[0 :=
         (ref_handler (Some (ref_client ''al'' 1)) 1 ref_client_msg)
         \<lparr>ih_msgOut := Some (zeroMsg\<lparr>msg_Op := Some XLRegMsg_MemberOK, msg_MemberID := Some (ref_id 1),
            msg_MemberAttrs := Some 3\<rparr>)\<rparr>])"
    by (rule interleaved.turn [where i = ref_client_msg]) (simp_all add: ref_client_turn)
  from interleaved_sessions_safe [OF reflib_libs ref_srv_inv_any this] show ?thesis by simp
qed

definition ref_cnx :: "bytes list \<Rightarrow> TcpConnection" where
  "ref_cnx bs = \<lparr>cx_in = map (\<lambda>b. (b, None)) bs, cx_writes = [], cx_out = [], cx_closed = False\<rparr>"

abbreviation byelib :: "((bytes \<times> hval) list, hval, bytes list, u32) serverlib" where
  "byelib \<equiv> reflib [byeMsg, ackMsg]"

lemma ref_session:
  "\<exists>k cnx'. Start byelib 7 (ref_registry []) (new_handler byelib) (ref_cnx [[1], [5, 0]])
     = Ret (ref_registry [], k, cnx', Some IoEOF) \<and> cx_out cnx' = [[7], [1, 1]]"
proof -
  have t: "op2tag (GetOp (Some byeMsg)) = 4" by (simp add: byeMsg_def)
  define L where "L = byelib"
  define h0 where "h0 = (new_handler L)\<lparr>ih_Session := 1, ih_version := 7\<rparr>"
  define h1 where "h1 = h0\<lparr>ih_msgIn := Some byeMsg, ih_msgOut := Some ackMsg, ih_exitState := BYE_RCVD\<rparr>"
  let ?c = "\<lambda>i outs. (ref_cnx i)\<lparr>cx_out := outs\<rparr>"
  have hello: "handleHello L 7 ref_node (new_handler L) (ref_cnx [[1], [5, 0]]) = (h0, ?c [[5, 0]] [[7]], None)"
    by (simp add: handleHello_def ref_cnx_def ReadData_def Cnx_Read_def MSG_BUF_LEN_def WriteData_def Cnx_Write_def
        h0_def L_def Let_def)
  have turn: "handle_message L byeMsg (ref_registry []) h0 = Ret (ref_registry [], h1)"
    by (simp add: handle_message_def t dispatch_def index2_def msgHandlers_def Let_def h0_def h1_def new_handler_def
        doByeMsg_def error_reply_def ackMsg_def del: msg_getters)
  have "ref_index [byeMsg, ackMsg] ackMsg = Some 1"
    by (simp add: ref_index_def byeMsg_def ackMsg_def zeroMsg_def)
  then have reply: "send_reply L h1 (?c [] [[7]]) = (h1\<lparr>ih_Session := 2\<rparr>, ?c [] [[7], [1, 1]], None)"
    by (simp add: send_reply_def h1_def h0_def EncodePadEncrypt_def EncodePacket_def L_def WriteData_def Cnx_Write_def ref_cnx_def)
  have eof: "start_loop L r h (?c [] out) = Some (Ret (r, h, ?c [] out, Some IoEOF))" for r h out
    by (subst start_loop.simps) (simp add: ReadData_def Cnx_Read_def ref_cnx_def)
  have "start_loop L (ref_registry []) h0 (?c [[5, 0]] [[7]]) =
      Some (Ret (ref_registry [], h1\<lparr>ih_Session := 2, ih_entryState := BYE_RCVD\<rparr>, ?c [] [[7], [1, 1]], Some IoEOF))"
  proof -
    have rd: "ReadData (?c [[5, 0]] [[7]]) = (Some [5, 0], None, ?c [] [[7]])"
      by (simp add: ReadData_def Cnx_Read_def ref_cnx_def MSG_BUF_LEN_def)
    have "DecryptUnpadDecode L (ih_Session h0) [5, 0] = Inr byeMsg"
      by (simp add: DecryptUnpadDecode_def DecodePacket_def L_def)
    moreover have "ih_exitState h1 = BYE_RCVD" by (simp add: h1_def)
    ultimately show ?thesis
      by (subst start_loop.simps) (simp add: rd turn reply eof Let_def)
  qed
  then show ?thesis
    unfolding L_def [symmetric] Start_def using hello by (simp add: ref_registry_def Cnx_Close_def)
qed

theorem session_safe_witness:
  "\<exists>s k cnx'. Start byelib 7 (ref_registry []) (new_handler byelib) (ref_cnx [[1], [5, 0]]) = Ret (s, k, cnx', Some IoEOF)
     \<and> cx_out cnx' = [[7], [1, 1]] \<and> srv_inv byelib s \<and> cx_closed cnx'"
proof -
  obtain k cnx' where *: "Start byelib 7 (ref_registry []) (new_handler byelib) (ref_cnx [[1], [5, 0]]) =
      Ret (ref_registry [], k, cnx', Some IoEOF)" "cx_out cnx' = [[7], [1, 1]]"
    using ref_session by blast
  from session_safe [OF reflib_libs ref_srv_inv_any *(1)] * show ?thesis by blast
qed

section \<open>Properties of the connection\<close>

text \<open>The subtraction in \<open>op2tag\<close> wraps around at the low end only.\<close>

lemma sint_minus_3:
  fixes op :: XLRegMsg_Tag
  shows "sint (op - 3) = sint op - 3 \<or> sint op < - (2 ^ 31) + 3 \<and> 2 ^ 31 - 3 \<le> sint (op - 3)"
proof -
  have s: "sint (op - 3) = signed_take_bit 31 (sint op - 3)" by (simp add: sint_word_ariths)
  have r: "- (2 ^ 31) \<le> sint op" "sint op < 2 ^ 31"
    using sint_greater_eq [of op] sint_less [of op] by simp_all
  show ?thesis
  proof (cases "- (2 ^ 31) \<le> sint op - 3")
    case True
    then have "signed_take_bit 31 (sint op - 3) = sint op - 3"
      using r by (intro signed_take_bit_int_eq_self) simp_all
    with s show ?thesis by simp
  next
    case False
    then have "sint op - 3 + 2 ^ Suc 31 \<le> signed_take_bit 31 (sint op - 3)"
      by (intro signed_take_bit_int_greater_eq) simp
    with s r False show ?thesis by simp
  qed
qed

text \<open>Which operations have an entry in the dispatch table: those from 2 to 12. The replies among them,
  and the reply to a request for credentials, get the tag of a client's request.\<close>

theorem op2tag_range:
  "if 2 \<le> sint op \<and> sint op \<le> 12 then op2tag op = max 0 ((sint op - 3) div 2) \<and> op2tag op \<le> 4
   else op2tag op < 0 \<or> 4 < op2tag op"
proof -
  consider "sint (op - 3) < -1" | "sint (op - 3) = -1" | "0 \<le> sint (op - 3)" by linarith
  then have t: "op2tag op = (if sint (op - 3) < -1 then - (- sint (op - 3) div 2)
      else if sint (op - 3) = -1 then 0 else sint (op - 3) div 2)"
    by cases (simp_all add: op2tag_def go_div_neg go_div_nonneg)
  show ?thesis
    unfolding t using sint_minus_3 [of op] by (auto split: if_splits)
qed

text \<open>The message loop of every connection comes to an end, whatever is received.\<close>

theorem message_loop_ends: "\<exists>out. start_loop L reg h cnx = Some out"
  by (rule start_loop_ends)

text \<open>A reply reaches the other end: if it was sent without error and fits the buffer, what the peer
  reads decodes, under the matching session, to the reply.\<close>

theorem reply_delivered:
  assumes "ih_msgOut h = Some m" and "wire_ok L m" and "sessions_match L (ih_Session h) t"
    and "send_reply L h cnx = (h', cnx', None)"
    and "cx_in peer = (last (cx_out cnx'), None) # rest"
    and "0 < length (last (cx_out cnx'))" and "length (last (cx_out cnx')) \<le> MSG_BUF_LEN"
  shows "\<exists>data. ReadData peer = (Some data, None, peer\<lparr>cx_in := rest\<rparr>) \<and> DecryptUnpadDecode L t data = Inr m
     \<and> cx_out cnx' = cx_out cnx @ [data]"
proof -
  obtain s c where e: "EncodePadEncrypt L (ih_Session h) m = (s, Inr c)" and w: "WriteData c cnx = (None, cnx')"
    using assms(1,4) by (auto simp: send_reply_def split: prod.splits sum.splits)
  have out: "cx_out cnx' = cx_out cnx @ [c]"
    using w by (auto simp: WriteData_def Cnx_Write_def split: list.splits option.splits)
  have "ReadData peer = (Some c, None, peer\<lparr>cx_in := rest\<rparr>)"
    using assms(5-7) by (simp add: ReadData_def Cnx_Read_def out)
  then show ?thesis using decode_encoded [OF assms(2,3) e] out by blast
qed

theorem reply_delivered_witness:
  "\<exists>data. ReadData (ref_cnx [[0, 1]]) = (Some data, None, ref_cnx []) \<and> DecryptUnpadDecode byelib 0 data = Inr ackMsg"
proof -
  define h where "h = (new_handler byelib)\<lparr>ih_msgOut := Some ackMsg\<rparr>"
  have i: "ref_index [byeMsg, ackMsg] ackMsg = Some 1"
    by (simp add: ref_index_def byeMsg_def ackMsg_def zeroMsg_def)
  have "send_reply byelib h (ref_cnx []) = (h\<lparr>ih_Session := 1\<rparr>, (ref_cnx [])\<lparr>cx_out := [[0, 1]]\<rparr>, None)"
    by (simp add: send_reply_def h_def new_handler_def EncodePadEncrypt_def EncodePacket_def i WriteData_def Cnx_Write_def ref_cnx_def)
  moreover have "wire_ok byelib ackMsg" by (simp add: wire_ok_def i)
  moreover have "sessions_match byelib (ih_Session h) 0" by (simp add: sessions_match_def)
  ultimately show ?thesis
    using reply_delivered [of h ackMsg byelib 0 "ref_cnx []" "h\<lparr>ih_Session := 1\<rparr>" "(ref_cnx [])\<lparr>cx_out := [[0, 1]]\<rparr>" "ref_cnx [[0, 1]]" "[]"]
    by (simp add: h_def ref_cnx_def MSG_BUF_LEN_def)
qed

end
