(* ===== verification/MemberNode.thy ===== *)
theory MemberNode
  imports MsgHandlers CnxHandler
begin

text \<open>
  The client side of the protocol (\<open>memberNode.go\<close>, \<open>member_info.go\<close>): conversion between tokens and
  the client's view of a member, and the exchanges of a session, each of which sends a request and
  takes what it needs from the reply.
\<close>

section \<open>What the client uses of the other packages\<close>

text \<open>
  \<open>xt.TcpConnector\<close>, \<open>xt.TcpAcceptor\<close>, \<open>xn.Peer\<close> and \<open>xn.Node\<close> as their accessors show them;
  \<open>nd_acc\<close> is \<open>GetAcceptor(0)\<close>, nil until the acceptor is open.
\<close>

datatype Connector = Connector EndPoint

datatype Acceptor = Acceptor string

record Peer = BaseNode +
  pe_ctors :: "Connector list"

record Node =
  nd_name :: string
  nd_id :: "nodeID option"
  nd_ckPriv :: rsa_priv
  nd_skPriv :: rsa_priv
  nd_ends :: "EndPoint list"
  nd_lfs :: string
  nd_acc :: "Acceptor option"

record ('h, 'v, 'b, 's) clientlib = "('h, 'v, 'b, 's) serverlib" +
  NewTcpConnector :: "EndPoint \<Rightarrow> string + Connector"
  Connector_String :: "Connector \<Rightarrow> string"
  NewPeer :: "string \<Rightarrow> nodeID \<Rightarrow> rsa_pub option \<Rightarrow> rsa_pub option \<Rightarrow> Connector list \<Rightarrow> string + Peer"
  SignPKCS1v15 :: "rsa_priv \<Rightarrow> bytes \<Rightarrow> string + bytes"
  bm_Clear :: "u64 \<Rightarrow> nat \<Rightarrow> u64"
  bm_Any :: "u64 \<Rightarrow> bool"
  bm_None :: "u64 \<Rightarrow> bool"

section \<open>Member information\<close>

text \<open>\<open>xcl.MemberInfo\<close>.\<close>

record MemberInfo =
  mi_Attrs :: u64
  mi_Peer :: Peer

text \<open>The loop over the end points of a token.\<close>

fun token_ctors :: "('h, 'v, 'b, 's, 'z) clientlib_scheme \<Rightarrow> string list \<Rightarrow> Connector list \<Rightarrow> gerror + Connector list" where
  "token_ctors L [] ctors = Inr ctors"
| "token_ctors L (myEnd # myEnds) ctors =
     (case ext (NewTcpEndPoint L myEnd) of
        Inl e \<Rightarrow> Inl e
      | Inr farEnd \<Rightarrow>
          (case ext (NewTcpConnector L farEnd) of
             Inl e \<Rightarrow> Inl e
           | Inr ctor \<Rightarrow> token_ctors L myEnds (ctors @ [ctor])))"

definition NewMemberInfoFromToken ::
  "('h, 'v, 'b, 's, 'z) clientlib_scheme \<Rightarrow> nat \<Rightarrow> XLRegMsg_Token option \<Rightarrow> gerror + MemberInfo" where
  "NewMemberInfoFromToken L draw token =
     (if token = None then Inl NilToken
      else case ext (xi_New_or_random L draw (Token_GetID token)) of
             Inl e \<Rightarrow> Inl e
           | Inr nodeID \<Rightarrow>
      (case ext (RSAPubKeyFromWire L (Token_GetCommsKey token)) of
         Inl e \<Rightarrow> Inl e
       | Inr ck \<Rightarrow>
      (case ext (RSAPubKeyFromWire L (Token_GetSigKey token)) of
         Inl e \<Rightarrow> Inl e
       | Inr sk \<Rightarrow>
      (case token_ctors L (slice_of (Token_GetMyEnds token)) [] of
         Inl e \<Rightarrow> Inl e
       | Inr ctors \<Rightarrow>
      (case ext (NewPeer L (Token_GetName token) nodeID (Some ck) (Some sk) ctors) of
         Inl e \<Rightarrow> Inl e
       | Inr peer \<Rightarrow> Inr \<lparr>mi_Attrs = Token_GetAttrs token, mi_Peer = peer\<rparr>)))))"

definition TokenFromMemberInfo :: "('h, 'v, 'b, 's, 'z) clientlib_scheme \<Rightarrow> MemberInfo \<Rightarrow> gerror + XLRegMsg_Token" where
  "TokenFromMemberInfo L mi =
     (case ext (RSAPubKeyToWire L (bn_ck (mi_Peer mi))) of
        Inl e \<Rightarrow> Inl e
      | Inr ckBytes \<Rightarrow>
     (case ext (RSAPubKeyToWire L (bn_sk (mi_Peer mi))) of
        Inl e \<Rightarrow> Inl e
      | Inr skBytes \<Rightarrow>
          Inr \<lparr>tok_Name = Some (bn_name (mi_Peer mi)), tok_Attrs = Some (mi_Attrs mi),
               tok_ID = Some (Value (bn_id (mi_Peer mi))), tok_CommsKey = Some ckBytes, tok_SigKey = Some skBytes,
               tok_MyEnds = (if pe_ctors (mi_Peer mi) = [] then None
                             else Some (map (Connector_String L) (pe_ctors (mi_Peer mi)))),
               tok_DigSig = None\<rparr>))"

section \<open>The state of a client\<close>

text \<open>\<open>MemberMaker\<close>; \<open>mm_draws\<close> counts the calls \<open>xi.New(nil)\<close>.\<close>

record 's MemberMaker =
  mm_Session :: 's
  mm_ProposedAttrs :: u64
  mm_Attrs :: u64
  mm_RegPeer :: Peer
  mm_Node :: Node
  mm_ClusterName :: string
  mm_ClusterAttrs :: u64
  mm_ClusterID :: "nodeID option"
  mm_ClusterMaxSize :: u32
  mm_EPCount :: u32
  mm_Members :: "MemberInfo option list option"
  mm_SelfIndex :: u32
  mm_draws :: nat

definition readMsg ::
  "('h, 'v, 'b, 's, 'z) serverlib_scheme \<Rightarrow> 's MemberMaker \<Rightarrow> TcpConnection \<Rightarrow> XLRegMsg option \<times> gerror option \<times> TcpConnection" where
  "readMsg L mm cnx =
     (case ReadData cnx of
        (None, err, cnx) \<Rightarrow> (None, err, cnx)
      | (Some inBuf, Some e, cnx) \<Rightarrow> (None, Some e, cnx)
      | (Some inBuf, None, cnx) \<Rightarrow>
          (case DecryptUnpadDecode L (mm_Session mm) inBuf of
             Inl e \<Rightarrow> (None, Some e, cnx)
           | Inr m \<Rightarrow> (Some m, None, cnx)))"

definition writeMsg ::
  "('h, 'v, 'b, 's, 'z) serverlib_scheme \<Rightarrow> XLRegMsg \<Rightarrow> 's MemberMaker \<Rightarrow> TcpConnection \<Rightarrow> 's MemberMaker \<times> gerror option \<times> TcpConnection" where
  "writeMsg L m mm cnx =
     (case EncodePadEncrypt L (mm_Session mm) m of
        (s, Inl e) \<Rightarrow> (mm\<lparr>mm_Session := s\<rparr>, Some e, cnx)
      | (s, Inr data) \<Rightarrow> (case WriteData data cnx of (err, cnx) \<Rightarrow> (mm\<lparr>mm_Session := s\<rparr>, err, cnx)))"

section \<open>Member and OK\<close>

text \<open>An end point loses the prefix that \<open>String\<close> puts before its address.\<close>

definition my_end :: "('h, 'v, 'b, 's, 'z) serverlib_scheme \<Rightarrow> EndPoint \<Rightarrow> string" where
  "my_end L e = (let myEnd = EndPoint_String L e
     in if HasPrefix myEnd ''TcpEndPoint: '' then drop 13 myEnd else myEnd)"

text \<open>The signed message with the client's details.\<close>

definition member_request :: "('h, 'v, 'b, 's, 'z) clientlib_scheme \<Rightarrow> Node \<Rightarrow> u64 \<Rightarrow> gerror + XLRegMsg" where
  "member_request L node attrs =
     (case ext (RSAPubKeyToWire L (Some (rsa_pub_of (nd_ckPriv node)))) of
        Inl e \<Rightarrow> Inl e
      | Inr ckBytes \<Rightarrow>
     (case ext (RSAPubKeyToWire L (Some (rsa_pub_of (nd_skPriv node)))) of
        Inl e \<Rightarrow> Inl e
      | Inr skBytes \<Rightarrow>
     (let myEnds = map (my_end L) (nd_ends node);
          hash = sha1_Sum L (bytes_of (nd_name node) @ PutUint64 attrs @ ckBytes @ skBytes @ concat (map bytes_of myEnds))
      in case ext (SignPKCS1v15 L (nd_skPriv node) hash) of
           Inl e \<Rightarrow> Inl e
         | Inr digSig \<Rightarrow>
             Inr (zeroMsg\<lparr>msg_Op := Some XLRegMsg_Member, msg_MemberSpecs := Some
               \<lparr>tok_Name = Some (nd_name node), tok_Attrs = Some attrs, tok_ID = map_option Value (nd_id node),
                tok_CommsKey = Some ckBytes, tok_SigKey = Some skBytes,
                tok_MyEnds = (if myEnds = [] then None else Some myEnds), tok_DigSig = Some digSig\<rparr>\<rparr>))))"

text \<open>
  The error of the reply takes the place of any error before it: the client waits for a reply even
  if it sent nothing.
\<close>

definition MemberAndOK ::
  "('h, 'v, 'b, 's, 'z) clientlib_scheme \<Rightarrow> 's MemberMaker \<Rightarrow> TcpConnection \<Rightarrow> 's MemberMaker \<times> gerror option \<times> TcpConnection" where
  "MemberAndOK L mm cnx =
     (case (case member_request L (mm_Node mm) (mm_ProposedAttrs mm) of
              Inl e \<Rightarrow> (mm, Some e, cnx)
            | Inr request \<Rightarrow> writeMsg L request mm cnx) of
        (mm, _, cnx) \<Rightarrow>
     (case readMsg L mm cnx of
        (response, Some e, cnx) \<Rightarrow> (mm, Some e, cnx)
      | (response, None, cnx) \<Rightarrow> (mm\<lparr>mm_Attrs := GetMemberAttrs response\<rparr>, None, cnx)))"

section \<open>Create\<close>

text \<open>
  The operation of the reply is not looked at, and the end of the stream counts as a reply with no
  fields. A reply without an ID gives the client a random one.
\<close>

definition create_request :: "'s MemberMaker \<Rightarrow> XLRegMsg" where
  "create_request mm = zeroMsg\<lparr>msg_Op := Some XLRegMsg_Create, msg_ClusterName := Some (mm_ClusterName mm),
     msg_ClusterAttrs := Some (mm_ClusterAttrs mm), msg_ClusterMaxSize := Some (mm_ClusterMaxSize mm),
     msg_EndPointCount := Some (mm_EPCount mm)\<rparr>"

definition CreateAndReply ::
  "('h, 'v, 'b, 's, 'z) serverlib_scheme \<Rightarrow> 's MemberMaker \<Rightarrow> TcpConnection \<Rightarrow> 's MemberMaker \<times> gerror option \<times> TcpConnection" where
  "CreateAndReply L mm cnx =
     (case writeMsg L (create_request mm) mm cnx of
        (mm, Some e, cnx) \<Rightarrow> (mm, Some e, cnx)
      | (mm, None, cnx) \<Rightarrow>
     (case readMsg L mm cnx of (response, err, cnx) \<Rightarrow>
      if err \<noteq> None \<and> err \<noteq> Some IoEOF then (mm, err, cnx)
      else
        (let i = GetClusterID response; draw = mm_draws mm;
             mm = mm\<lparr>mm_draws := (if i = None then Suc draw else draw)\<rparr>
         in case ext (xi_New_or_random L draw i) of
              Inl e \<Rightarrow> (mm\<lparr>mm_ClusterID := None\<rparr>, Some e, cnx)
            | Inr n \<Rightarrow> (mm\<lparr>mm_ClusterID := Some n, mm_ClusterAttrs := GetClusterAttrs response,
                            mm_ClusterMaxSize := GetClusterMaxSize response\<rparr>, None, cnx))))"

section \<open>Join\<close>

definition JoinAndReply ::
  "('h, 'v, 'b, 's, 'z) serverlib_scheme \<Rightarrow> 's MemberMaker \<Rightarrow> TcpConnection \<Rightarrow> ('s MemberMaker \<times> gerror option \<times> TcpConnection) outcome" where
  "JoinAndReply L mm cnx =
     (case mm_ClusterID mm of
        None \<Rightarrow> Panic NilDereference
      | Some n \<Rightarrow>
     (case writeMsg L (zeroMsg\<lparr>msg_Op := Some XLRegMsg_Join, msg_ClusterID := Some (Value n)\<rparr>) mm cnx of
        (mm, Some e, cnx) \<Rightarrow> Ret (mm, Some e, cnx)
      | (mm, None, cnx) \<Rightarrow>
     (case readMsg L mm cnx of
        (response, Some e, cnx) \<Rightarrow> Ret (mm, Some e, cnx)
      | (response, None, cnx) \<Rightarrow>
          (let sizeNow = GetClusterMaxSize response;
               mm = (if mm_ClusterMaxSize mm \<noteq> sizeNow
                     then mm\<lparr>mm_ClusterMaxSize := sizeNow, mm_Members := Some (replicate (unat sizeNow) None)\<rparr>
                     else mm)
           in Ret (mm\<lparr>mm_EPCount := GetEndPointCount response\<rparr>, None, cnx)))))"

section \<open>Get\<close>

text \<open>Members that are there need not be asked for. Indexes are checked.\<close>

fun clear_known :: "('h, 'v, 'b, 's, 'z) clientlib_scheme \<Rightarrow> MemberInfo option list \<Rightarrow> nat list \<Rightarrow> u64 \<Rightarrow> u64 outcome" where
  "clear_known L ms [] stillToGet = Ret stillToGet"
| "clear_known L ms (i # is) stillToGet =
     (if i < length ms
      then clear_known L ms is (if ms ! i \<noteq> None then bm_Clear L stillToGet i else stillToGet)
      else Panic IndexOutOfRange)"

text \<open>
  The loop over a reply: the tokens belong to the bits that are set, in order. A token that is not
  one clears the entry; the error may be overwritten by the next token.
\<close>

fun collect_loop ::
  "('h, 'v, 'b, 's, 'z) clientlib_scheme \<Rightarrow> u64 \<Rightarrow> XLRegMsg_Token list \<Rightarrow> nat list \<Rightarrow> nat \<Rightarrow> nat \<Rightarrow>
   MemberInfo option list \<Rightarrow> u64 \<Rightarrow> gerror option \<Rightarrow> (MemberInfo option list \<times> u64 \<times> gerror option \<times> nat) outcome" where
  "collect_loop L which tokens [] offset draw ms stillToGet err = Ret (ms, stillToGet, err, draw)"
| "collect_loop L which tokens (i # is) offset draw ms stillToGet err =
     (if bm_Test L which i then
        (if length tokens \<le> offset \<or> length ms \<le> i then Panic IndexOutOfRange
         else let draw' = (if tok_ID (tokens ! offset) = None then Suc draw else draw)
              in case NewMemberInfoFromToken L draw (Some (tokens ! offset)) of
                   Inl e \<Rightarrow> collect_loop L which tokens is (Suc offset) draw' (ms[i := None]) stillToGet (Some e)
                 | Inr mi \<Rightarrow> collect_loop L which tokens is (Suc offset) draw' (ms[i := Some mi]) (bm_Clear L stillToGet i) None)
      else collect_loop L which tokens is offset draw ms stillToGet err)"

text \<open>The rounds of requests; the first argument counts down from \<open>MAX_GET\<close>.\<close>

fun get_rounds ::
  "('h, 'v, 'b, 's, 'z) clientlib_scheme \<Rightarrow> nat \<Rightarrow> 's MemberMaker \<Rightarrow> TcpConnection \<Rightarrow> MemberInfo option list \<Rightarrow> u64 \<Rightarrow>
   gerror option \<Rightarrow> ('s MemberMaker \<times> gerror option \<times> TcpConnection) outcome" where
  "get_rounds L 0 mm cnx ms stillToGet err = Ret (mm\<lparr>mm_Members := Some ms\<rparr>, err, cnx)"
| "get_rounds L (Suc count) mm cnx ms stillToGet err =
     (let idxs = [0..<unat (mm_ClusterMaxSize mm)] in
      if \<not> bm_Any L stillToGet then Ret (mm\<lparr>mm_Members := Some ms\<rparr>, err, cnx)
      else obind (clear_known L ms idxs stillToGet) (\<lambda>stillToGet.
      case mm_ClusterID mm of
        None \<Rightarrow> Panic NilDereference
      | Some n \<Rightarrow>
     (case writeMsg L (zeroMsg\<lparr>msg_Op := Some XLRegMsg_GetCluster, msg_ClusterID := Some (Value n),
                         msg_Which := Some stillToGet\<rparr>) mm cnx of
        (mm, Some e, cnx) \<Rightarrow> Ret (mm\<lparr>mm_Members := Some ms\<rparr>, Some e, cnx)
      | (mm, None, cnx) \<Rightarrow>
     (case readMsg L mm cnx of
        (response, Some e, cnx) \<Rightarrow> Ret (mm\<lparr>mm_Members := Some ms\<rparr>, Some e, cnx)
      | (response, None, cnx) \<Rightarrow>
          (let which = GetWhich response; tokens = slice_of (GetTokens response)
           in obind (if bm_Any L which
                     then collect_loop L which tokens idxs 0 (mm_draws mm) ms stillToGet None
                     else Ret (ms, stillToGet, None, mm_draws mm))
                (\<lambda>(ms, stillToGet, err, draws).
                   let mm = mm\<lparr>mm_draws := draws\<rparr>
                   in if bm_None L stillToGet then Ret (mm\<lparr>mm_Members := Some ms\<rparr>, err, cnx)
                      else get_rounds L count mm cnx ms stillToGet err))))))"

fun self_index :: "bytes \<Rightarrow> MemberInfo option list \<Rightarrow> nat list \<Rightarrow> nat option outcome" where
  "self_index selfID ms [] = Ret None"
| "self_index selfID ms (i # is) =
     (if length ms \<le> i then Panic IndexOutOfRange
      else case ms ! i of
             None \<Rightarrow> self_index selfID ms is
           | Some mi \<Rightarrow> if selfID = Value (bn_id (mi_Peer mi)) then Ret (Some i) else self_index selfID ms is)"

abbreviation (input) "MAX_GET \<equiv> (32 :: nat)"

definition GetAndMembers ::
  "('h, 'v, 'b, 's, 'z) clientlib_scheme \<Rightarrow> 's MemberMaker \<Rightarrow> TcpConnection \<Rightarrow> ('s MemberMaker \<times> gerror option \<times> TcpConnection) outcome" where
  "GetAndMembers L mm cnx =
     (let size = unat (mm_ClusterMaxSize mm);
          ms = (case mm_Members mm of None \<Rightarrow> replicate size None | Some ms \<Rightarrow> ms)
      in obind (get_rounds L MAX_GET mm cnx ms (bm_LowNMap L size) None) (\<lambda>(mm, err, cnx).
         if err \<noteq> None then Ret (mm, err, cnx)
         else case nd_id (mm_Node mm) of
                None \<Rightarrow> Panic NilDereference
              | Some self \<Rightarrow>
                  obind (self_index (Value self) (slice_of (mm_Members mm)) [0..<size]) (\<lambda>found.
                    case found of
                      None \<Rightarrow> Ret (mm, None, cnx)
                    | Some i \<Rightarrow> Ret (mm\<lparr>mm_SelfIndex := word_of_nat i\<rparr>, None, cnx))))"

section \<open>Bye\<close>

definition ByeAndAck ::
  "('h, 'v, 'b, 's, 'z) serverlib_scheme \<Rightarrow> 's MemberMaker \<Rightarrow> TcpConnection \<Rightarrow> 's MemberMaker \<times> gerror option \<times> TcpConnection" where
  "ByeAndAck L mm cnx =
     (case writeMsg L (zeroMsg\<lparr>msg_Op := Some XLRegMsg_Bye\<rparr>) mm cnx of
        (mm, Some e, cnx) \<Rightarrow> (mm, Some e, cnx)
      | (mm, None, cnx) \<Rightarrow> (case readMsg L mm cnx of (response, err, cnx) \<Rightarrow> (mm, err, cnx)))"

section \<open>The signature\<close>

text \<open>What was signed with a private key is verified by its public key.\<close>

definition sign_ok :: "('h, 'v, 'b, 's, 'z) clientlib_scheme \<Rightarrow> bool" where
  "sign_ok L \<longleftrightarrow> (\<forall>k h s. SignPKCS1v15 L k h = Inr s \<longrightarrow> VerifyPKCS1v15 L (rsa_pub_of k) h (Some s) = None)"

lemma member_request_keys:
  assumes "keys_ok L" and "sign_ok L" and "member_request L node attrs = Inr m"
  shows "client_keys L (GetMemberSpecs (Some m)) = Inr (rsa_pub_of (nd_ckPriv node), rsa_pub_of (nd_skPriv node))"
proof -
  let ?ends = "map (my_end L) (nd_ends node)"
  obtain ck sk d where c: "RSAPubKeyToWire L (Some (rsa_pub_of (nd_ckPriv node))) = Inr ck"
    "RSAPubKeyToWire L (Some (rsa_pub_of (nd_skPriv node))) = Inr sk"
    "SignPKCS1v15 L (nd_skPriv node) (sha1_Sum L (bytes_of (nd_name node) @ PutUint64 attrs @ ck @ sk
        @ concat (map bytes_of ?ends))) = Inr d"
    "GetMemberSpecs (Some m) = Some \<lparr>tok_Name = Some (nd_name node), tok_Attrs = Some attrs,
        tok_ID = map_option Value (nd_id node), tok_CommsKey = Some ck, tok_SigKey = Some sk,
        tok_MyEnds = (if ?ends = [] then None else Some ?ends), tok_DigSig = Some d\<rparr>"
    using assms(3) by (auto simp: member_request_def ext_def Let_def zeroMsg_def split: sum.splits)
  have s: "slice_of (if ?ends = [] then None else Some ?ends) = ?ends" by simp
  have "VerifyPKCS1v15 L (rsa_pub_of (nd_skPriv node)) (sha1_Sum L (bytes_of (nd_name node) @ PutUint64 attrs @ ck @ sk
        @ concat (map bytes_of ?ends))) (Some d) = None"
    using assms(2) c(3) unfolding sign_ok_def by blast
  then show ?thesis
    using keys_okD [OF assms(1) c(1)] keys_okD [OF assms(1) c(2)]
    unfolding client_keys_def c(4) client_hash_def
    by (simp only: token_getters option.case XLRegMsg_Token.simps s ext_simps sum.case slice_of_simps)
qed

text \<open>The server accepts the keys and the signature of every message that the client makes: both hash
  the same fields in the same order.\<close>

theorem member_request_verifies:
  assumes "keys_ok L" and "sign_ok L" and "member_request L node attrs = Inr m"
  shows "client_keys L (GetMemberSpecs (Some m)) = Inr (rsa_pub_of (nd_ckPriv node), rsa_pub_of (nd_skPriv node))"
  using assms by (rule member_request_keys)

section \<open>The members\<close>

lemma drop_step:
  assumes "drop k ts = x # xs"
  shows "k < length ts" and "ts ! k = x" and "drop (Suc k) ts = xs"
proof -
  show k: "k < length ts" using assms by (cases "k < length ts") simp_all
  from Cons_nth_drop_Suc [OF k] assms show "ts ! k = x" "drop (Suc k) ts = xs" by simp_all
qed

lemma collect_loop_result:
  assumes "\<forall>i \<in> set xs. i < length ms \<and> bm_Test L w i = bit w i"
    and "drop offset ts = map tok (filter (bit w) xs)"
    and "\<forall>i \<in> set xs. bit w i \<longrightarrow> tok_ID (tok i) \<noteq> None \<and> NewMemberInfoFromToken L draw (Some (tok i)) = Inr (mi i)"
  shows "collect_loop L w ts xs offset draw ms still None =
     Ret (fold (\<lambda>i ms. ms[i := Some (mi i)]) (filter (bit w) xs) ms,
          fold (\<lambda>i s. bm_Clear L s i) (filter (bit w) xs) still, None, draw)"
  using assms
proof (induction xs arbitrary: offset ms still)
  case (Cons i xs)
  show ?case
  proof (cases "bit w i")
    case True
    with Cons.prems(2) have "drop offset ts = tok i # map tok (filter (bit w) xs)" by simp
    note o = drop_step [OF this]
    have t: "tok_ID (tok i) \<noteq> None" "NewMemberInfoFromToken L draw (Some (tok i)) = Inr (mi i)"
      using Cons.prems(3) True by simp_all
    have "collect_loop L w ts (i # xs) offset draw ms still None =
        collect_loop L w ts xs (Suc offset) draw (ms[i := Some (mi i)]) (bm_Clear L still i) None"
      using Cons.prems(1) True o(1,2) t by auto
    also have "\<dots> = Ret (fold (\<lambda>i ms. ms[i := Some (mi i)]) (filter (bit w) xs) (ms[i := Some (mi i)]),
          fold (\<lambda>i s. bm_Clear L s i) (filter (bit w) xs) (bm_Clear L still i), None, draw)"
      by (rule Cons.IH [OF _ o(3)]) (use Cons.prems(1,3) in simp_all)
    finally show ?thesis using True by simp
  next
    case False
    with Cons.prems have "collect_loop L w ts (i # xs) offset draw ms still None = collect_loop L w ts xs offset draw ms still None"
      by simp
    with Cons.IH [of ms offset still] Cons.prems False show ?thesis by simp
  qed
qed simp

lemma fold_update_nth:
  "j < length ms \<Longrightarrow> fold (\<lambda>i ms. ms[i := f i]) xs ms ! j = (if j \<in> set xs then f j else ms ! j)"
  by (induction xs arbitrary: ms) (auto simp: nth_list_update)

lemma fold_update_length [simp]: "length (fold (\<lambda>i ms. ms[i := f i]) xs ms) = length ms"
  by (induction xs arbitrary: ms) simp_all

text \<open>Clearing a bit changes that bit only.\<close>

definition clear_ok :: "('h, 'v, 'b, 's, 'z) clientlib_scheme \<Rightarrow> bool" where
  "clear_ok L \<longleftrightarrow> (\<forall>w i j. i < 64 \<longrightarrow> bit (bm_Clear L w i) j = (bit w j \<and> j \<noteq> i))"

lemma fold_clear:
  "clear_ok L \<Longrightarrow> \<forall>i \<in> set xs. i < 64 \<Longrightarrow> bit (fold (\<lambda>i s. bm_Clear L s i) xs w) j \<longleftrightarrow> bit w j \<and> j \<notin> set xs"
  by (induction xs arbitrary: w) (auto simp: clear_ok_def)

lemma collect_reply:
  assumes "bitmaps_ok L" and "clear_ok L" and "N \<le> 64" and "length ms = N" and "length (rc_Members rc) \<le> N"
    and "\<forall>i < length (rc_Members rc). ci_Token L (rc_Members rc ! i) = Inr (tok i)
           \<and> NewMemberInfoFromToken L draw (Some (tok i)) = Inr (mi i)"
  shows "\<exists>ms' still'. collect_loop L (snd (get_members L rc want)) (slice_of (fst (get_members L rc want)))
        [0..<N] 0 draw ms still None = Ret (ms', still', None, draw)
     \<and> length ms' = N \<and> (\<forall>i < N. ms' ! i = (if i < length (rc_Members rc) \<and> bit want i then Some (mi i) else ms ! i))
     \<and> (\<forall>i. bit still' i \<longleftrightarrow> bit still i \<and> \<not> (i < length (rc_Members rc) \<and> bit want i))"
proof -
  define n where "n = length (rc_Members rc)"
  let ?sent = "filter (bit want) [0..<n]"
  have n: "n \<le> N" "min 64 n = n" using assms(3,5) by (simp_all add: n_def)
  have tk: "\<forall>m \<in> set (rc_Members rc). \<exists>t. ci_Token L m = Inr t"
    using assms(6) by (auto simp: in_set_conv_nth)
  have len: "length (rc_Members rc) < 2 ^ 32" using assms(3,5) by simp
  note r = get_members_result [OF assms(1) len tk, of want, folded n_def, unfolded n(2)]
  have "(map Inr (slice_of (fst (get_members L rc want))) :: (gerror + XLRegMsg_Token) list) = map Inr (map tok ?sent)"
    unfolding r(2) using assms(6) by (auto simp: n_def)
  then have ts: "slice_of (fst (get_members L rc want)) = map tok ?sent"
    by (rule map_injective) (simp add: inj_def)
  let ?w = "want AND mask n"
  have w: "bit ?w i \<longleftrightarrow> bit want i \<and> i < n" for i
    using n assms(3) by (auto simp: bit_and_iff bit_mask_iff dest: bit_imp_le_length)
  have "[0..<N] = [0..<n] @ [n..<N]" using n(1) upt_add_eq_append [of 0 n "N - n"] by simp
  then have sent: "filter (bit ?w) [0..<N] = ?sent"
    by (auto simp: w filter_empty_conv intro: filter_cong)
  have ids: "tok_ID (tok i) \<noteq> None" if "i < n" for i
  proof -
    have "ci_Token L (rc_Members rc ! i) = Inr (tok i)" using that assms(6) by (simp add: n_def)
    then show ?thesis by (drule_tac ci_Token_fields) simp
  qed
  have run: "collect_loop L ?w (map tok ?sent) [0..<N] 0 draw ms still None =
     Ret (fold (\<lambda>i ms. ms[i := Some (mi i)]) ?sent ms, fold (\<lambda>i s. bm_Clear L s i) ?sent still, None, draw)"
    unfolding sent [symmetric]
  proof (rule collect_loop_result)
    show "\<forall>i \<in> set [0..<N]. i < length ms \<and> bm_Test L ?w i = bit ?w i"
      using assms(3,4) bitmaps_okD(3) [OF assms(1)] by simp
    show "\<forall>i \<in> set [0..<N]. bit ?w i \<longrightarrow> tok_ID (tok i) \<noteq> None \<and> NewMemberInfoFromToken L draw (Some (tok i)) = Inr (mi i)"
      using ids assms(6) [folded n_def] w by blast
  qed (simp add: sent)
  show ?thesis
    unfolding r(1) ts run
    using n assms(3,4) fold_clear [OF assms(2), of ?sent still]
    by (auto simp: fold_update_nth n_def [symmetric])
qed

text \<open>The client understands the server's reply to a Get: after the loop over the reply, the entries for
  exactly the members that exist and were asked for have been filled in, each with the information of
  that member, all others are as they were, and what is still to be got has lost just those bits.\<close>

theorem get_reply_understood:
  assumes "bitmaps_ok L" and "clear_ok L" and "N \<le> 64" and "length ms = N" and "length (rc_Members rc) \<le> N"
    and "\<forall>i < length (rc_Members rc). ci_Token L (rc_Members rc ! i) = Inr (tok i)
           \<and> NewMemberInfoFromToken L draw (Some (tok i)) = Inr (mi i)"
  shows "\<exists>ms' still'. collect_loop L (snd (get_members L rc want)) (slice_of (fst (get_members L rc want)))
        [0..<N] 0 draw ms still None = Ret (ms', still', None, draw)
     \<and> length ms' = N \<and> (\<forall>i < N. ms' ! i = (if i < length (rc_Members rc) \<and> bit want i then Some (mi i) else ms ! i))
     \<and> (\<forall>i. bit still' i \<longleftrightarrow> bit still i \<and> \<not> (i < length (rc_Members rc) \<and> bit want i))"
  using assms by (rule collect_reply)

text \<open>C29. The client takes an error reply to its Create for a success: it has no error, and a random ID for the
  cluster, which the server has never heard of.\<close>

theorem create_error_unnoticed:
  assumes "writeMsg L (create_request mm) mm cnx = (mm1, None, cnx1)"
    and "readMsg L mm1 cnx1 = (Some m, None, cnx2)" and "msg_Op m = Some XLRegMsg_Error" and "msg_ClusterID m = None"
    and "xi_Random L (mm_draws mm1) = Inr n"
  shows "\<exists>mm2. CreateAndReply L mm cnx = (mm2, None, cnx2) \<and> mm_ClusterID mm2 = Some n"
  using assms by (simp add: CreateAndReply_def xi_New_or_random_def Let_def)

section \<open>Sample runs\<close>

definition clib :: "XLRegMsg list \<Rightarrow> ((bytes \<times> hval) list, hval, bytes list, u32) clientlib" where
  "clib ms = serverlib.extend (reflib ms) (clientlib.fields
     (\<lambda>e. Inr (Connector e)) (\<lambda>c. case c of Connector (EndPoint s) \<Rightarrow> s)
     (\<lambda>nm i ck sk cs. if nm = [] then Inl ''no name'' else
        Inr \<lparr>bn_name = nm, bn_id = i, bn_ck = ck, bn_sk = sk, pe_ctors = cs\<rparr>)
     (\<lambda>k h. Inr h) (\<lambda>w i. w AND NOT (push_bit i 1)) (\<lambda>w. w \<noteq> 0) (\<lambda>w. w = 0))"

lemma clib_fields [simp]:
  "xi_New (clib ms) = xi_New hlib" "xi_Random (clib ms) = xi_Random hlib"
  "RSAPubKeyFromWire (clib ms) = RSAPubKeyFromWire hlib" "RSAPubKeyToWire (clib ms) = RSAPubKeyToWire hlib"
  "sha1_Sum (clib ms) = sha1_Sum hlib" "VerifyPKCS1v15 (clib ms) = VerifyPKCS1v15 hlib"
  "bm_LowNMap (clib ms) = bm_LowNMap hlib" "bm_Intersection (clib ms) = bm_Intersection hlib"
  "bm_Test (clib ms) = bm_Test hlib" "bm_Set (clib ms) = bm_Set hlib"
  "NewTcpEndPoint (clib ms) = NewTcpEndPoint hlib" "EndPoint_String (clib ms) = EndPoint_String hlib"
  "proto_Marshal (clib ms) = proto_Marshal (reflib ms :: reftype)" "proto_Unmarshal (clib ms) = proto_Unmarshal (reflib ms :: reftype)"
  "aes_Encrypt (clib ms) = aes_Encrypt hlib" "aes_Decrypt (clib ms) = aes_Decrypt hlib"
  "NewTcpConnector (clib ms) = (\<lambda>e. Inr (Connector e))"
  "NewPeer (clib ms) = (\<lambda>nm i ck sk cs. if nm = [] then Inl ''no name'' else
        Inr \<lparr>bn_name = nm, bn_id = i, bn_ck = ck, bn_sk = sk, pe_ctors = cs\<rparr>)"
  "SignPKCS1v15 (clib ms) = (\<lambda>k h. Inr h)" "bm_Clear (clib ms) = (\<lambda>w i. w AND NOT (push_bit i 1))"
  by (simp_all add: clib_def serverlib.defs clientlib.defs)

lemma clib_keys: "keys_ok (clib ms)"
  using ref_keys_inverse by (simp add: keys_ok_def)

lemma clib_sign: "sign_ok (clib ms)"
  by (simp add: sign_ok_def)

lemma clib_bitmaps: "bitmaps_ok (clib ms)"
  using reflib_bitmaps [of "[]"] by (simp only: bitmaps_ok_def clib_fields)

lemma clib_clear: "clear_ok (clib ms)"
  unfolding clear_ok_def clib_fields bit_and_iff bit_not_iff bit_push_bit_iff bit_1_iff by (auto simp: possible_bit_word dest: bit_imp_le_length)

definition ref_priv :: rsa_priv where "ref_priv = \<lparr>rsa_pub_of = ref_pub, rsa_D = 1\<rparr>"
definition ref_member :: Node where
  "ref_member = \<lparr>nd_name = ''al'', nd_id = Some (NodeID (ref_id 1)), nd_ckPriv = ref_priv, nd_skPriv = ref_priv, nd_ends = [],
     nd_lfs = [], nd_acc = None\<rparr>"

theorem member_request_verifies_witness:
  "\<exists>m. member_request (clib []) ref_member 3 = Inr m
     \<and> client_keys (clib []) (GetMemberSpecs (Some m)) = Inr (ref_pub, ref_pub)"
proof -
  obtain m where m: "member_request (clib []) ref_member 3 = Inr m"
    by (simp add: member_request_def ref_member_def ref_priv_def ref_pub_def ref_ToWire_def Let_def)
  from member_request_verifies [OF clib_keys clib_sign m] m show ?thesis
    by (simp add: ref_member_def ref_priv_def)
qed

definition ref_info :: "string \<Rightarrow> u8 \<Rightarrow> MemberInfo" where
  "ref_info nm n = \<lparr>mi_Attrs = 3, mi_Peer = \<lparr>bn_name = nm, bn_id = NodeID (ref_id n), bn_ck = Some ref_pub, bn_sk = Some ref_pub,
     pe_ctors = [Connector (EndPoint ''127.0.0.1:55''), Connector (EndPoint ''127.0.0.1:56'')]\<rparr>\<rparr>"

definition ref_token :: "string \<Rightarrow> u8 \<Rightarrow> XLRegMsg_Token" where
  "ref_token nm n = \<lparr>tok_Name = Some nm, tok_Attrs = Some 3, tok_ID = Some (ref_id n), tok_CommsKey = Some [33], tok_SigKey = Some [33],
     tok_MyEnds = Some [''127.0.0.1:55'', ''127.0.0.1:56''], tok_DigSig = None\<rparr>"

lemma ref_client_token: "ci_Token (clib ms) (ref_client nm n) = Inr (ref_token nm n)"
  by (simp add: ci_Token_def ref_client_def ref_token_def ref_bn_def ref_ToWire_def ref_pub_def ci_GetName_def ci_ID_def)

lemma ref_ends: "field_value ''127.0.0.1:55''" "field_value ''127.0.0.1:56''"
  by code_simp+

lemma ref_token_info: "nm \<noteq> [] \<Longrightarrow> NewMemberInfoFromToken (clib ms) d (Some (ref_token nm n)) = Inr (ref_info nm n)"
  by (simp add: NewMemberInfoFromToken_def ref_token_def ref_info_def xi_New_or_random_def ref_FromWire_def ref_pub_def ref_ends)

theorem get_reply_understood_witness:
  "\<exists>ms' still'. collect_loop (clib []) (snd (get_members (clib []) (ref_cluster 9 [ref_client ''al'' 1, ref_client ''bob'' 2]) 2))
      (slice_of (fst (get_members (clib []) (ref_cluster 9 [ref_client ''al'' 1, ref_client ''bob'' 2]) 2)))
      [0..<2] 0 0 [None, None] 3 None = Ret (ms', still', None, 0) \<and> ms' ! 1 = Some (ref_info ''bob'' 2) \<and> ms' ! 0 = None"
proof -
  let ?rc = "ref_cluster 9 [ref_client ''al'' 1, ref_client ''bob'' 2]"
  have m: "rc_Members ?rc = [ref_client ''al'' 1, ref_client ''bob'' 2]" by (simp add: ref_cluster_def)
  have h: "\<forall>i < length (rc_Members ?rc). ci_Token (clib []) (rc_Members ?rc ! i) = Inr ([ref_token ''al'' 1, ref_token ''bob'' 2] ! i)
      \<and> NewMemberInfoFromToken (clib []) 0 (Some ([ref_token ''al'' 1, ref_token ''bob'' 2] ! i)) = Inr ([ref_info ''al'' 1, ref_info ''bob'' 2] ! i)"
  proof (intro allI impI)
    fix i assume "i < length (rc_Members ?rc)"
    then have "i = 0 \<or> i = 1" by (simp add: m less_Suc_eq)
    then show "ci_Token (clib []) (rc_Members ?rc ! i) = Inr ([ref_token ''al'' 1, ref_token ''bob'' 2] ! i)
      \<and> NewMemberInfoFromToken (clib []) 0 (Some ([ref_token ''al'' 1, ref_token ''bob'' 2] ! i)) = Inr ([ref_info ''al'' 1, ref_info ''bob'' 2] ! i)"
      by (elim disjE) (simp_all add: m ref_client_token ref_token_info)
  qed
  have n: "(2 :: nat) \<le> 64" "length [None, None :: MemberInfo option] = 2" "length (rc_Members ?rc) \<le> 2"
    by (simp_all add: m)
  note g = get_reply_understood [OF clib_bitmaps clib_clear n h, of 2 3]
  obtain ms' where *: "\<exists>still'. collect_loop (clib []) (snd (get_members (clib []) ?rc 2)) (slice_of (fst (get_members (clib []) ?rc 2)))
      [0..<2] 0 0 [None, None] 3 None = Ret (ms', still', None, 0)
     \<and> length ms' = 2 \<and> (\<forall>i < 2. ms' ! i = (if i < length (rc_Members ?rc) \<and> bit (2 :: u64) i
        then Some ([ref_info ''al'' 1, ref_info ''bob'' 2] ! i) else [None, None] ! i))
     \<and> (\<forall>i. bit still' i \<longleftrightarrow> bit (3 :: u64) i \<and> \<not> (i < length (rc_Members ?rc) \<and> bit (2 :: u64) i))"
    using g by (rule exE)
  then obtain still' where c: "collect_loop (clib []) (snd (get_members (clib []) ?rc 2)) (slice_of (fst (get_members (clib []) ?rc 2)))
      [0..<2] 0 0 [None, None] 3 None = Ret (ms', still', None, 0)
     \<and> length ms' = 2 \<and> (\<forall>i < 2. ms' ! i = (if i < length (rc_Members ?rc) \<and> bit (2 :: u64) i
        then Some ([ref_info ''al'' 1, ref_info ''bob'' 2] ! i) else [None, None] ! i))
     \<and> (\<forall>i. bit still' i \<longleftrightarrow> bit (3 :: u64) i \<and> \<not> (i < length (rc_Members ?rc) \<and> bit (2 :: u64) i))"
    by (rule exE)
  have b: "bit (2 :: u64) 1" "bit (2 :: u64) (Suc 0)" "\<not> bit (2 :: u64) 0" by code_simp+
  note e = c [THEN conjunct2, THEN conjunct2, THEN conjunct1, THEN spec, THEN mp]
  have "ms' ! 1 = Some (ref_info ''bob'' 2)" "ms' ! 0 = None"
    by (subst e, simp, simp add: m b)+
  then show ?thesis using c [THEN conjunct1] by (intro exI [of _ ms'] exI [of _ still'] conjI)
qed

definition ref_error_msg :: XLRegMsg where
  "ref_error_msg = zeroMsg\<lparr>msg_Op := Some XLRegMsg_Error, msg_ErrDesc := Some ''no''\<rparr>"

definition ref_maker :: "u32 MemberMaker" where
  "ref_maker = \<lparr>mm_Session = 0, mm_ProposedAttrs = 0, mm_Attrs = 0,
     mm_RegPeer = mi_Peer (ref_info ''xlReg'' 3), mm_Node = ref_member, mm_ClusterName = ''duo'',
     mm_ClusterAttrs = 0, mm_ClusterID = None, mm_ClusterMaxSize = 2, mm_EPCount = 1, mm_Members = None,
     mm_SelfIndex = 0, mm_draws = 0\<rparr>"

theorem create_error_unnoticed_witness:
  "\<exists>mm2 cnx2. CreateAndReply (clib [create_request ref_maker, ref_error_msg]) ref_maker
      \<lparr>cx_in = [([9, 1], None)], cx_writes = [], cx_out = [], cx_closed = False\<rparr> = (mm2, None, cnx2)
     \<and> mm_ClusterID mm2 = Some (NodeID (replicate 19 0 @ [0]))"
proof -
  let ?L = "clib [create_request ref_maker, ref_error_msg]"
  let ?c = "\<lambda>i out. \<lparr>cx_in = i, cx_writes = [], cx_out = out, cx_closed = False\<rparr>"
  have w: "writeMsg ?L (create_request ref_maker) ref_maker (?c [([9, 1], None)] []) =
      (ref_maker\<lparr>mm_Session := 1\<rparr>, None, ?c [([9, 1], None)] [[0, 0]])"
    by (simp add: writeMsg_def EncodePadEncrypt_def EncodePacket_def WriteData_def Cnx_Write_def ref_index_def)
      (simp add: ref_maker_def)
  have r: "readMsg ?L (ref_maker\<lparr>mm_Session := 1\<rparr>) (?c [([9, 1], None)] [[0, 0]]) = (Some ref_error_msg, None, ?c [] [[0, 0]])"
    by (simp add: readMsg_def ReadData_def Cnx_Read_def MSG_BUF_LEN_def DecryptUnpadDecode_def DecodePacket_def)
  have "msg_Op ref_error_msg = Some XLRegMsg_Error" "msg_ClusterID ref_error_msg = None"
    by (simp_all add: ref_error_msg_def zeroMsg_def)
  moreover have "xi_Random ?L (mm_draws (ref_maker\<lparr>mm_Session := 1\<rparr>)) = Inr (NodeID (replicate 19 0 @ [0]))"
    by (simp add: ref_maker_def)
  ultimately show ?thesis using create_error_unnoticed [OF w r] by blast
qed

end
