(* ===== verification/NodeLib.thy ===== *)
theory NodeLib
  imports MemberNode
begin

text \<open>
  What the start-up code uses besides: nodes and their text form (\<open>xlNode_go\<close>), private keys
  (\<open>xlCrypto_go\<close>), the client's half of the hello (\<open>xlProtocol_go\<close>), connecting
  (\<open>xlTransport_go\<close>), the file system, and paths of the standard library. The file system is a state
  of type \<open>'f\<close> that the calls take and return.
\<close>

section \<open>Paths\<close>

text \<open>\<open>path.Clean\<close>: empty elements and dots go, two dots take the element before them with them.\<close>

fun clean_elems :: "bool \<Rightarrow> string list \<Rightarrow> string list \<Rightarrow> string list" where
  "clean_elems rooted out [] = rev out"
| "clean_elems rooted out (e # es) =
     (if e = [] \<or> e = ''.'' then clean_elems rooted out es
      else if e = ''..'' then
        (case out of
           [] \<Rightarrow> clean_elems rooted (if rooted then [] else [e]) es
         | o' # out' \<Rightarrow> clean_elems rooted (if o' = ''..'' then e # out else out') es)
      else clean_elems rooted (e # out) es)"

definition path_Clean :: "string \<Rightarrow> string" where
  "path_Clean s =
     (let rooted = HasPrefix s ''/''; es = clean_elems rooted [] (Split s ''/'')
      in if rooted then ''/'' @ Join ''/'' es else if es = [] then ''.'' else Join ''/'' es)"

definition path_Join :: "string \<Rightarrow> string \<Rightarrow> string" where
  "path_Join a b = (if a \<noteq> [] then path_Clean (Join ''/'' [a, b]) else if b \<noteq> [] then path_Clean b else [])"

text \<open>\<open>%d\<close> of an \<open>int\<close>.\<close>

definition fmt_int :: "int \<Rightarrow> string" where
  "fmt_int i = (if i < 0 then ''-'' @ fmt_d (nat (- i)) else fmt_d (nat i))"

section \<open>Library operations\<close>

text \<open>
  \<open>xn_NewNew\<close> makes its own keys, and \<open>GenerateKey\<close> makes a key; both take the number of the call.
  \<open>ExpectRSAPrivateKey\<close> reads a key up to its last line and returns the lines left.
\<close>

record ('h, 'v, 'b, 's, 'f) nodelib = "('h, 'v, 'b, 's) clientlib" +
  xn_New :: "string \<Rightarrow> nodeID option \<Rightarrow> string \<Rightarrow> rsa_priv \<Rightarrow> rsa_priv \<Rightarrow> EndPoint list \<Rightarrow> string + Node"
  xn_NewNew :: "nat \<Rightarrow> string \<Rightarrow> nodeID option \<Rightarrow> string \<Rightarrow> string + Node"
  Node_Strings :: "Node \<Rightarrow> string list"
  xn_ParseFromStrings :: "string list \<Rightarrow> string + (Node \<times> string list)"
  Node_OpenAcc :: "Node \<Rightarrow> Node \<times> string option"
  Node_AddEndPoint :: "Node \<Rightarrow> EndPoint \<Rightarrow> Node \<times> string option"
  Node_AddPeer :: "Node \<Rightarrow> Peer \<Rightarrow> Node \<times> string option"
  RSAPrivateKeyToDisk :: "rsa_priv \<Rightarrow> string \<times> string option"
  ExpectRSAPrivateKey :: "string list \<Rightarrow> string + (rsa_priv \<times> string list)"
  GenerateKey :: "nat \<Rightarrow> string + rsa_priv"
  ClientEncryptHello :: "u32 \<Rightarrow> rsa_pub option \<Rightarrow> string + ('s \<times> bytes)"
  ClientDecryptHelloReply :: "'s \<Rightarrow> bytes \<Rightarrow> string + ('s \<times> u32)"
  Connect :: "Connector \<Rightarrow> string + TcpConnection"
  fs_PathExists :: "'f \<Rightarrow> string \<Rightarrow> string + bool"
  fs_CheckLFS :: "'f \<Rightarrow> string \<Rightarrow> 'f \<times> string option"
  fs_MkdirsToFile :: "'f \<Rightarrow> string \<Rightarrow> 'f \<times> string option"
  fs_OpenFile :: "'f \<Rightarrow> string \<Rightarrow> 'f \<times> string option"
  fs_ReadFile :: "'f \<Rightarrow> string \<Rightarrow> string + string"
  fs_WriteFile :: "'f \<Rightarrow> string \<Rightarrow> string \<Rightarrow> 'f \<times> string option"

section \<open>What the code relies on\<close>

text \<open>
  The text of a node reads back as the node with its acceptors closed, at an indentation of four, and
  the lines that follow are left. A printed private key starts with its first line
  \<open>-----BEGIN -----\<close> and is read from the next one on; only blank lines are left before what follows.
\<close>

definition key_begin :: string where
  "key_begin = ''-----BEGIN -----''"

definition node_reads_back :: "('h, 'v, 'b, 's, 'f, 'z) nodelib_scheme \<Rightarrow> Node \<Rightarrow> bool" where
  "node_reads_back L n \<longleftrightarrow> Node_Strings L n \<noteq> [] \<and>
     (\<forall>rest. xn_ParseFromStrings L (concat (map split_nl (map ((@) ''    '') (Node_Strings L n))) @ rest) =
        Inr (n\<lparr>nd_acc := None\<rparr>, rest))"

definition key_reads_back :: "('h, 'v, 'b, 's, 'f, 'z) nodelib_scheme \<Rightarrow> rsa_priv \<Rightarrow> bool" where
  "key_reads_back L k \<longleftrightarrow> (\<exists>ls bs. split_nl (fst (RSAPrivateKeyToDisk L k)) = key_begin # ls
     \<and> (\<forall>b \<in> set bs. TrimSpace b = []) \<and> (\<forall>rest. ExpectRSAPrivateKey L (ls @ rest) = Inr (k, bs @ rest)))"

section \<open>A concrete library\<close>

definition ref_key :: "nat \<Rightarrow> rsa_priv" where
  "ref_key n = \<lparr>rsa_pub_of = \<lparr>rsa_N = n, rsa_E = 65537\<rparr>, rsa_D = 1\<rparr>"

definition ref_xnode :: "string \<Rightarrow> nodeID option \<Rightarrow> string \<Rightarrow> rsa_priv \<Rightarrow> rsa_priv \<Rightarrow> EndPoint list \<Rightarrow> Node" where
  "ref_xnode name i lfs ck sk es = \<lparr>nd_name = name, nd_id = i, nd_ckPriv = ck, nd_skPriv = sk, nd_ends = es, nd_lfs = lfs, nd_acc = None\<rparr>"

definition no_cnx :: TcpConnection where
  "no_cnx = \<lparr>cx_in = [], cx_writes = [], cx_out = [], cx_closed = False\<rparr>"

type_synonym ref_files = "(string \<times> string) list"

text \<open>
  The library of the sample runs, with more: the text of a node is its name and its directory, and
  the node read from it has fixed keys; files are an association list; every connection is \<open>c\<close>.
\<close>

definition xlib :: "XLRegMsg list \<Rightarrow> TcpConnection \<Rightarrow> 'z \<Rightarrow> ((bytes \<times> hval) list, hval, bytes list, u32, ref_files, 'z) nodelib_scheme" where
  "xlib ms c z = nodelib.extend (clientlib.extend (clib ms) (nodelib.fields
     (\<lambda>name i lfs ck sk es. if i = None then Inl ''nil ID'' else Inr (ref_xnode name i lfs ck sk es))
     (\<lambda>d name i lfs. if i = None then Inl ''nil ID'' else Inr (ref_xnode name i lfs (ref_key 33) (ref_key 33) []))
     (\<lambda>n. [nd_name n, nd_lfs n])
     (\<lambda>ls. case ls of name # lfs # rest \<Rightarrow>
        Inr (ref_xnode (TrimSpace name) (Some (NodeID (ref_id 3))) (TrimSpace lfs) (ref_key 33) (ref_key 33) [], rest)
      | _ \<Rightarrow> Inl ''not a node'')
     (\<lambda>n. (n\<lparr>nd_acc := Some (Acceptor ''127.0.0.1:44'')\<rparr>, None))
     (\<lambda>n e. (n\<lparr>nd_ends := nd_ends n @ [e]\<rparr>, None)) (\<lambda>n p. (n, None))
     (\<lambda>k. (key_begin @ newline @ fmt_d (rsa_N (rsa_pub_of k)) @ newline @ ''-----END -----'' @ newline, None))
     (\<lambda>ls. case ls of s # e # rest \<Rightarrow>
        (case Atoi s of Inl err \<Rightarrow> Inl ''not a key'' | Inr n \<Rightarrow> Inr (ref_key (nat n), rest)) | _ \<Rightarrow> Inl ''not a key'')
     (\<lambda>d. Inr (ref_key 33)) (\<lambda>v k. Inr (0, [1]))
     (\<lambda>s b. case b of [v] \<Rightarrow> Inr (s + 1, ucast v) | _ \<Rightarrow> Inl ''bad reply'') (\<lambda>ctor. Inr c)
     (\<lambda>fs p. Inr (map_of fs p \<noteq> None)) (\<lambda>fs p. (fs, None)) (\<lambda>fs p. (fs, None)) (\<lambda>fs p. (fs, None))
     (\<lambda>fs p. case map_of fs p of None \<Rightarrow> Inl ''no such file'' | Some t \<Rightarrow> Inr t)
     (\<lambda>fs p t. ((p, t) # fs, None)))) z"

abbreviation "nlib ms c \<equiv> xlib ms c ()"

lemma nlib_fields [simp]:
  "xn_New (xlib ms c z) = (\<lambda>name i lfs ck sk es. if i = None then Inl ''nil ID'' else Inr (ref_xnode name i lfs ck sk es))"
  "xn_NewNew (xlib ms c z) = (\<lambda>d name i lfs. if i = None then Inl ''nil ID'' else Inr (ref_xnode name i lfs (ref_key 33) (ref_key 33) []))"
  "Node_Strings (xlib ms c z) = (\<lambda>n. [nd_name n, nd_lfs n])"
  "xn_ParseFromStrings (xlib ms c z) = (\<lambda>ls. case ls of name # lfs # rest \<Rightarrow>
        Inr (ref_xnode (TrimSpace name) (Some (NodeID (ref_id 3))) (TrimSpace lfs) (ref_key 33) (ref_key 33) [], rest)
      | _ \<Rightarrow> Inl ''not a node'')"
  "Node_OpenAcc (xlib ms c z) = (\<lambda>n. (n\<lparr>nd_acc := Some (Acceptor ''127.0.0.1:44'')\<rparr>, None))"
  "Node_AddEndPoint (xlib ms c z) = (\<lambda>n e. (n\<lparr>nd_ends := nd_ends n @ [e]\<rparr>, None))" "Node_AddPeer (xlib ms c z) = (\<lambda>n p. (n, None))"
  "RSAPrivateKeyToDisk (xlib ms c z) = (\<lambda>k. (key_begin @ newline @ fmt_d (rsa_N (rsa_pub_of k)) @ newline @ ''-----END -----'' @ newline, None))"
  "ExpectRSAPrivateKey (xlib ms c z) = (\<lambda>ls. case ls of s # e # rest \<Rightarrow>
        (case Atoi s of Inl err \<Rightarrow> Inl ''not a key'' | Inr n \<Rightarrow> Inr (ref_key (nat n), rest)) | _ \<Rightarrow> Inl ''not a key'')"
  "GenerateKey (xlib ms c z) = (\<lambda>d. Inr (ref_key 33))" "ClientEncryptHello (xlib ms c z) = (\<lambda>v k. Inr (0, [1]))"
  "ClientDecryptHelloReply (xlib ms c z) = (\<lambda>s b. case b of [v] \<Rightarrow> Inr (s + 1, ucast v) | _ \<Rightarrow> Inl ''bad reply'')"
  "Connect (xlib ms c z) = (\<lambda>ctor. Inr c)" "fs_PathExists (xlib ms c z) = (\<lambda>fs p. Inr (map_of fs p \<noteq> None))"
  "fs_CheckLFS (xlib ms c z) = (\<lambda>fs p. (fs, None))" "fs_MkdirsToFile (xlib ms c z) = (\<lambda>fs p. (fs, None))"
  "fs_OpenFile (xlib ms c z) = (\<lambda>fs p. (fs, None))"
  "fs_ReadFile (xlib ms c z) = (\<lambda>fs p. case map_of fs p of None \<Rightarrow> Inl ''no such file'' | Some t \<Rightarrow> Inr t)"
  "fs_WriteFile (xlib ms c z) = (\<lambda>fs p t. ((p, t) # fs, None))"
  by (simp_all add: xlib_def clib_def serverlib.defs clientlib.defs nodelib.defs)

lemma nlib_base [simp]:
  "xi_New (xlib ms c z) = xi_New hlib" "xi_Random (xlib ms c z) = xi_Random hlib" "NextNBLine (xlib ms c z) = NextNBLine hlib"
  "RSAPubKeyFromWire (xlib ms c z) = RSAPubKeyFromWire hlib" "RSAPubKeyToWire (xlib ms c z) = RSAPubKeyToWire hlib"
  "sha1_Sum (xlib ms c z) = sha1_Sum hlib" "VerifyPKCS1v15 (xlib ms c z) = VerifyPKCS1v15 hlib"
  "NewBaseNode (xlib ms c z) = NewBaseNode hlib" "BaseNode_Equal (xlib ms c z) = BaseNode_Equal hlib"
  "bm_LowNMap (xlib ms c z) = bm_LowNMap hlib" "bm_Intersection (xlib ms c z) = bm_Intersection hlib"
  "bm_Test (xlib ms c z) = bm_Test hlib" "bm_Set (xlib ms c z) = bm_Set hlib"
  "ha_MAX_W (xlib ms c z) = ha_MAX_W hlib" "NextExp2_32 (xlib ms c z) = NextExp2_32 hlib" "NewHAMT (xlib ms c z) = NewHAMT hlib"
  "NewBytesKey (xlib ms c z) = NewBytesKey hlib" "ha_Find (xlib ms c z) = ha_Find hlib" "ha_Insert (xlib ms c z) = ha_Insert hlib"
  "NewBloomSHA (xlib ms c z) = NewBloomSHA hlib" "NewMappedBloomSHA (xlib ms c z) = NewMappedBloomSHA hlib"
  "bf_IsMember (xlib ms c z) = bf_IsMember hlib" "bf_Insert (xlib ms c z) = bf_Insert hlib" "bf_Size (xlib ms c z) = bf_Size hlib"
  "ParseDecimalVersion (xlib ms c z) = ParseDecimalVersion hlib" "WriteFile (xlib ms c z) = WriteFile hlib"
  "NewTcpEndPoint (xlib ms c z) = NewTcpEndPoint hlib" "EndPoint_String (xlib ms c z) = EndPoint_String hlib"
  "proto_Marshal (xlib ms c z) = proto_Marshal (reflib ms :: reftype)" "proto_Unmarshal (xlib ms c z) = proto_Unmarshal (reflib ms :: reftype)"
  "AesSession_zero (xlib ms c z) = AesSession_zero hlib"
  "aes_Encrypt (xlib ms c z) = aes_Encrypt hlib" "aes_Decrypt (xlib ms c z) = aes_Decrypt hlib"
  "NewTcpConnector (xlib ms c z) = NewTcpConnector (clib ms)" "NewPeer (xlib ms c z) = NewPeer (clib ms)"
  "SignPKCS1v15 (xlib ms c z) = SignPKCS1v15 (clib ms)" "bm_Clear (xlib ms c z) = bm_Clear (clib ms)"
  "bm_Any (xlib ms c z) = bm_Any (clib ms)" "bm_None (xlib ms c z) = bm_None (clib ms)"
  by (simp_all add: xlib_def clib_def serverlib.defs clientlib.defs nodelib.defs)

lemma nlib_lines [simp]: "lines_ok (xlib ms c z)"
  using reflib_lines [of "[]"] by (simp only: lines_ok_def nlib_base)

lemma split_nl_append: "split_nl (s @ newline @ t) = split_nl s @ split_nl t"
  by (simp add: Split_def split_from_nl_append)

lemma nlib_key: "key_reads_back (xlib ms c z) (ref_key n)"
  if "n < 2 ^ 63"
proof -
  have "split_nl (key_begin @ newline @ fmt_d n @ newline @ ''-----END -----'' @ newline) =
      [key_begin, fmt_d n, ''-----END -----'', []]"
  proof -
    have "split_nl (fmt_d n) = [fmt_d n]" using wordy_no_newline by (intro split_nl_line) simp
    moreover have "split_nl key_begin = [key_begin]" by (intro split_nl_line) (simp add: key_begin_def)
    moreover have "split_nl (''-----END -----'' @ newline @ []) = [''-----END -----'', []]"
      unfolding split_nl_append by (simp add: split_nl_line)
    ultimately show ?thesis by (simp only: split_nl_append append_Nil2) simp
  qed
  then show ?thesis
    using that by (intro key_reads_back_def [THEN iffD2] exI [of _ "[fmt_d n, ''-----END -----'', []]"] exI [of _ "[[]]"])
      (simp add: ref_key_def Atoi_fmt_d TrimSpace_def)
qed

end
