(* ===== verification/RegNode.thy ===== *)
theory RegNode
  imports NodeLib
begin

text \<open>
  The registry's node (\<open>reg_node.go\<close>): construction, the text form with the two private keys, and its
  parser, which opens the node's acceptor.
\<close>

section \<open>Data and construction\<close>

record RegNodeFull =
  rnf_Acc :: Acceptor
  rnf_ckPriv :: rsa_priv
  rnf_skPriv :: rsa_priv
  rnf_Node :: Node

definition NewRegNode :: "Node option \<Rightarrow> rsa_priv \<Rightarrow> rsa_priv \<Rightarrow> gerror + RegNodeFull" where
  "NewRegNode node commsKey sigKey =
     (case node of
        None \<Rightarrow> Inl NilNode
      | Some node \<Rightarrow>
          (case nd_acc node of
             None \<Rightarrow> Inl (Ext ''AcceptorNotLive'')
           | Some acc \<Rightarrow> Inr \<lparr>rnf_Acc = acc, rnf_ckPriv = commsKey, rnf_skPriv = sigKey, rnf_Node = node\<rparr>))"

text \<open>
  What the registry sees of it: the accessors of the node. A node without an ID has no such view.
\<close>

definition regnode_view :: "RegNodeFull \<Rightarrow> RegNode option" where
  "regnode_view rn =
     (let n = rnf_Node rn in
      map_option (\<lambda>i. \<lparr>rn_BaseNode = \<lparr>bn_name = nd_name n, bn_id = i, bn_ck = Some (rsa_pub_of (nd_ckPriv n)),
                                      bn_sk = Some (rsa_pub_of (nd_skPriv n))\<rparr>,
                       rn_LFS = nd_lfs n, rn_ckPriv = rnf_ckPriv rn, rn_skPriv = rnf_skPriv rn\<rparr>) (nd_id n))"

section \<open>Text form\<close>

text \<open>The errors of printing the keys are dropped.\<close>

definition RegNode_Strings :: "('h, 'v, 'b, 's, 'f, 'z) nodelib_scheme \<Rightarrow> RegNodeFull \<Rightarrow> string list" where
  "RegNode_Strings L rn =
     [''regNode {''] @ map ((@) ''    '') (Node_Strings L (rnf_Node rn))
     @ [''    ckPriv: '' @ fst (RSAPrivateKeyToDisk L (rnf_ckPriv rn)),
        ''    skPriv: '' @ fst (RSAPrivateKeyToDisk L (rnf_skPriv rn)), ''}'']"

definition RegNode_String :: "('h, 'v, 'b, 's, 'f, 'z) nodelib_scheme \<Rightarrow> RegNodeFull \<Rightarrow> string" where
  "RegNode_String L rn = Join newline (RegNode_Strings L rn)"

text \<open>
  A private key under its label. The second part of the line is read only if the first one is the
  label, without checking that there is one.
\<close>

definition private_key ::
  "('h, 'v, 'b, 's, 'f, 'z) nodelib_scheme \<Rightarrow> string \<Rightarrow> string \<Rightarrow> string list \<Rightarrow> (gerror + (rsa_priv \<times> string list)) outcome" where
  "private_key L label line rest =
     (let parts = Split line '': ''
      in if parts ! 0 = label then
           (if length parts \<le> 1 then Panic IndexOutOfRange
            else if parts ! 1 = key_begin then Ret (ext (ExpectRSAPrivateKey L rest))
            else Ret (Inl MissingPrivateKey))
         else Ret (Inl MissingPrivateKey))"

text \<open>What follows the two keys: the closing brace, then the acceptor is opened.\<close>

definition close_regnode ::
  "('h, 'v, 'b, 's, 'f, 'z) nodelib_scheme \<Rightarrow> Node \<Rightarrow> rsa_priv \<Rightarrow> rsa_priv \<Rightarrow> string list \<Rightarrow>
   (gerror + (RegNodeFull \<times> string list)) outcome" where
  "close_regnode L node ckPriv skPriv rest =
     with_line L rest (\<lambda>line rest.
       if line \<noteq> ''}'' then Ret (Inl MissingClosingBrace)
       else (case Node_OpenAcc L node of
               (node, Some e) \<Rightarrow> Ret (Inl (Ext e))
             | (node, None) \<Rightarrow>
                 (case NewRegNode (Some node) ckPriv skPriv of
                    Inl e \<Rightarrow> Ret (Inl e)
                  | Inr rn \<Rightarrow> Ret (Inr (rn, rest)))))"

text \<open>An error in reading the first line is overwritten by the result of parsing the node.\<close>

definition ParseRegNodeFromStrings ::
  "('h, 'v, 'b, 's, 'f, 'z) nodelib_scheme \<Rightarrow> string list \<Rightarrow> (gerror + (RegNodeFull \<times> string list)) outcome" where
  "ParseRegNodeFromStrings L ss =
     (case NextNBLine L ss of (first, rest) \<Rightarrow>
      if (case first of Inr line \<Rightarrow> line \<noteq> ''regNode {'' | Inl e \<Rightarrow> False) then Ret (Inl MissingRegNodeLine)
      else
     (case ext (xn_ParseFromStrings L rest) of
        Inl e \<Rightarrow> Ret (Inl e)
      | Inr (node, rest) \<Rightarrow>
     with_line L rest (\<lambda>line rest.
     obind (private_key L ''ckPriv'' line rest) (\<lambda>r.
     case r of
       Inl e \<Rightarrow> Ret (Inl e)
     | Inr (ckPriv, rest) \<Rightarrow>
     with_line L rest (\<lambda>line rest.
     obind (private_key L ''skPriv'' line rest) (\<lambda>r.
     case r of
       Inl e \<Rightarrow> Ret (Inl e)
     | Inr (skPriv, rest) \<Rightarrow> close_regnode L node ckPriv skPriv rest))))))"

definition ParseRegNode ::
  "('h, 'v, 'b, 's, 'f, 'z) nodelib_scheme \<Rightarrow> string \<Rightarrow> (gerror + (RegNodeFull \<times> string list)) outcome" where
  "ParseRegNode L s = ParseRegNodeFromStrings L (split_nl s)"

section \<open>Printed lines\<close>

lemma split_nl_prefix:
  assumes "CHR 0x0A \<notin> set p" and "split_nl s = l # ls"
  shows "split_nl (p @ s) = (p @ l) # ls"
proof -
  have "split_from newline acc (p @ s) = split_from newline (acc @ p) s" for acc
    using assms(1) by (induction p arbitrary: acc) (auto simp: newline_def HasPrefix_def)
  moreover have "split_from newline (acc @ q) s = (case split_from newline q s of [] \<Rightarrow> [] | x # xs \<Rightarrow> (acc @ x) # xs)" for acc q
  proof (induction s arbitrary: q)
    case (Cons c s)
    show ?case
      using Cons.IH [of "q @ [c]"] by (simp add: newline_def HasPrefix_def)
  qed simp
  note this [of p "[]"]
  ultimately show ?thesis using assms(2) by (simp add: Split_def)
qed

lemma NextNBLine_blanks:
  "lines_ok X \<Longrightarrow> \<forall>b \<in> set bs. TrimSpace b = [] \<Longrightarrow> NextNBLine X (bs @ ls) = NextNBLine X ls"
  by (induction bs) (simp_all add: lines_okD(2))

lemma with_line_blanks:
  "lines_ok L \<Longrightarrow> \<forall>b \<in> set bs. TrimSpace b = [] \<Longrightarrow> with_line L (bs @ ls) k = with_line L ls k"
  by (simp add: with_line_def NextNBLine_blanks)

lemma solid_key: "solid (''ckPriv: '' @ key_begin)" "solid (''skPriv: '' @ key_begin)" "solid ''regNode {''"
  by (simp_all add: solid_def key_begin_def is_space_def)

lemma split_key: "Split (''ckPriv: '' @ key_begin) '': '' = [''ckPriv'', key_begin]"
  "Split (''skPriv: '' @ key_begin) '': '' = [''skPriv'', key_begin]"
  by (code_simp, code_simp)

lemma private_key_printed:
  assumes "Split (label @ '': '' @ key_begin) '': '' = [label, key_begin]" and "ExpectRSAPrivateKey L rest = Inr (k, rest')"
  shows "private_key L label (label @ '': '' @ key_begin) rest = Ret (Inr (k, rest'))"
  using assms by (simp add: private_key_def)

lemma ParseRegNode_printed:
  assumes "lines_ok L" and "node_reads_back L (rnf_Node rn)" and "key_reads_back L (rnf_ckPriv rn)" and "key_reads_back L (rnf_skPriv rn)"
    and "Node_OpenAcc L ((rnf_Node rn)\<lparr>nd_acc := None\<rparr>) = (rnf_Node rn, None)" and "nd_acc (rnf_Node rn) = Some (rnf_Acc rn)"
  shows "ParseRegNode L (RegNode_String L rn) = Ret (Inr (rn, []))"
proof -
  obtain cls cbs where ck: "split_nl (fst (RSAPrivateKeyToDisk L (rnf_ckPriv rn))) = key_begin # cls"
    "\<forall>b \<in> set cbs. TrimSpace b = []" "\<And>rest. ExpectRSAPrivateKey L (cls @ rest) = Inr (rnf_ckPriv rn, cbs @ rest)"
    using assms(3) unfolding key_reads_back_def by blast
  obtain sls sbs where sk: "split_nl (fst (RSAPrivateKeyToDisk L (rnf_skPriv rn))) = key_begin # sls"
    "\<forall>b \<in> set sbs. TrimSpace b = []" "\<And>rest. ExpectRSAPrivateKey L (sls @ rest) = Inr (rnf_skPriv rn, sbs @ rest)"
    using assms(4) unfolding key_reads_back_def by blast
  let ?N = "concat (map split_nl (map ((@) ''    '') (Node_Strings L (rnf_Node rn))))"
  let ?ck = "''    '' @ ''ckPriv: '' @ key_begin" and ?sk = "''    '' @ ''skPriv: '' @ key_begin"
  have lines: "split_nl (RegNode_String L rn) = ''regNode {'' # ?N @ ?ck # cls @ ?sk # sls @ [''}'']"
    using split_nl_prefix [OF _ ck(1), of "''    ckPriv: ''"] split_nl_prefix [OF _ sk(1), of "''    skPriv: ''"]
    by (simp add: RegNode_String_def RegNode_Strings_def split_nl_Join split_nl_line)
  have line: "with_line L ((''    '' @ s) # ls) k = k s ls" if "solid s" for s ls and k :: "string \<Rightarrow> string list \<Rightarrow> (gerror + (RegNodeFull \<times> string list)) outcome"
    using with_line_printed [OF assms(1) indent_four that] .
  have brace: "with_line L [''}''] k = k ''}'' []" for k :: "string \<Rightarrow> string list \<Rightarrow> (gerror + (RegNodeFull \<times> string list)) outcome"
    using with_line_printed [OF assms(1), of "[]" "''}''" "[]" k] solid_brace by simp
  have first: "NextNBLine L (''regNode {'' # ls) = (Inr ''regNode {'', ls)" for ls
    using NextNBLine_solid [OF assms(1), of "[]" "''regNode {''"] solid_key(3) by simp
  have node: "xn_ParseFromStrings L (?N @ rest) = Inr ((rnf_Node rn)\<lparr>nd_acc := None\<rparr>, rest)" for rest
    using assms(2) unfolding node_reads_back_def by blast
  have pck: "private_key L ''ckPriv'' (''ckPriv: '' @ key_begin) (cls @ rest) = Ret (Inr (rnf_ckPriv rn, cbs @ rest))" for rest
    using private_key_printed [of "''ckPriv''", OF _ ck(3)] split_key(1) by simp
  have psk: "private_key L ''skPriv'' (''skPriv: '' @ key_begin) (sls @ rest) = Ret (Inr (rnf_skPriv rn, sbs @ rest))" for rest
    using private_key_printed [of "''skPriv''", OF _ sk(3)] split_key(2) by simp
  have close: "close_regnode L ((rnf_Node rn)\<lparr>nd_acc := None\<rparr>) (rnf_ckPriv rn) (rnf_skPriv rn) (sbs @ [''}'']) = Ret (Inr (rn, []))"
    using assms(5,6) by (simp add: close_regnode_def with_line_blanks [OF assms(1) sk(2)] brace NewRegNode_def)
  show ?thesis
    unfolding ParseRegNode_def lines ParseRegNodeFromStrings_def first prod.case sum.case
    by (simp only: node ext_simps sum.case prod.case line solid_key pck obind.simps
        with_line_blanks [OF assms(1) ck(2)] psk close simp_thms if_False)
qed

section \<open>Properties\<close>

text \<open>C35. The text of a registry node, private keys included, is read back as that node, with its acceptor
  open again.\<close>

theorem regnode_text_roundtrip:
  assumes "lines_ok L" and "node_reads_back L (rnf_Node rn)" and "key_reads_back L (rnf_ckPriv rn)" and "key_reads_back L (rnf_skPriv rn)"
    and "Node_OpenAcc L ((rnf_Node rn)\<lparr>nd_acc := None\<rparr>) = (rnf_Node rn, None)" and "nd_acc (rnf_Node rn) = Some (rnf_Acc rn)"
  shows "ParseRegNode L (RegNode_String L rn) = Ret (Inr (rn, []))"
  by (rule ParseRegNode_printed [OF assms])

definition ref_regnode :: RegNodeFull where
  "ref_regnode = \<lparr>rnf_Acc = Acceptor ''127.0.0.1:44'', rnf_ckPriv = ref_key 33, rnf_skPriv = ref_key 33,
     rnf_Node = (ref_xnode ''xlReg'' (Some (NodeID (ref_id 3))) ''lfs'' (ref_key 33) (ref_key 33) [])
       \<lparr>nd_acc := Some (Acceptor ''127.0.0.1:44'')\<rparr>\<rparr>"

lemma ref_regnode_reads_back: "node_reads_back (nlib ms c) (rnf_Node ref_regnode)"
proof -
  have "split_nl ''    xlReg'' = [''    xlReg'']" "split_nl ''    lfs'' = [''    lfs'']"
    by (simp_all add: split_nl_line)
  moreover have "TrimSpace ''    xlReg'' = ''xlReg''" "TrimSpace ''    lfs'' = ''lfs''"
    by (simp_all add: TrimSpace_def is_space_def)
  ultimately show ?thesis
    by (simp add: node_reads_back_def ref_regnode_def ref_xnode_def)
qed

theorem regnode_text_roundtrip_witness:
  "ParseRegNode (nlib [] no_cnx) (RegNode_String (nlib [] no_cnx) ref_regnode) = Ret (Inr (ref_regnode, []))"
  by (rule regnode_text_roundtrip [OF nlib_lines ref_regnode_reads_back])
    (simp_all add: ref_regnode_def nlib_key ref_xnode_def)

end
