(* ===== verification/RegServer.thy ===== *)
theory RegServer
  imports Server RegNode
begin

text \<open>
  The server (\<open>reg_server.go\<close>): the accept loop, which starts a goroutine for every connection until
  \<open>Accept\<close> fails, and the goroutines, whose turns interleave over the one registry. A turn is a whole
  message here; \<open>Overlap\<close> divides it.
\<close>

section \<open>The server\<close>

text \<open>
  The registry together with its node, of which the registry's own operations only read the part
  that is in its record. The server has a copy of it.
\<close>

type_synonym ('h, 'b) NodeRegistry = "('h, 'b) Registry \<times> RegNodeFull"

record ('h, 'b) RegServer =
  rs_Testing :: bool
  rs_Verbosity :: int
  rs_Registry :: "('h, 'b) NodeRegistry"

definition NewRegServer :: "('h, 'b) NodeRegistry option \<Rightarrow> bool \<Rightarrow> int \<Rightarrow> gerror + ('h, 'b) RegServer" where
  "NewRegServer reg testing verbosity =
     (case reg of
        None \<Rightarrow> Inl NilRegistry
      | Some r \<Rightarrow> Inr \<lparr>rs_Testing = testing, rs_Verbosity = verbosity, rs_Registry = r\<rparr>)"

definition RegServer_GetAcceptor :: "('h, 'b) RegServer \<Rightarrow> Acceptor option" where
  "RegServer_GetAcceptor rs = nd_acc (rnf_Node (snd (rs_Registry rs)))"

section \<open>One connection\<close>

text \<open>One turn of the message loop; the last component is the error the loop ended with, if it ended.\<close>

definition loop_turn ::
  "('h, hval, 'b, 's, 'z) serverlib_scheme \<Rightarrow> ('h, 'b) Registry \<Rightarrow> 's SessionHandler \<Rightarrow> TcpConnection \<Rightarrow>
   (('h, 'b) Registry \<times> 's SessionHandler \<times> TcpConnection \<times> gerror option option) outcome" where
  "loop_turn L reg h cnx =
     (case ReadData cnx of
        (data, Some e, cnx) \<Rightarrow> Ret (reg, h, cnx, Some (Some e))
      | (data, None, cnx) \<Rightarrow>
     (case DecryptUnpadDecode L (ih_Session h) (slice_of data) of
        Inl e \<Rightarrow> Ret (reg, h, cnx, Some (Some e))
      | Inr msg \<Rightarrow>
     obind (handle_message L msg reg h) (\<lambda>(reg, h).
     case send_reply L h cnx of (h, cnx, err) \<Rightarrow>
     (let h = h\<lparr>ih_entryState := ih_exitState h\<rparr>
      in Ret (reg, h, cnx, if ih_exitState h = IN_CLOSED then Some err else None)))))"

datatype phase = Starting | Looping | Ended "gerror option"

text \<open>
  The goroutine of a connection, turn by turn: the hello, then the message loop. When \<open>Start\<close> has
  returned an error the connection is closed once more.
\<close>

definition conn_step ::
  "('h, hval, 'b, 's, 'z) serverlib_scheme \<Rightarrow> u32 \<Rightarrow> unit \<Rightarrow> ('h, 'b) Registry \<Rightarrow> 's SessionHandler \<times> TcpConnection \<times> phase \<Rightarrow>
   (('h, 'b) Registry \<times> 's SessionHandler \<times> TcpConnection \<times> phase) outcome" where
  "conn_step L version u reg l =
     (case l of
        (h, cnx, Starting) \<Rightarrow>
          (case handleHello L version (reg_RegNode reg) h cnx of
             (h, cnx, Some e) \<Rightarrow> Ret (reg, h, Cnx_Close cnx, Ended (Some e))
           | (h, cnx, None) \<Rightarrow> Ret (reg, h, cnx, Looping))
      | (h, cnx, Looping) \<Rightarrow>
          obind (loop_turn L reg h cnx) (\<lambda>(reg, h, cnx, r).
            case r of
              None \<Rightarrow> Ret (reg, h, cnx, Looping)
            | Some err \<Rightarrow> Ret (reg, h, Cnx_Close cnx, Ended err))
      | (h, cnx, Ended err) \<Rightarrow> Ret (reg, l))"

section \<open>The accept loop\<close>

text \<open>
  What the calls of \<open>Accept\<close> return. The loop breaks at the first error; all but that of a closed
  listener are logged as fatal. The connections that were accepted are served to their end.
\<close>

datatype accept_error = OpError string | OtherError string

datatype accept = Accepted TcpConnection | AcceptErr accept_error

datatype listener = Listening "accept list" | Stopped (fatal_logged: bool)

definition closed_error :: accept_error where
  "closed_error = OpError ''use of closed network connection''"

text \<open>\<open>Start\<close> opens the acceptor and then accepts in a goroutine of its own.\<close>

definition RegServer_Start ::
  "('h, 'v, 'b, 's, 'f, 'z) nodelib_scheme \<Rightarrow> accept list \<Rightarrow> ('h2, 'b2) RegServer \<Rightarrow>
   ('h2, 'b2) RegServer \<times> (gerror + listener)" where
  "RegServer_Start L as rs =
     (let reg = rs_Registry rs; rn = snd reg
      in case Node_OpenAcc L (rnf_Node rn) of
           (node, err) \<Rightarrow>
             (let rs = rs\<lparr>rs_Registry := (fst reg, rn\<lparr>rnf_Node := node\<rparr>)\<rparr>
              in (rs, case err of Some e \<Rightarrow> Inl (Ext e) | None \<Rightarrow> Inr (Listening as))))"

text \<open>\<open>Stop\<close> closes the acceptor: the next \<open>Accept\<close> reports that it is closed.\<close>

definition RegServer_Stop :: "('h, 'b) RegServer \<Rightarrow> listener \<Rightarrow> listener" where
  "RegServer_Stop rs a =
     (if RegServer_GetAcceptor rs = None then a
      else case a of Listening as \<Rightarrow> Listening [AcceptErr closed_error] | Stopped b \<Rightarrow> Stopped b)"

inductive server_step ::
  "('h, hval, 'b, 's, 'z) serverlib_scheme \<Rightarrow> u32 \<Rightarrow>
   listener \<times> ('h, 'b) Registry \<times> ('s SessionHandler \<times> TcpConnection \<times> phase) list \<Rightarrow>
   listener \<times> ('h, 'b) Registry \<times> ('s SessionHandler \<times> TcpConnection \<times> phase) list \<Rightarrow> bool"
  for L version where
  accept: "NewInHandler L (Some reg) (Some c) = Inr (h, cnx) \<Longrightarrow>
     server_step L version (Listening (Accepted c # as), reg, ls) (Listening as, reg, ls @ [(h, cnx, Starting)])"
| refuse: "server_step L version (Listening (AcceptErr e # as), reg, ls) (Stopped (e \<noteq> closed_error), reg, ls)"
| stop: "server_step L version (a, reg, ls) (RegServer_Stop (rs :: ('h, 'b) RegServer) a, reg, ls)"
| turn: "n < length ls \<Longrightarrow> conn_step L version () reg (ls ! n) = Ret (reg', l) \<Longrightarrow>
     server_step L version (a, reg, ls) (a, reg', ls[n := l])"

inductive_cases server_step_elim: "server_step L version s t"

inductive server_reaches ::
  "('h, hval, 'b, 's, 'z) serverlib_scheme \<Rightarrow> u32 \<Rightarrow>
   listener \<times> ('h, 'b) Registry \<times> ('s SessionHandler \<times> TcpConnection \<times> phase) list \<Rightarrow>
   listener \<times> ('h, 'b) Registry \<times> ('s SessionHandler \<times> TcpConnection \<times> phase) list \<Rightarrow> bool"
  for L version where
  refl: "server_reaches L version s s"
| step: "server_reaches L version s t \<Longrightarrow> server_step L version t u \<Longrightarrow> server_reaches L version s u"

section \<open>A connection is a session of the shared registry\<close>

definition conn_inv ::
  "('h, hval, 'b, 's, 'z) serverlib_scheme \<Rightarrow> ('h, 'b) Registry \<Rightarrow> 's SessionHandler \<times> TcpConnection \<times> phase \<Rightarrow> bool" where
  "conn_inv L reg l = (case l of (h, cnx, ph) \<Rightarrow> sess_inv L reg h \<and> (case ph of Ended _ \<Rightarrow> cx_closed cnx | _ \<Rightarrow> True))"

lemma handleHello_sess_inv:
  "handleHello L v rn h cnx = (h', cnx', e) \<Longrightarrow> sess_inv L r h \<Longrightarrow> sess_inv L r h'"
  by (auto simp: handleHello_def sess_inv_def sess_refs_def Let_def split: prod.splits option.splits sum.splits)

lemma loop_turn_keeps:
  assumes "libs_ok L" and "srv_inv L r" and "sess_inv L r h" and "loop_turn L r h cnx = Ret (s, k, cnx', e)"
  shows "srv_inv L s \<and> sess_inv L s k \<and> reg_le L r s"
proof -
  obtain data err cnx1 where rd: "ReadData cnx = (data, err, cnx1)" by (metis prod_cases3)
  note run = assms(4) [unfolded loop_turn_def rd prod.case]
  show ?thesis
  proof (cases "err = None \<and> (\<exists>msg. DecryptUnpadDecode L (ih_Session h) (slice_of data) = Inr msg)")
    case False
    then have "s = r \<and> k = h" using run by (auto split: option.splits sum.splits)
    with assms(2,3) show ?thesis by simp
  next
    case True
    then obtain msg where m: "err = None" "DecryptUnpadDecode L (ih_Session h) (slice_of data) = Inr msg" by blast
    then obtain r1 h1 where hm: "handle_message L msg r h = Ret (r1, h1)"
      using run by (cases "handle_message L msg r h") auto
    obtain h2 cnx2 err2 where sr: "send_reply L h1 cnx1 = (h2, cnx2, err2)" by (metis prod_cases3)
    obtain w where h2: "h2 = h1\<lparr>ih_Session := w\<rparr>" using sr by (rule send_reply_handler)
    have "message_turn L msg r h = Ret (r1, h1\<lparr>ih_entryState := ih_exitState h1\<rparr>)"
      by (simp add: message_turn_def hm)
    from message_turn_keeps [OF assms(1-3) this] show ?thesis
      using run m hm sr by (auto simp: Let_def h2 sess_inv_def sess_refs_def)
  qed
qed

lemma conn_step_keeps:
  assumes "libs_ok L" and "srv_inv L r" and "conn_inv L r l" and "conn_step L version u r l = Ret (s, k)"
  shows "srv_inv L s \<and> conn_inv L s k \<and> reg_le L r s"
proof -
  obtain h cnx ph where l: "l = (h, cnx, ph)" by (metis prod_cases3)
  with assms(3) have h: "sess_inv L r h" by (simp add: conn_inv_def)
  show ?thesis
  proof (cases ph)
    case Starting
    obtain h' cnx' e where hh: "handleHello L version (reg_RegNode r) h cnx = (h', cnx', e)" by (metis prod_cases3)
    with handleHello_sess_inv [OF hh h] assms(2,4) Starting show ?thesis
      by (auto simp: conn_step_def l conn_inv_def Cnx_Close_def split: option.splits)
  next
    case Looping
    then obtain s' k' cnx' e where t: "loop_turn L r h cnx = Ret (s', k', cnx', e)"
      using assms(4) by (auto simp: conn_step_def l obind_Ret_iff)
    with loop_turn_keeps [OF assms(1,2) h t] assms(4) Looping show ?thesis
      by (auto simp: conn_step_def l conn_inv_def Cnx_Close_def split: option.splits)
  next
    case (Ended err)
    with assms(2-4) l show ?thesis by (auto simp: conn_step_def)
  qed
qed

definition fresh_conn :: "('h, 'v, 'b, 's, 'z) serverlib_scheme \<Rightarrow> 's SessionHandler \<times> TcpConnection \<times> phase \<Rightarrow> bool" where
  "fresh_conn L l \<longleftrightarrow> (\<exists>cnx. l = (new_handler L, cnx, Starting))"

interpretation server: shared_service "conn_step L version" "fresh_conn L"
    "\<lambda>reg. libs_ok L \<and> srv_inv L reg" "conn_inv L" "reg_le L"
  for L :: "('h, hval, 'b, 's, 'z) serverlib_scheme" and version
proof
  fix g g' g'' :: "('h, 'b) Registry" and l l' :: "'s SessionHandler \<times> TcpConnection \<times> phase" and i
  show "libs_ok L \<and> srv_inv L g \<Longrightarrow> conn_inv L g l \<Longrightarrow> conn_step L version i g l = Ret (g', l') \<Longrightarrow>
      (libs_ok L \<and> srv_inv L g') \<and> conn_inv L g' l' \<and> reg_le L g g'"
    using conn_step_keeps by blast
  show "libs_ok L \<and> srv_inv L g \<Longrightarrow> fresh_conn L l \<Longrightarrow> conn_inv L g l"
    by (auto simp: fresh_conn_def conn_inv_def sess_inv_def sess_refs_def new_handler_def)
  show "reg_le L g g' \<Longrightarrow> conn_inv L g l \<Longrightarrow> conn_inv L g' l"
    using sess_refs_mono by (auto simp: conn_inv_def sess_inv_def)
  show "reg_le L g g" by simp
  show "reg_le L g g' \<Longrightarrow> reg_le L g' g'' \<Longrightarrow> reg_le L g g''" by (rule reg_le_trans)
qed

text \<open>The server's steps are interleaved steps of its connections.\<close>

lemma NewInHandler_fresh: "NewInHandler L (Some reg) (Some c) = Inr (h, cnx) \<longleftrightarrow> h = new_handler L \<and> cnx = c"
  by (auto simp: NewInHandler_def NewCnxHandler_def)

definition accepts_left :: "listener \<Rightarrow> nat" where
  "accepts_left a = (case a of Listening as \<Rightarrow> length (takeWhile (\<lambda>x. \<forall>e. x \<noteq> AcceptErr e) as) | Stopped _ \<Rightarrow> 0)"

lemma server_reaches_interleaved:
  assumes "server_reaches L version (a0, g0, ls0) (a, g, ls)"
  shows "interleaved (conn_step L version) (fresh_conn L) (g0, ls0) (g, ls)
     \<and> length ls + accepts_left a \<le> length ls0 + accepts_left a0"
  using assms
proof (induction "(a0, g0, ls0)" "(a, g, ls)" arbitrary: a g ls rule: server_reaches.induct)
  case refl
  show ?case by (simp add: interleaved.start)
next
  case (step t)
  obtain b f ks where t: "t = (b, f, ks)" by (metis prod_cases3)
  have IH: "interleaved (conn_step L version) (fresh_conn L) (g0, ls0) (f, ks)"
    "length ks + accepts_left b \<le> length ls0 + accepts_left a0" using step.hyps(2) [OF t] by auto
  from step.hyps(3) [unfolded t] show ?case
  proof (cases rule: server_step.cases)
    case (accept c h cnx as)
    then have "fresh_conn L (h, cnx, Starting)" by (auto simp: fresh_conn_def NewInHandler_fresh)
    from interleaved.opens [OF IH(1) this] IH(2) accept show ?thesis by (simp add: accepts_left_def)
  next
    case (refuse e as)
    with IH show ?thesis by (simp add: accepts_left_def)
  next
    case (stop rs)
    then have "accepts_left a \<le> accepts_left b"
      by (auto simp: RegServer_Stop_def accepts_left_def split: listener.splits)
    with IH stop show ?thesis by simp
  next
    case (turn n l)
    from interleaved.turn [OF IH(1) turn(3,4)] IH(2) show ?thesis by (simp add: turn)
  qed
qed

section \<open>A connection alone\<close>

text \<open>The turns of one connection with no other in between.\<close>

fun conn_iter ::
  "('h, hval, 'b, 's, 'z) serverlib_scheme \<Rightarrow> u32 \<Rightarrow> nat \<Rightarrow> ('h, 'b) Registry \<Rightarrow> 's SessionHandler \<times> TcpConnection \<times> phase \<Rightarrow>
   (('h, 'b) Registry \<times> 's SessionHandler \<times> TcpConnection \<times> phase) outcome" where
  "conn_iter L version 0 reg l = Ret (reg, l)"
| "conn_iter L version (Suc n) reg l = obind (conn_step L version () reg l) (\<lambda>(reg, l). conn_iter L version n reg l)"

lemma conn_iter_Ended [simp]: "conn_iter L version n reg (h, cnx, Ended err) = Ret (reg, h, cnx, Ended err)"
  by (induction n) (simp_all add: conn_step_def)

lemma loop_turn_shrinks:
  assumes "loop_turn L reg h cnx = Ret (s, k, cnx', None)"
  shows "input_size cnx' < input_size cnx"
proof -
  obtain data err cnx1 where rd: "ReadData cnx = (data, err, cnx1)" by (metis prod_cases3)
  note run = assms [unfolded loop_turn_def rd prod.case]
  from run have n: "err = None" by (cases err) auto
  from run n obtain msg where d: "DecryptUnpadDecode L (ih_Session h) (slice_of data) = Inr msg"
    by (cases "DecryptUnpadDecode L (ih_Session h) (slice_of data)") auto
  from run n d obtain r1 h1 where hm: "handle_message L msg reg h = Ret (r1, h1)"
    by (cases "handle_message L msg reg h") auto
  obtain h2 cnx2 err2 where sr: "send_reply L h1 cnx1 = (h2, cnx2, err2)" by (metis prod_cases3)
  have "cnx' = cnx2" using run n d hm sr by (simp add: Let_def)
  with send_reply_input [OF sr] ReadData_shrinks [OF rd [unfolded n]] show ?thesis by simp
qed

lemma start_loop_turn:
  "of_loop (start_loop L reg h cnx) = obind (loop_turn L reg h cnx)
     (\<lambda>(reg, h, cnx, r). case r of Some err \<Rightarrow> Ret (reg, h, cnx, err) | None \<Rightarrow> of_loop (start_loop L reg h cnx))"
  by (subst start_loop.simps)
    (auto simp: loop_turn_def Let_def split: prod.splits option.splits sum.splits outcome.splits)

lemma conn_iter_loop:
  "input_size cnx < n \<Longrightarrow> conn_iter L version n reg (h, cnx, Looping) =
     obind (of_loop (start_loop L reg h cnx)) (\<lambda>(s, k, c, err). Ret (s, k, Cnx_Close c, Ended err))"
proof (induction n arbitrary: reg h cnx)
  case (Suc n)
  show ?case
  proof (cases "loop_turn L reg h cnx")
    case (Ret x)
    obtain s k c r where x: "x = (s, k, c, r)" by (metis prod_cases4)
    show ?thesis
    proof (cases r)
      case None
      with Suc.prems loop_turn_shrinks [of L reg h cnx s k c] Ret x have "input_size c < n" by simp
      from Suc.IH [OF this, of s k] show ?thesis
        by (simp add: conn_step_def Ret x None start_loop_turn [of L reg h cnx])
    qed (simp add: conn_step_def Ret x start_loop_turn [of L reg h cnx])
  qed (simp_all add: conn_step_def start_loop_turn [of L reg h cnx])
qed simp

lemma handleHello_input:
  assumes "handleHello L v rn h cnx = (h', cnx', None)"
  shows "input_size cnx' \<le> input_size cnx"
proof -
  obtain data err cnx1 where rd: "ReadData cnx = (data, err, cnx1)" by (metis prod_cases3)
  have w: "WriteData b cnx1 = (e, c) \<Longrightarrow> input_size c = input_size cnx1" for b e c
    by (auto simp: WriteData_def Cnx_Write_def input_size_def split: list.splits option.splits)
  from assms rd have n: "err = None" by (cases err) (auto simp: handleHello_def)
  have "input_size cnx' = input_size cnx1"
    using assms rd n w by (auto simp: handleHello_def Let_def split: sum.splits prod.splits option.splits)
  with ReadData_shrinks [OF rd [unfolded n]] show ?thesis by simp
qed

section \<open>The registry when it is new\<close>

definition own_id :: "('h, 'b) Registry \<Rightarrow> nodeID" where
  "own_id reg = bn_id (rn_BaseNode (reg_RegNode reg))"

lemma insert_own_id_result:
  "insert_own_id L rn reg f = (Some s, err, f') \<longleftrightarrow>
     InsertID L (bn_id (rn_BaseNode rn)) reg = (s, err) \<and> f' = f"
  by (auto simp: insert_own_id_def split: prod.splits)

lemma NewRegistry_made:
  assumes "NewRegistry L heap d cs rn opt = Ret (Some reg, None, f)"
  obtains n reg0 where "rn = Some n" and "InsertID L (bn_id (rn_BaseNode n)) reg0 = (reg, None)"
    and "reg_RegNode reg0 = n" and "reg_heap reg0 = heap" and "reg_Clusters reg0 = cs"
    and "reg_ClustersByName reg0 = Map.empty"
    and "NewHAMT L (ha_MAX_W L) (opt_T opt) = Inr (reg_ClustersByID reg0)"
    and "reg_GlobalEndPoint reg0 = opt_GlobalEndPoint opt"
  using assms
  by (auto simp: NewRegistry_def Let_def insert_own_id_result split: sum.splits option.splits if_splits)

lemma NewRegistry_wf:
  assumes "libs_ok L" and "NewRegistry L [] d [] rn opt = Ret (Some reg, None, f)"
  shows "srv_inv L reg \<and> known L reg (Value (own_id reg)) \<and> reg_Clusters reg = []
     \<and> reg_GlobalEndPoint reg = opt_GlobalEndPoint opt"
proof -
  obtain n reg0 where *: "InsertID L (bn_id (rn_BaseNode n)) reg0 = (reg, None)"
      "reg_RegNode reg0 = n" "reg_heap reg0 = []" "reg_Clusters reg0 = []"
      "reg_ClustersByName reg0 = Map.empty"
      "NewHAMT L (ha_MAX_W L) (opt_T opt) = Inr (reg_ClustersByID reg0)"
      "reg_GlobalEndPoint reg0 = opt_GlobalEndPoint opt"
    using assms(2) by (rule NewRegistry_made)
  have lib: "hamt_ok L" "bloom_ok L" using assms(1) by (simp_all add: libs_ok_def)
  have inv: "srv_inv L reg0"
    using * hamt_okD(1) [OF lib(1)]
    by (simp add: srv_inv_def reg_inv_def reg_index_inv_def reg_names_inv_def reg_ids_inv_def)
  have "reg_RegNode reg = n \<and> reg_Clusters reg = [] \<and> reg_GlobalEndPoint reg = opt_GlobalEndPoint opt"
    using * by (auto simp: InsertID_def split: sum.splits if_splits)
  with InsertID_step [OF lib(2) inv *(1)] show ?thesis by (simp add: own_id_def)
qed

lemma server_run_keeps:
  assumes "libs_ok L" and "NewRegistry L [] d [] rn opt = Ret (Some reg, None, f)"
    and "server_reaches L version (Listening as, reg, []) (a, g, ls)"
  shows "srv_inv L g \<and> reg_le L reg g \<and> known L g (Value (own_id reg)) \<and> (\<forall>l \<in> set ls. conn_inv L g l)
     \<and> length ls \<le> accepts_left (Listening as)"
proof -
  note w = NewRegistry_wf [OF assms(1,2)] and r = server_reaches_interleaved [OF assms(3)]
  have "(libs_ok L \<and> srv_inv L g) \<and> (\<forall>l \<in> set ls. conn_inv L g l) \<and> reg_le L reg g"
    using server.interleaved_safe [OF conjunct1 [OF r]] assms(1) w by simp
  with w r show ?thesis by (auto simp: reg_le_def)
qed

section \<open>The ephemeral server\<close>

record ('h, 'b) EphServer =
  es_acc :: Acceptor
  es_Server :: "('h, 'b) RegServer"

definition DEFAULT_M :: nat where "DEFAULT_M = 20"
definition DEFAULT_K :: nat where "DEFAULT_K = 8"

text \<open>
  The name and the bytes of the directory's name are random; \<open>d\<close> numbers the draws of the generator.
  The acceptor is open before the registry is made. The size of the root table of the trie is not
  set, so it is \<open>2 ^ 0\<close>.
\<close>

definition eph_options :: "EndPoint \<Rightarrow> EndPoint option \<Rightarrow> string \<Rightarrow> RegOptions" where
  "eph_options ep global lfs = \<lparr>opt_Address = [], opt_BackingFile = [], opt_ClearFilter = False,
     opt_EndPoint = Some ep, opt_Ephemeral = True, opt_GlobalEndPoint = global, opt_K = DEFAULT_K,
     opt_Lfs = lfs, opt_Logger = False, opt_M = DEFAULT_M, opt_Name = [], opt_Port = [],
     opt_Testing = False, opt_T = 0, opt_Verbose = False\<rparr>"

definition GetEndPoint :: "Node \<Rightarrow> EndPoint option" where
  "GetEndPoint n = (case nd_ends n of [] \<Rightarrow> None | e # _ \<Rightarrow> Some e)"

text \<open>
  The registry of a node, with no clusters so far. A node without an ID, which the library's
  constructors do not make, is dereferenced when its ID is registered.
\<close>

definition node_registry ::
  "('h, hval, 'b, 'z) reglib_scheme \<Rightarrow> nat \<Rightarrow> RegNodeFull \<Rightarrow> RegOptions \<Rightarrow>
   (('h, 'b) Registry option \<times> gerror option \<times> (string \<times> string \<times> string) option) outcome" where
  "node_registry L d rn opt =
     (case regnode_view rn of
        None \<Rightarrow> Panic NilDereference
      | Some v \<Rightarrow> NewRegistry L [] d [] (Some v) opt)"

definition eph_registry ::
  "('h, hval, 'b, 's, 'f, 'z) nodelib_scheme \<Rightarrow> nat \<Rightarrow> RegNodeFull \<Rightarrow> RegOptions \<Rightarrow>
   (gerror + ('h, 'b) EphServer) outcome" where
  "eph_registry L d rn opt =
     obind (node_registry L d rn opt) (\<lambda>(reg, err, f).
     case err of
       Some e \<Rightarrow> Ret (Inl e)
     | None \<Rightarrow>
     (case NewRegServer (map_option (\<lambda>r. (r, rn)) reg) True 1 of
        Inl e \<Rightarrow> Ret (Inl e)
      | Inr server \<Rightarrow>
     (case nd_acc (rnf_Node rn) of
        None \<Rightarrow> Panic NilDereference
      | Some acc \<Rightarrow> Ret (Inr \<lparr>es_acc = acc, es_Server = server\<rparr>))))"

definition NewEphServer ::
  "('h, hval, 'b, 's, 'f, 'z) nodelib_scheme \<Rightarrow> string \<Rightarrow> bytes \<Rightarrow> nat \<Rightarrow> (gerror + ('h, 'b) EphServer) outcome" where
  "NewEphServer L name idBuf d =
     (let lfs = ''tmp/'' @ EncodeToString idBuf in
      case xi_Random L d of
        Inl e \<Rightarrow> Ret (Inl (Ext e))
      | Inr i \<Rightarrow>
     (case GenerateKey L (d + 1) of
        Inl e \<Rightarrow> Ret (Inl (Ext e))
      | Inr ckPriv \<Rightarrow>
     (case GenerateKey L (d + 2) of
        Inl e \<Rightarrow> Ret (Inl (Ext e))
      | Inr skPriv \<Rightarrow>
     (case NewTcpEndPoint L ''127.0.0.1:0'' of
        Inl e \<Rightarrow> Ret (Inl (Ext e))
      | Inr ep \<Rightarrow>
     (case xn_New L name (Some i) lfs ckPriv skPriv [ep] of
        Inl e \<Rightarrow> Ret (Inl (Ext e))
      | Inr node \<Rightarrow>
     (case Node_OpenAcc L node of
        (node, Some e) \<Rightarrow> Ret (Inl (Ext e))
      | (node, None) \<Rightarrow>
     (case NewRegNode (Some node) ckPriv skPriv of
        Inl e \<Rightarrow> Ret (Inl e)
      | Inr rn \<Rightarrow> eph_registry L (d + 3) rn (eph_options ep (GetEndPoint node) lfs))))))))"

definition EphServer_Start ::
  "('h, 'v, 'b, 's, 'f, 'z) nodelib_scheme \<Rightarrow> accept list \<Rightarrow> ('h2, 'b2) EphServer \<Rightarrow>
   ('h2, 'b2) EphServer \<times> (gerror + listener)" where
  "EphServer_Start L as ms = (case RegServer_Start L as (es_Server ms) of (rs, r) \<Rightarrow> (ms\<lparr>es_Server := rs\<rparr>, r))"

definition EphServer_Stop :: "('h, 'b) EphServer \<Rightarrow> listener \<Rightarrow> listener" where
  "EphServer_Stop ms a = RegServer_Stop (es_Server ms) a"

lemma NewEphServer_made:
  assumes "NewEphServer L name idBuf d = Ret (Inr ms)"
  obtains reg rn rv opt f where "NewRegistry L [] (d + 3) [] rv opt = Ret (Some reg, None, f)"
    and "rs_Registry (es_Server ms) = (reg, rn)" and "nd_acc (rnf_Node rn) = Some (es_acc ms)"
  using assms
  by (auto simp: NewEphServer_def eph_registry_def node_registry_def NewRegServer_def Let_def obind_Ret_iff
      split: sum.splits option.splits prod.splits)

section \<open>Properties\<close>

text \<open>One connection at a time the goroutine is \<open>Start\<close>: taking the turns of a connection one by one,
  with no other in between, gives exactly what \<open>Start\<close> gives, a panic included, and no more turns
  are taken than two and the length of the connection's input.\<close>

theorem connection_is_Start:
  "conn_iter L version (input_size cnx + 2) reg (h, cnx, Starting) =
     obind (Start L version reg h cnx) (\<lambda>(reg, h, cnx, err). Ret (reg, h, cnx, Ended err))"
proof -
  obtain h' cnx' e where hh: "handleHello L version (reg_RegNode reg) h cnx = (h', cnx', e)" by (metis prod_cases3)
  show ?thesis
  proof (cases e)
    case None
    with hh have "input_size cnx' < Suc (input_size cnx)" using handleHello_input by (fastforce simp: less_Suc_eq_le)
    note loop = conn_iter_loop [OF this, of L version reg h']
    have "conn_iter L version (input_size cnx + 2) reg (h, cnx, Starting) =
        conn_iter L version (Suc (input_size cnx)) reg (h', cnx', Looping)"
      by (simp add: conn_step_def hh None del: conn_iter.simps(2) add: conn_iter.simps(2) [of _ _ "Suc (input_size cnx)"])
    then show ?thesis
      unfolding loop by (cases "of_loop (start_loop L reg h' cnx')") (auto simp: Start_def hh None)
  next
    case (Some x)
    with hh show ?thesis by (simp add: conn_step_def Start_def)
  qed
qed

text \<open>C11. A registry is well formed when it is made: with no clusters, all indexes empty, its own ID
  in the filter, and the global end point of the options.\<close>

theorem new_registry_wf:
  "libs_ok L \<Longrightarrow> NewRegistry L [] d [] rn opt = Ret (Some reg, None, f) \<Longrightarrow>
     srv_inv L reg \<and> known L reg (Value (own_id reg)) \<and> reg_Clusters reg = []
     \<and> reg_GlobalEndPoint reg = opt_GlobalEndPoint opt"
  by (rule NewRegistry_wf)

section \<open>Sample runs\<close>

text \<open>The libraries of the sample runs, with a version that parses.\<close>

definition ephlib :: "((bytes \<times> hval) list, hval, bytes list, u32, ref_files) nodelib" where
  "ephlib = (nlib [] no_cnx)\<lparr>ParseDecimalVersion := \<lambda>s. Inr 7\<rparr>"

lemma ephlib_libs [simp]: "libs_ok ephlib"
proof -
  have "hamt_ok ephlib" by (auto simp: ephlib_def hamt_ok_def valid_id_def fun_eq_iff split: if_splits)
  moreover have "nodeids_ok ephlib" by (auto simp: ephlib_def nodeids_ok_def valid_id_def)
  moreover have "bloom_ok ephlib" by (auto simp: ephlib_def bloom_ok_def)
  moreover have "basenodes_ok ephlib"
    by (auto simp: ephlib_def xlib_def clib_def serverlib.defs clientlib.defs nodelib.defs basenodes_ok_def
        split: option.splits if_splits)
  ultimately show ?thesis by (simp add: libs_ok_def)
qed

definition ref_ep :: EndPoint where "ref_ep = EndPoint ''10.0.0.1:44''"

lemma ref_new_registry:
  "\<exists>reg. NewRegistry ephlib [] 0 [] (Some ref_node) (eph_options ref_ep (Some ref_ep) []) = Ret (Some reg, None, None)
     \<and> own_id reg = NodeID (ref_id 3)"
  by (simp add: NewRegistry_def ephlib_def eph_options_def insert_own_id_def InsertID_def ref_node_def ref_bn_def own_id_def)

theorem new_registry_wf_witness:
  "\<exists>reg. NewRegistry ephlib [] 0 [] (Some ref_node) (eph_options ref_ep (Some ref_ep) []) = Ret (Some reg, None, None)
     \<and> srv_inv ephlib reg \<and> known ephlib reg (ref_id 3)"
proof -
  obtain reg where *: "NewRegistry ephlib [] 0 [] (Some ref_node) (eph_options ref_ep (Some ref_ep) []) = Ret (Some reg, None, None)"
    "own_id reg = NodeID (ref_id 3)" using ref_new_registry by blast
  with new_registry_wf [OF ephlib_libs *(1)] show ?thesis by auto
qed

lemma ref_eph_server: "\<exists>ms. NewEphServer ephlib ''eph'' [1] 0 = Ret (Inr ms)"
proof -
  have "field_value ''127.0.0.1:0''" by code_simp
  then show ?thesis
    by (simp add: NewEphServer_def NewRegistry_def eph_registry_def node_registry_def ephlib_def eph_options_def insert_own_id_def InsertID_def
        NewRegNode_def regnode_view_def ref_xnode_def GetEndPoint_def NewRegServer_def Let_def)
qed

end
