(* ===== verification/Overlap.thy ===== *)
theory Overlap
  imports RegServer Race
begin

text \<open>
  Sessions that overlap inside the handling of their messages. A handler does not hold the registry's
  lock while it runs: it takes it, or a cluster's, for a few look-ups and changes, and the filter of
  IDs is used without any. Here the goroutine of a connection goes through its handler one such section
  at a time, and the sections of all connections interleave in any order. A section is what the code
  does under one hold of a lock, or one call of the filter or of the generator, together with the
  computation on the session's own data that follows it.
\<close>

section \<open>The points of a handler\<close>

text \<open>The table of handlers, by name.\<close>

datatype handler = DoClient | DoCreate | DoJoin | DoGet | DoBye | BadCombo

definition handler_table :: "handler list list" where
  "handler_table =
     [[DoClient, BadCombo, BadCombo, BadCombo, DoBye],
      [BadCombo, DoCreate, DoJoin, BadCombo, DoBye],
      [BadCombo, BadCombo, DoJoin, BadCombo, DoBye],
      [BadCombo, BadCombo, BadCombo, DoGet, DoBye]]"

text \<open>
  Where a handler can be interrupted. \<open>InsertUniqueNodeID\<close> is called for a client and for a cluster.
  A client's own ID is looked up (\<open>ContainsID\<close>), checked again and entered (\<open>InsertID\<close>). A Create looks
  up the name and, in the end, calls \<open>AddCluster\<close>; a Join looks up the cluster and calls \<open>AddMember\<close>,
  which has three sections; a GetCluster looks up the cluster, takes its size and reads its members.
\<close>

datatype id_use = ForClient | ForCluster

datatype point =
    AtCall
  | AtLookup nodeID | AtCheck nodeID | AtFilter nodeID
  | AtDraw id_use | AtFresh id_use nodeID | AtReserve id_use nodeID
  | AtCreate | AtEnter nodeID
  | AtFind | AtAdd cref add_pc
  | AtGet | AtSize cref | AtMembers cref u32
  | Returned

section \<open>The sections\<close>

text \<open>What \<open>doClientMsg\<close> does before it looks at the filter, and after.\<close>

definition client_call ::
  "('h, hval, 'b, 'z) reglib_scheme \<Rightarrow> 'x InHandler_scheme \<Rightarrow> 'x InHandler_scheme \<times> point" where
  "client_call L h =
     (let clientSpecs = GetMemberSpecs (ih_msgIn h)
      in case client_keys L clientSpecs of
           Inl e \<Rightarrow> (h\<lparr>ih_errOut := Some e\<rparr>, Returned)
         | Inr _ \<Rightarrow>
             (case Token_GetID clientSpecs of
                None \<Rightarrow> (h, AtDraw ForClient)
              | Some b \<Rightarrow>
                  (case ext (xi_New L b) of
                     Inl e \<Rightarrow> (h\<lparr>ih_errOut := Some e\<rparr>, Returned)
                   | Inr n \<Rightarrow> (h, AtLookup n))))"

definition client_done ::
  "('h, hval, 'b, 'z) reglib_scheme \<Rightarrow> nodeID \<Rightarrow> gerror option \<Rightarrow> 'x InHandler_scheme \<Rightarrow> 'x InHandler_scheme" where
  "client_done L n err h =
     (let clientSpecs = GetMemberSpecs (ih_msgIn h); attrs = Token_GetAttrs clientSpecs
      in if err = None \<or> err = Some IDAlreadyInUse then
           (case client_keys L clientSpecs of
              Inl e \<Rightarrow> h\<lparr>ih_errOut := Some e\<rparr>
            | Inr (ck, sk) \<Rightarrow>
                (case NewClientInfo L (Token_GetName clientSpecs) (Some n) (Some ck) (Some sk) attrs (Token_GetMyEnds clientSpecs) of
                   Inl e \<Rightarrow> h\<lparr>ih_errOut := Some e\<rparr>
                 | Inr cm \<Rightarrow> h\<lparr>ih_thisClient := Some cm,
                      ih_msgOut := Some (zeroMsg\<lparr>msg_Op := Some XLRegMsg_MemberOK, msg_MemberID := Some (Value n),
                        msg_MemberAttrs := Some attrs\<rparr>),
                      ih_exitState := CLIENT_DETAILS_RCVD, ih_errOut := None\<rparr>))
         else h\<lparr>ih_errOut := err\<rparr>)"

text \<open>What follows \<open>InsertUniqueNodeID\<close>: the client is made, or the cluster, before it is entered.\<close>

definition id_done ::
  "('h, hval, 'b, 'z) reglib_scheme \<Rightarrow> ('h, 'b) Registry \<Rightarrow> 'x InHandler_scheme \<Rightarrow> id_use \<Rightarrow> nodeID \<Rightarrow> gerror option \<Rightarrow>
   ('h, 'b) Registry \<times> 'x InHandler_scheme \<times> point" where
  "id_done L reg h u n err =
     (case u of
        ForClient \<Rightarrow> (reg, client_done L n err h, Returned)
      | ForCluster \<Rightarrow>
          (case err of
             Some e \<Rightarrow> (reg, h\<lparr>ih_errOut := Some e\<rparr>, Returned)
           | None \<Rightarrow>
               (case NewRegCluster L (GetClusterName (ih_msgIn h)) n 0 (clamp_size (GetClusterMaxSize (ih_msgIn h)))
                       (GetEndPointCount (ih_msgIn h)) of
                  Inl e \<Rightarrow> (reg, h\<lparr>ih_errOut := Some e\<rparr>, Returned)
                | Inr rc \<Rightarrow> (case new_cluster rc reg of (c, reg) \<Rightarrow> (reg, h\<lparr>ih_cluster := Some c\<rparr>, AtEnter n)))))"

definition join_done :: "cref \<Rightarrow> 'h RegCluster \<Rightarrow> gerror option \<Rightarrow> 'x InHandler_scheme \<Rightarrow> 'x InHandler_scheme" where
  "join_done c rc err h =
     (case err of
        Some e \<Rightarrow> h\<lparr>ih_errOut := Some e\<rparr>
      | None \<Rightarrow> h\<lparr>ih_cluster := Some c, ih_msgOut := Some (join_reply rc), ih_exitState := JOIN_RCVD, ih_errOut := None\<rparr>)"

text \<open>The reply to a GetCluster, from the size taken before.\<close>

definition get_done ::
  "('h, hval, 'z) hamtlib_scheme \<Rightarrow> ClientInfo list \<Rightarrow> u32 \<Rightarrow> 'x InHandler_scheme \<Rightarrow> 'x InHandler_scheme" where
  "get_done L members count h =
     (let getMsg = ih_msgIn h;
          whichToSend = bm_Intersection L (GetWhich getMsg) (bm_LowNMap L (unat count))
      in case get_loop L members whichToSend [0..<unat count] None 0 of (tokens, whichReturned) \<Rightarrow>
           h\<lparr>ih_msgOut := Some (zeroMsg\<lparr>msg_Op := Some XLRegMsg_ClusterMembers, msg_ClusterID := GetClusterID getMsg,
                msg_Which := Some whichReturned, msg_Tokens := tokens\<rparr>),
             ih_exitState := JOIN_RCVD, ih_errOut := None\<rparr>)"

text \<open>The call: the table is indexed with the state and the tag, and the handler runs to its first section.\<close>

definition call_handler ::
  "('h, hval, 'b, 'z) reglib_scheme \<Rightarrow> ('h, 'b) Registry \<Rightarrow> 'x InHandler_scheme \<Rightarrow>
   (('h, 'b) Registry \<times> 'x InHandler_scheme \<times> point) outcome" where
  "call_handler L reg h =
     (let tag = op2tag (GetOp (ih_msgIn h));
          h = (if tag < MIN_TAG \<or> tag > MAX_TAG then h\<lparr>ih_errOut := Some TagOutOfRange\<rparr> else h)
      in case index2 handler_table (ih_entryState h) tag of
           None \<Rightarrow> Panic IndexOutOfRange
         | Some DoClient \<Rightarrow> Ret (reg, client_call L h)
         | Some DoCreate \<Rightarrow> Ret (reg, h, AtCreate)
         | Some DoJoin \<Rightarrow> if ih_thisClient h = None then Panic NilDereference else Ret (reg, h, AtFind)
         | Some DoGet \<Rightarrow> Ret (reg, h, AtGet)
         | Some DoBye \<Rightarrow> obind (doByeMsg reg h) (\<lambda>(reg, h). Ret (reg, h, Returned))
         | Some BadCombo \<Rightarrow> obind (badCombo reg h) (\<lambda>(reg, h). Ret (reg, h, Returned)))"

fun handler_step ::
  "('h, hval, 'b, 'z) reglib_scheme \<Rightarrow> ('h, 'b) Registry \<Rightarrow> 'x InHandler_scheme \<Rightarrow> point \<Rightarrow>
   (('h, 'b) Registry \<times> 'x InHandler_scheme \<times> point) outcome" where
  "handler_step L reg h AtCall = call_handler L reg h"
| "handler_step L reg h (AtLookup n) =
     (case ContainsID L n reg of
        Inl e \<Rightarrow> Ret (reg, client_done L n (Some e) h, Returned)
      | Inr found \<Rightarrow> if found then Ret (reg, client_done L n None h, Returned) else Ret (reg, h, AtCheck n))"
| "handler_step L reg h (AtCheck n) =
     (case bf_IsMember L (reg_idFilter reg) (Value n) of
        Inl e \<Rightarrow> Ret (reg, client_done L n (Some (Ext e)) h, Returned)
      | Inr found \<Rightarrow> if found then Ret (reg, client_done L n (Some IDAlreadyInUse) h, Returned) else Ret (reg, h, AtFilter n))"
| "handler_step L reg h (AtFilter n) =
     (case bf_Insert L (reg_idFilter reg) (Value n) of
        Inl e \<Rightarrow> Ret (reg, client_done L n (Some (Ext e)) h, Returned)
      | Inr f \<Rightarrow> Ret (reg\<lparr>reg_idFilter := f\<rparr>, client_done L n None h, Returned))"
| "handler_step L reg h (AtDraw u) =
     (case xi_Random L (reg_draws reg) of
        Inl e \<Rightarrow> Panic NilDereference
      | Inr n \<Rightarrow> Ret (reg\<lparr>reg_draws := Suc (reg_draws reg)\<rparr>, h, AtFresh u n))"
| "handler_step L reg h (AtFresh u n) =
     (case ContainsID L n reg of
        Inl e \<Rightarrow> Ret (id_done L reg h u n (Some e))
      | Inr found \<Rightarrow> if found then Ret (reg, h, AtDraw u) else Ret (reg, h, AtReserve u n))"
| "handler_step L reg h (AtReserve u n) =
     (case bf_Insert L (reg_idFilter reg) (Value n) of
        Inl e \<Rightarrow> Ret (id_done L reg h u n (Some (Ext e)))
      | Inr f \<Rightarrow> Ret (id_done L (reg\<lparr>reg_idFilter := f\<rparr>) h u n None))"
| "handler_step L reg h AtCreate =
     (case reg_ClustersByName reg (GetClusterName (ih_msgIn h)) of
        Some c \<Rightarrow> obind (create_existing L c reg h) (\<lambda>(reg, h). Ret (reg, h, Returned))
      | None \<Rightarrow> Ret (reg, h, AtDraw ForCluster))"
| "handler_step L reg h (AtEnter n) =
     obind (AddCluster L (ih_cluster h) reg) (\<lambda>(reg, index, err).
     case err of
       Some e \<Rightarrow> Ret (reg, h\<lparr>ih_errOut := Some e\<rparr>, Returned)
     | None \<Rightarrow>
         Ret (reg, h\<lparr>ih_msgOut := Some (create_reply (Value n) (clamp_size (GetClusterMaxSize (ih_msgIn h)))
                        (GetClusterAttrs (ih_msgIn h)) (GetEndPointCount (ih_msgIn h))),
                     ih_exitState := CREATE_REQUEST_RCVD, ih_errOut := None\<rparr>, Returned))"
| "handler_step L reg h AtFind =
     obind (join_cluster L reg h (GetClusterName (ih_msgIn h)) (GetClusterID (ih_msgIn h))) (\<lambda>(cluster, err).
     case cluster of
       None \<Rightarrow> Panic NilDereference
     | Some c \<Rightarrow>
         (case err of
            Some e \<Rightarrow> Ret (reg, h\<lparr>ih_errOut := Some e\<rparr>, Returned)
          | None \<Rightarrow> Ret (reg, h, AtAdd c AtName)))"
| "handler_step L reg h (AtAdd c pc) =
     (case ih_thisClient h of
        None \<Rightarrow> Panic NilDereference
      | Some thisClient \<Rightarrow>
          obind (add_step L () (get_cluster reg c) (thisClient, pc)) (\<lambda>(rc, m, pc).
          let reg = put_cluster c rc reg
          in case pc of
               Finished err \<Rightarrow> Ret (reg, join_done c rc err h, Returned)
             | _ \<Rightarrow> Ret (reg, h, AtAdd c pc)))"
| "handler_step L reg h AtGet =
     (let clusterID = GetClusterID (ih_msgIn h)
      in case NewBytesKey L (slice_of clusterID) of
           (bKey, Some e) \<Rightarrow> Ret (reg, h\<lparr>ih_errOut := Some (Ext e)\<rparr>, Returned)
         | (bKey, None) \<Rightarrow>
             (case ha_Find L (reg_ClustersByID reg) bKey of
                (None, err) \<Rightarrow>
                  Ret (reg, h\<lparr>ih_errOut := Some (ErrNew (''doGetMsg: can'' @ [CHR 0x27] @ ''t find cluster with ID ''
                                @ EncodeToString (slice_of clusterID)))\<rparr>, Returned)
              | (Some (HClient _), err) \<Rightarrow> Panic BadTypeAssertion
              | (Some (HCluster c), Some e) \<Rightarrow> Ret (reg, h\<lparr>ih_errOut := Some (Ext e)\<rparr>, Returned)
              | (Some (HCluster c), None) \<Rightarrow> Ret (reg, h, AtSize c)))"
| "handler_step L reg h (AtSize c) =
     (let count = rc_Size (get_cluster reg c)
      in Ret (reg, h, AtMembers c (if count > MAX_CLUSTER_SIZE then MAX_CLUSTER_SIZE else count)))"
| "handler_step L reg h (AtMembers c count) =
     Ret (reg, get_done L (rc_Members (get_cluster reg c)) count h, Returned)"
| "handler_step L reg h Returned = Ret (reg, h, Returned)"

section \<open>The goroutine of a connection\<close>

datatype stage = Greeting | Reading | Handling point | Closed "gerror option"

text \<open>
  The hello, then the message loop: read and decode a message, handle it section by section, and reply.
  The connection is closed when the goroutine ends.
\<close>

definition respond ::
  "('h, 'v, 'b, 's, 'z) serverlib_scheme \<Rightarrow> 's SessionHandler \<Rightarrow> TcpConnection \<Rightarrow> 's SessionHandler \<times> TcpConnection \<times> stage" where
  "respond L h cnx =
     (case send_reply L (error_reply h) cnx of (h, cnx, err) \<Rightarrow>
        let h = h\<lparr>ih_entryState := ih_exitState h\<rparr>
        in if ih_exitState h = IN_CLOSED then (h, Cnx_Close cnx, Closed err) else (h, cnx, Reading))"

definition goroutine_step ::
  "('h, hval, 'b, 's, 'z) serverlib_scheme \<Rightarrow> u32 \<Rightarrow> unit \<Rightarrow> ('h, 'b) Registry \<Rightarrow> 's SessionHandler \<times> TcpConnection \<times> stage \<Rightarrow>
   (('h, 'b) Registry \<times> 's SessionHandler \<times> TcpConnection \<times> stage) outcome" where
  "goroutine_step L version u reg l =
     (case l of
        (h, cnx, Greeting) \<Rightarrow>
          (case handleHello L version (reg_RegNode reg) h cnx of
             (h, cnx, Some e) \<Rightarrow> Ret (reg, h, Cnx_Close cnx, Closed (Some e))
           | (h, cnx, None) \<Rightarrow> Ret (reg, h, cnx, Reading))
      | (h, cnx, Reading) \<Rightarrow>
          (case ReadData cnx of
             (data, Some e, cnx) \<Rightarrow> Ret (reg, h, Cnx_Close cnx, Closed (Some e))
           | (data, None, cnx) \<Rightarrow>
               (case DecryptUnpadDecode L (ih_Session h) (slice_of data) of
                  Inl e \<Rightarrow> Ret (reg, h, Cnx_Close cnx, Closed (Some e))
                | Inr msg \<Rightarrow> Ret (reg, h\<lparr>ih_msgIn := Some msg\<rparr>, cnx, Handling AtCall)))
      | (h, cnx, Handling Returned) \<Rightarrow> Ret (reg, respond L h cnx)
      | (h, cnx, Handling pc) \<Rightarrow> obind (handler_step L reg h pc) (\<lambda>(reg, h, pc). Ret (reg, h, cnx, Handling pc))
      | (h, cnx, Closed err) \<Rightarrow> Ret (reg, l))"

text \<open>The server: its accept loop, \<open>Stop\<close>, and the sections of the goroutines, in any order.\<close>

inductive overlap_step ::
  "('h, hval, 'b, 's, 'z) serverlib_scheme \<Rightarrow> u32 \<Rightarrow>
   listener \<times> ('h, 'b) Registry \<times> ('s SessionHandler \<times> TcpConnection \<times> stage) list \<Rightarrow>
   listener \<times> ('h, 'b) Registry \<times> ('s SessionHandler \<times> TcpConnection \<times> stage) list \<Rightarrow> bool"
  for L version where
  accept: "NewInHandler L (Some reg) (Some c) = Inr (h, cnx) \<Longrightarrow>
     overlap_step L version (Listening (Accepted c # as), reg, ls) (Listening as, reg, ls @ [(h, cnx, Greeting)])"
| refuse: "overlap_step L version (Listening (AcceptErr e # as), reg, ls) (Stopped (e \<noteq> closed_error), reg, ls)"
| stop: "overlap_step L version (a, reg, ls) (RegServer_Stop (rs :: ('h, 'b) RegServer) a, reg, ls)"
| turn: "n < length ls \<Longrightarrow> goroutine_step L version () reg (ls ! n) = Ret (reg', l) \<Longrightarrow>
     overlap_step L version (a, reg, ls) (a, reg', ls[n := l])"

inductive_cases overlap_step_elim: "overlap_step L version s t"

inductive overlap_reaches ::
  "('h, hval, 'b, 's, 'z) serverlib_scheme \<Rightarrow> u32 \<Rightarrow>
   listener \<times> ('h, 'b) Registry \<times> ('s SessionHandler \<times> TcpConnection \<times> stage) list \<Rightarrow>
   listener \<times> ('h, 'b) Registry \<times> ('s SessionHandler \<times> TcpConnection \<times> stage) list \<Rightarrow> bool"
  for L version where
  start: "overlap_reaches L version s s"
| step: "overlap_reaches L version s t \<Longrightarrow> overlap_step L version t u \<Longrightarrow> overlap_reaches L version s u"

section \<open>What no interleaving of the sections breaks\<close>

text \<open>
  The registry when messages overlap: the index of cluster names is one to one, that of the cluster
  IDs points to the right clusters, and every cluster has a registered ID, an index that covers the
  names of its members and has no others, an index of IDs that points to members, and members whose
  IDs are registered. It is weaker than \<open>srv_inv\<close>: the names of the members of a cluster need not be
  different.
\<close>

definition cluster_ok :: "('h, hval, 'b, 'z) reglib_scheme \<Rightarrow> ('h, 'b) Registry \<Rightarrow> 'h RegCluster \<Rightarrow> bool" where
  "cluster_ok L reg rc \<longleftrightarrow> names_cover rc \<and> ids_inv L rc \<and> rc_ID rc \<noteq> None \<and> cluster_known L reg rc"

definition loose_inv :: "('h, hval, 'b, 'z) reglib_scheme \<Rightarrow> ('h, 'b) Registry \<Rightarrow> bool" where
  "loose_inv L reg \<longleftrightarrow> reg_index_inv L reg \<and> (\<forall>c \<in> set (reg_Clusters reg). c < length (reg_heap reg))
     \<and> (\<forall>rc \<in> set (reg_heap reg). cluster_ok L reg rc)"

text \<open>A session that has joined is a member of its cluster.\<close>

definition has_joined :: "('h, 'b) Registry \<Rightarrow> 'x InHandler_scheme \<Rightarrow> bool" where
  "has_joined reg h \<longleftrightarrow> (\<exists>c m. ih_cluster h = Some c \<and> c < length (reg_heap reg) \<and> ih_thisClient h = Some m
     \<and> m \<in> set (rc_Members (get_cluster reg c)))"

definition state_ok :: "('h, 'b) Registry \<Rightarrow> 'x InHandler_scheme \<Rightarrow> nat \<Rightarrow> bool" where
  "state_ok reg h st \<longleftrightarrow> st \<le> IN_CLOSED \<and> (CLIENT_DETAILS_RCVD \<le> st \<and> st \<le> JOIN_RCVD \<longrightarrow> ih_thisClient h \<noteq> None)
     \<and> (st = JOIN_RCVD \<longrightarrow> has_joined reg h)"

fun use_ok :: "id_use \<Rightarrow> nat \<Rightarrow> bool" where
  "use_ok ForClient st \<longleftrightarrow> st = HELLO_RCVD"
| "use_ok ForCluster st \<longleftrightarrow> st = CLIENT_DETAILS_RCVD"

fun point_ok :: "('h, 'b) Registry \<Rightarrow> 'x InHandler_scheme \<Rightarrow> point \<Rightarrow> bool" where
  "point_ok reg h AtCall \<longleftrightarrow> True"
| "point_ok reg h (AtLookup n) \<longleftrightarrow> ih_entryState h = HELLO_RCVD"
| "point_ok reg h (AtCheck n) \<longleftrightarrow> ih_entryState h = HELLO_RCVD"
| "point_ok reg h (AtFilter n) \<longleftrightarrow> ih_entryState h = HELLO_RCVD"
| "point_ok reg h (AtDraw u) \<longleftrightarrow> use_ok u (ih_entryState h)"
| "point_ok reg h (AtFresh u n) \<longleftrightarrow> use_ok u (ih_entryState h) \<and> valid_id (Value n)"
| "point_ok reg h (AtReserve u n) \<longleftrightarrow> use_ok u (ih_entryState h) \<and> valid_id (Value n)"
| "point_ok reg h AtCreate \<longleftrightarrow> ih_entryState h = CLIENT_DETAILS_RCVD"
| "point_ok reg h (AtEnter n) \<longleftrightarrow> ih_entryState h = CLIENT_DETAILS_RCVD \<and> ih_cluster h \<noteq> None"
| "point_ok reg h AtFind \<longleftrightarrow> ih_entryState h = CLIENT_DETAILS_RCVD \<or> ih_entryState h = CREATE_REQUEST_RCVD"
| "point_ok reg h (AtAdd c pc) \<longleftrightarrow> (ih_entryState h = CLIENT_DETAILS_RCVD \<or> ih_entryState h = CREATE_REQUEST_RCVD)
     \<and> c < length (reg_heap reg) \<and> (\<forall>e. pc \<noteq> Finished e)"
| "point_ok reg h AtGet \<longleftrightarrow> ih_entryState h = JOIN_RCVD"
| "point_ok reg h (AtSize c) \<longleftrightarrow> ih_entryState h = JOIN_RCVD"
| "point_ok reg h (AtMembers c n) \<longleftrightarrow> ih_entryState h = JOIN_RCVD"
| "point_ok reg h Returned \<longleftrightarrow> (ih_errOut h = None \<longrightarrow> state_ok reg h (ih_exitState h))"

text \<open>
  What the goroutine of a connection relies on: its client's ID is registered, its cluster is there, its
  state is one of the protocol's, and after a Join its client is among the cluster's members. A
  connection whose goroutine has ended is closed.
\<close>

definition goroutine_inv ::
  "('h, hval, 'b, 's, 'z) serverlib_scheme \<Rightarrow> ('h, 'b) Registry \<Rightarrow> 's SessionHandler \<times> TcpConnection \<times> stage \<Rightarrow> bool" where
  "goroutine_inv L reg l = (case l of (h, cnx, st) \<Rightarrow>
     sess_refs L reg h \<and> state_ok reg h (ih_entryState h)
     \<and> (case st of Handling pc \<Rightarrow> point_ok reg h pc | Closed _ \<Rightarrow> cx_closed cnx | _ \<Rightarrow> True))"

lemma has_joined_cong [simp]:
  "has_joined r (h\<lparr>ih_errOut := e\<rparr>) = has_joined r h" "has_joined r (h\<lparr>ih_msgIn := i\<rparr>) = has_joined r h"
  "has_joined r (h\<lparr>ih_msgOut := m\<rparr>) = has_joined r h" "has_joined r (h\<lparr>ih_exitState := x\<rparr>) = has_joined r h"
  "has_joined r (h\<lparr>ih_entryState := n\<rparr>) = has_joined r h"
  by (simp_all add: has_joined_def)

lemma state_ok_cong [simp]:
  "state_ok r (h\<lparr>ih_errOut := e\<rparr>) = state_ok r h" "state_ok r (h\<lparr>ih_msgIn := i\<rparr>) = state_ok r h"
  "state_ok r (h\<lparr>ih_msgOut := m\<rparr>) = state_ok r h" "state_ok r (h\<lparr>ih_exitState := x\<rparr>) = state_ok r h"
  "state_ok r (h\<lparr>ih_entryState := n\<rparr>) = state_ok r h"
  by (simp_all add: state_ok_def fun_eq_iff)

lemma state_ok_simps:
  "state_ok r h 0" "state_ok r h (Suc 0) \<longleftrightarrow> ih_thisClient h \<noteq> None" "state_ok r h 2 \<longleftrightarrow> ih_thisClient h \<noteq> None"
  "state_ok r h 3 \<longleftrightarrow> has_joined r h" "state_ok r h 4" "state_ok r h 5"
  by (auto simp: state_ok_def has_joined_def)

lemma has_joined_mono: "reg_le L r s \<Longrightarrow> has_joined r h \<Longrightarrow> has_joined s h"
proof -
  assume le: "reg_le L r s" and "has_joined r h"
  then obtain c m where j: "ih_cluster h = Some c" "c < length (reg_heap r)" "ih_thisClient h = Some m"
      "m \<in> set (rc_Members (get_cluster r c))" by (auto simp: has_joined_def)
  then have "m \<in> set (rc_Members (get_cluster s c))" "c < length (reg_heap s)"
    using le by (auto simp: reg_le_def cluster_le_def)
  with j show "has_joined s h" by (auto simp: has_joined_def)
qed

lemma state_ok_mono: "reg_le L r s \<Longrightarrow> state_ok r h st \<Longrightarrow> state_ok s h st"
  using has_joined_mono by (auto simp: state_ok_def)

lemma point_ok_mono:
  assumes "reg_le L r s" and "point_ok r h pc"
  shows "point_ok s h pc"
  using assms(2) state_ok_mono [OF assms(1), of h] by (cases pc) (use assms(1) in \<open>auto simp: reg_le_def\<close>)

section \<open>Changes of the registry\<close>

lemma cluster_ok_mono: "(\<And>b. known L r b \<Longrightarrow> known L s b) \<Longrightarrow> cluster_ok L r rc \<Longrightarrow> cluster_ok L s rc"
  by (auto simp: cluster_ok_def cluster_known_def)

lemma reg_index_inv_heap:
  assumes "reg_index_inv L r" and "reg_Clusters s = reg_Clusters r" and "reg_ClustersByName s = reg_ClustersByName r"
    and "reg_ClustersByID s = reg_ClustersByID r"
    and same: "\<And>c. c \<in> set (reg_Clusters r) \<Longrightarrow>
      rc_Name (get_cluster s c) = rc_Name (get_cluster r c) \<and> rc_ID (get_cluster s c) = rc_ID (get_cluster r c)"
  shows "reg_index_inv L s"
proof -
  have nm: "reg_name s c = reg_name r c" if "c \<in> set (reg_Clusters r)" for c
    using same [OF that] by (simp add: reg_name_def)
  have d: "map (reg_name s) (reg_Clusters r) = map (reg_name r) (reg_Clusters r)"
    using nm by simp
  have n: "(c \<in> set (reg_Clusters r) \<and> reg_name s c = k) \<longleftrightarrow> (c \<in> set (reg_Clusters r) \<and> reg_name r c = k)" for c k
    using nm by auto
  have i: "(\<exists>c \<in> set (reg_Clusters r). v = HCluster c \<and> rc_ID (get_cluster s c) = Some k) \<longleftrightarrow>
      (\<exists>c \<in> set (reg_Clusters r). v = HCluster c \<and> rc_ID (get_cluster r c) = Some k)" for v k
    using same by auto
  show ?thesis
    using assms(1) unfolding reg_index_inv_def reg_names_inv_def reg_ids_inv_def assms(2-4) d n i .
qed

lemma loose_heap:
  assumes "loose_inv L r" and "length (reg_heap r) \<le> length (reg_heap s)"
    and "reg_Clusters s = reg_Clusters r" and "reg_ClustersByName s = reg_ClustersByName r"
    and "reg_ClustersByID s = reg_ClustersByID r"
    and "\<And>c. c < length (reg_heap r) \<Longrightarrow> cluster_le (get_cluster r c) (get_cluster s c)"
    and "\<And>b. known L r b \<Longrightarrow> known L s b"
    and "\<forall>rc \<in> set (reg_heap s). cluster_ok L s rc"
  shows "loose_inv L s \<and> reg_le L r s"
proof -
  have range: "\<forall>c \<in> set (reg_Clusters r). c < length (reg_heap r)" using assms(1) by (simp add: loose_inv_def)
  have "reg_index_inv L s"
    using assms(1,6) range by (intro reg_index_inv_heap [OF _ assms(3-5)]) (auto simp: loose_inv_def cluster_le_def)
  moreover have "\<forall>c \<in> set (reg_Clusters s). c < length (reg_heap s)" using range assms(2,3) by fastforce
  ultimately show ?thesis using assms(2,3,6-8) by (simp add: loose_inv_def reg_le_def)
qed

lemma loose_filter:
  assumes "loose_inv L r" and "\<And>b. known L r b \<Longrightarrow> known L s b" and "reg_Clusters s = reg_Clusters r"
    and "reg_heap s = reg_heap r" and "reg_ClustersByName s = reg_ClustersByName r" and "reg_ClustersByID s = reg_ClustersByID r"
  shows "loose_inv L s \<and> reg_le L r s"
proof (rule loose_heap [OF assms(1) _ assms(3,5,6) _ assms(2)])
  show "\<forall>rc \<in> set (reg_heap s). cluster_ok L s rc"
    using assms(1,4) cluster_ok_mono [OF assms(2)] by (auto simp: loose_inv_def)
qed (simp_all add: assms(4) get_cluster_def)

lemma loose_draws: "loose_inv L r \<Longrightarrow> loose_inv L (r\<lparr>reg_draws := d\<rparr>) \<and> reg_le L r (r\<lparr>reg_draws := d\<rparr>)"
  by (rule loose_filter) (simp_all add: known_def)

lemma loose_insert:
  assumes "bloom_ok L" and "loose_inv L r" and "bf_Insert L (reg_idFilter r) (Value n) = Inr f"
  shows "loose_inv L (r\<lparr>reg_idFilter := f\<rparr>)" and "reg_le L r (r\<lparr>reg_idFilter := f\<rparr>)" and "known L (r\<lparr>reg_idFilter := f\<rparr>) (Value n)"
proof -
  note b = bloom_okD [OF assms(1,3)]
  have "loose_inv L (r\<lparr>reg_idFilter := f\<rparr>) \<and> reg_le L r (r\<lparr>reg_idFilter := f\<rparr>)"
    using assms(2) by (rule loose_filter) (use b(2) in \<open>simp_all add: known_def\<close>)
  then show "loose_inv L (r\<lparr>reg_idFilter := f\<rparr>)" and "reg_le L r (r\<lparr>reg_idFilter := f\<rparr>)" by simp_all
  show "known L (r\<lparr>reg_idFilter := f\<rparr>) (Value n)" using b(1) by (simp add: known_def)
qed

lemma loose_new_cluster:
  assumes "loose_inv L r" and "cluster_ok L r rc" and "new_cluster rc r = (c, s)"
  shows "loose_inv L s \<and> reg_le L r s" and "c < length (reg_heap s)"
proof -
  have s: "s = r\<lparr>reg_heap := reg_heap r @ [rc]\<rparr>" and c: "c = length (reg_heap r)"
    using assms(3) by (simp_all add: new_cluster_def)
  have kn: "known L s = known L r" by (simp add: fun_eq_iff known_def s)
  have "cluster_ok L s x \<longleftrightarrow> cluster_ok L r x" for x by (simp add: cluster_ok_def cluster_known_def kn)
  with assms(1,2) have ok: "\<forall>x \<in> set (reg_heap s). cluster_ok L s x" by (auto simp: loose_inv_def s)
  show "loose_inv L s \<and> reg_le L r s"
    by (rule loose_heap [OF assms(1)]) (use ok in \<open>simp_all add: kn\<close>, simp_all add: s get_cluster_def nth_append)
  show "c < length (reg_heap s)" by (simp add: s c)
qed

lemma loose_AddCluster:
  assumes "hamt_ok L" and "nodeids_ok L" and "loose_inv L r" and "c < length (reg_heap r)"
    and "AddCluster L (Some c) r = Ret (s, i, err)"
  shows "loose_inv L s \<and> reg_le L r s"
proof -
  note f = AddCluster_frame [OF assms(5)]
  have kn: "known L s = known L r" by (simp add: fun_eq_iff known_def f)
  have "get_cluster r c \<in> set (reg_heap r)" using assms(4) by (simp add: get_cluster_def)
  then have "rc_ID (get_cluster r c) \<noteq> None" using assms(3) by (auto simp: loose_inv_def cluster_ok_def)
  then have "reg_index_inv L s"
    using assms(3) by (intro AddCluster_index_inv [OF assms(1,2) _ _ assms(5)]) (simp_all add: loose_inv_def)
  moreover have "\<forall>x \<in> set (reg_Clusters s). x < length (reg_heap r)" "\<exists>cs. reg_Clusters s = reg_Clusters r @ cs"
    using assms(5) by (cases rule: AddCluster_cases; use assms(3,4) in \<open>auto simp: loose_inv_def cluster_insert_fields\<close>)+
  ultimately show ?thesis
    using assms(3) by (simp add: loose_inv_def reg_le_def kn f get_cluster_def cluster_ok_def cluster_known_def)
qed

lemma loose_put:
  assumes "loose_inv L r" and "c < length (reg_heap r)" and "cluster_le (get_cluster r c) rc" and "cluster_ok L r rc"
  shows "loose_inv L (put_cluster c rc r) \<and> reg_le L r (put_cluster c rc r)" and "get_cluster (put_cluster c rc r) c = rc"
proof -
  let ?s = "put_cluster c rc r"
  have get: "get_cluster ?s d = (if d = c then rc else get_cluster r d)" for d
    using assms(2) by (simp add: put_cluster_def get_cluster_def nth_list_update)
  then show "get_cluster ?s c = rc" by simp
  have kn: "known L ?s = known L r" by (simp add: fun_eq_iff known_def put_cluster_def)
  have "set (reg_heap ?s) \<subseteq> insert rc (set (reg_heap r))" by (simp add: put_cluster_def set_update_subset_insert)
  moreover have "cluster_ok L ?s x \<longleftrightarrow> cluster_ok L r x" for x by (simp add: cluster_ok_def cluster_known_def kn)
  ultimately have ok: "\<forall>x \<in> set (reg_heap ?s). cluster_ok L ?s x" using assms(1,4) unfolding loose_inv_def by blast
  show "loose_inv L ?s \<and> reg_le L r ?s"
    by (rule loose_heap [OF assms(1)]) (use ok assms(3) in \<open>simp_all add: kn get\<close>, simp_all add: put_cluster_def)
qed

text \<open>A section of \<open>AddMember\<close>, as the registry sees it.\<close>

lemma add_step_ok:
  assumes "hamt_ok L" and "cluster_ok L r rc" and "known L r (ci_ID m)" and "\<forall>e. pc \<noteq> Finished e"
    and "add_step L () rc (m, pc) = Ret (rc', m', pc')"
  shows "cluster_ok L r rc'" and "cluster_le rc rc'" and "pc' = Finished None \<Longrightarrow> m \<in> set (rc_Members rc')"
proof -
  have "cluster_ok L r rc' \<and> cluster_le rc rc' \<and> (pc' = Finished None \<longrightarrow> m \<in> set (rc_Members rc'))"
  proof (cases pc)
    case AtInsert
    then have rc': "rc' = fst (member_insert L rc m)" using assms(5) by (auto split: prod.splits)
    show ?thesis
      using assms(2,3) names_cover_insert [of rc L m] member_insert_ids_inv [OF assms(1), of rc m]
      by (auto simp: rc' cluster_ok_def cluster_known_def cluster_le_def member_insert_fields)
  qed (use assms in \<open>auto split: option.splits if_splits\<close>)
  then show "cluster_ok L r rc'" and "cluster_le rc rc'" and "pc' = Finished None \<Longrightarrow> m \<in> set (rc_Members rc')" by simp_all
qed

section \<open>The sections keep it\<close>

definition step_ok ::
  "('h, hval, 'b, 'z) reglib_scheme \<Rightarrow> ('h, 'b) Registry \<Rightarrow> 'x InHandler_scheme \<Rightarrow> ('h, 'b) Registry \<times> 'x InHandler_scheme \<times> point \<Rightarrow> bool" where
  "step_ok L r h out \<longleftrightarrow> (case out of (s, k, q) \<Rightarrow>
     loose_inv L s \<and> reg_le L r s \<and> sess_refs L s k \<and> ih_entryState k = ih_entryState h
     \<and> state_ok s k (ih_entryState k) \<and> point_ok s k q)"

text \<open>What a session is at a point, before its next section.\<close>

definition at_point ::
  "('h, hval, 'b, 'z) reglib_scheme \<Rightarrow> ('h, 'b) Registry \<Rightarrow> 'x InHandler_scheme \<Rightarrow> point \<Rightarrow> bool" where
  "at_point L r h pc \<longleftrightarrow> libs_ok L \<and> loose_inv L r \<and> sess_refs L r h \<and> state_ok r h (ih_entryState h) \<and> point_ok r h pc"

lemma at_pointD:
  assumes "at_point L r h pc"
  shows "hamt_ok L" "nodeids_ok L" "bloom_ok L" "basenodes_ok L" "loose_inv L r" "sess_refs L r h"
    "state_ok r h (ih_entryState h)" "point_ok r h pc"
  using assms by (simp_all add: at_point_def libs_ok_def)

text \<open>A step that changes the registry by growth and leaves the handler.\<close>

lemma step_ok_same:
  assumes "at_point L r h pc" and "loose_inv L s \<and> reg_le L r s" and "point_ok s h q"
  shows "step_ok L r h (s, h, q)"
  using assms sess_refs_mono [of L r s h] state_ok_mono [of L r s h] by (simp add: step_ok_def at_point_def)

lemma step_ok_error:
  assumes "at_point L r h pc" and "loose_inv L s \<and> reg_le L r s"
  shows "step_ok L r h (s, h\<lparr>ih_errOut := Some e\<rparr>, Returned)"
  using assms sess_refs_mono [of L r s h] state_ok_mono [of L r s h] by (simp add: step_ok_def at_point_def)

lemma client_done_ok:
  assumes "at_point L r h pc" and "ih_entryState h = HELLO_RCVD" and "loose_inv L s \<and> reg_le L r s"
    and "err = None \<or> err = Some IDAlreadyInUse \<Longrightarrow> known L s (Value n)"
  shows "step_ok L r h (s, client_done L n err h, Returned)"
proof (cases "err = None \<or> err = Some IDAlreadyInUse")
  case False
  then obtain e where "err = Some e" by auto
  with False step_ok_error [OF assms(1,3)] show ?thesis by (simp add: client_done_def)
next
  case True
  show ?thesis
  proof (cases "client_keys L (GetMemberSpecs (ih_msgIn h))")
    case (Inl e)
    with True step_ok_error [OF assms(1,3)] show ?thesis by (simp add: client_done_def del: msg_getters token_getters)
  next
    case (Inr p)
    obtain ck sk where p: "p = (ck, sk)" by fastforce
    let ?specs = "GetMemberSpecs (ih_msgIn h)"
    let ?new = "NewClientInfo L (Token_GetName ?specs) (Some n) (Some ck) (Some sk) (Token_GetAttrs ?specs) (Token_GetMyEnds ?specs)"
    show ?thesis
    proof (cases ?new)
      case (Inl e)
      with True Inr p step_ok_error [OF assms(1,3)] show ?thesis by (simp add: client_done_def del: msg_getters token_getters)
    next
      fix cm
      assume cm: "?new = Inr cm"
      have "ci_ID cm = Value n" using NewClientInfo_Inr [OF at_pointD(4) [OF assms(1)] cm] by (auto simp: ci_ID_def)
      moreover have "sess_refs L s h" using at_pointD(6) [OF assms(1)] assms(3) sess_refs_mono by blast
      ultimately show ?thesis
        using True Inr p cm assms(2-4)
        by (simp add: client_done_def step_ok_def sess_refs_def state_ok_simps del: msg_getters token_getters)
    qed
  qed
qed

lemma NewRegCluster_ok:
  assumes "hamt_ok L" and "NewRegCluster L nm n a ms ep = Inr rc" and "valid_id (Value n)" and "known L r (Value n)"
  shows "cluster_ok L r rc"
  using assms(2-4) hamt_okD(1) [OF assms(1)]
  by (auto simp: NewRegCluster_Inr cluster_ok_def names_cover_def ids_inv_def cluster_known_def)

lemma id_done_ok:
  assumes "at_point L r h pc" and "use_ok u (ih_entryState h)" and "valid_id (Value n)" and "loose_inv L s \<and> reg_le L r s"
    and "err = None \<or> err = Some IDAlreadyInUse \<Longrightarrow> known L s (Value n)"
  shows "step_ok L r h (id_done L s h u n err)"
proof (cases u)
  case ForClient
  with client_done_ok [OF assms(1) _ assms(4,5)] assms(2) show ?thesis by (simp add: id_done_def)
next
  case ForCluster
  let ?new = "NewRegCluster L (GetClusterName (ih_msgIn h)) n 0 (clamp_size (GetClusterMaxSize (ih_msgIn h))) (GetEndPointCount (ih_msgIn h))"
  show ?thesis
  proof (cases "err = None \<and> (\<exists>rc. ?new = Inr rc)")
    case False
    with ForCluster step_ok_error [OF assms(1,4)] show ?thesis
      by (auto simp: id_done_def simp del: msg_getters split: option.split sum.split)
  next
    case True
    then obtain rc where rc: "err = None" "?new = Inr rc" by blast
    obtain c t where n: "new_cluster rc s = (c, t)" by fastforce
    have "cluster_ok L s rc" using NewRegCluster_ok [OF at_pointD(1) [OF assms(1)] rc(2) assms(3)] assms(5) rc(1) by blast
    note t = loose_new_cluster [OF conjunct1 [OF assms(4)] this n]
    have le: "reg_le L r t" using t(1) assms(4) reg_le_trans by blast
    then have "sess_refs L t h" using at_pointD(6) [OF assms(1)] sess_refs_mono by blast
    with ForCluster rc n t le assms(2) at_pointD(7) [OF assms(1)] show ?thesis
      by (simp add: id_done_def step_ok_def sess_refs_def state_ok_simps del: msg_getters)
  qed
qed

lemma index2_handler_table:
  assumes "index2 handler_table e t = Some f"
  shows "(f = DoClient \<longrightarrow> e = 0) \<and> (f = DoCreate \<longrightarrow> e = 1) \<and> (f = DoJoin \<longrightarrow> e = 1 \<or> e = 2) \<and> (f = DoGet \<longrightarrow> e = 3)"
proof -
  have e: "e = 0 \<or> e = 1 \<or> e = 2 \<or> e = 3" using assms by (auto simp: index2_def handler_table_def split: if_splits)
  have "0 \<le> t \<and> nat t < 5" using assms e by (auto simp: index2_def handler_table_def split: if_splits)
  then have "t = 0 \<or> t = 1 \<or> t = 2 \<or> t = 3 \<or> t = 4" by arith
  with assms e show ?thesis by (elim disjE) (auto simp: index2_def handler_table_def)
qed

lemma client_call_ok:
  assumes "at_point L r h pc" and "ih_entryState h = HELLO_RCVD"
  shows "step_ok L r h (r, client_call L h)"
proof -
  have l: "loose_inv L r \<and> reg_le L r r" using at_pointD(5) [OF assms(1)] by simp
  from assms(2) step_ok_error [OF assms(1) l] step_ok_same [OF assms(1) l] show ?thesis
    by (auto simp: client_call_def Let_def simp del: msg_getters token_getters split: sum.split option.split)
qed

lemma call_handler_ok:
  assumes "at_point L r h AtCall" and "call_handler L r h = Ret out"
  shows "step_ok L r h out"
proof -
  let ?t = "op2tag (GetOp (ih_msgIn h))"
  define g where "g = (if ?t < MIN_TAG \<or> ?t > MAX_TAG then h\<lparr>ih_errOut := Some TagOutOfRange\<rparr> else h)"
  have g: "at_point L r g AtCall" "ih_entryState g = ih_entryState h" using assms(1) by (simp_all add: at_point_def g_def)
  have l: "loose_inv L r \<and> reg_le L r r" using at_pointD(5) [OF assms(1)] by simp
  note run = assms(2) [unfolded call_handler_def Let_def g_def [symmetric]]
  obtain f where f: "index2 handler_table (ih_entryState g) ?t = Some f"
    using run by (auto simp del: msg_getters split: option.splits)
  note e = index2_handler_table [OF f] and same = step_ok_same [OF g(1) l]
  have "step_ok L r g out"
  proof (cases f)
    case DoClient
    with run f e client_call_ok [OF g(1)] show ?thesis by (simp del: msg_getters)
  next
    case DoBye
    with run f at_pointD(6,7) [OF g(1)] l show ?thesis
      by (auto simp: doByeMsg_def step_ok_def state_ok_simps simp del: msg_getters)
  next
    case BadCombo
    with run f step_ok_error [OF g(1) l] show ?thesis by (auto simp: badCombo_def simp del: msg_getters)
  qed (use run f e same in \<open>auto simp del: msg_getters split: if_splits\<close>)
  then show ?thesis using g(2) by (auto simp: step_ok_def)
qed

lemma loose_join_range:
  assumes "loose_inv L r" and "sess_refs L r h" and "join_cluster L r h nm i = Ret (Some c, e)"
  shows "c < length (reg_heap r)"
proof -
  have n: "c < length (reg_heap r)" if "reg_ClustersByName r nm = Some c" for c
    using assms(1) that unfolding loose_inv_def reg_index_inv_def reg_names_inv_def by blast
  have i: "c < length (reg_heap r)" if "fst (ha_Find L (reg_ClustersByID r) k) = Some (HCluster c)" for c k
  proof -
    have "\<exists>d \<in> set (reg_Clusters r). HCluster c = HCluster d"
      using assms(1) that unfolding loose_inv_def reg_index_inv_def reg_ids_inv_def by blast
    then show ?thesis using assms(1) by (auto simp: loose_inv_def)
  qed
  show ?thesis
    using assms(2,3) n i by (auto simp: join_cluster_def sess_refs_def split: option.splits if_splits prod.splits hval.splits)
qed

lemma add_ok:
  assumes "at_point L r h (AtAdd c pc)" and "handler_step L r h (AtAdd c pc) = Ret out"
  shows "step_ok L r h out"
proof -
  note a = at_pointD [OF assms(1)]
  obtain m where m: "ih_thisClient h = Some m" using assms(2) by (cases "ih_thisClient h") simp_all
  then obtain rc m' pc' where st: "add_step L () (get_cluster r c) (m, pc) = Ret (rc, m', pc')"
    using assms(2) by (auto simp: obind_Ret_iff)
  have c: "c < length (reg_heap r)" "\<forall>e. pc \<noteq> Finished e" using a(8) by simp_all
  have "get_cluster r c \<in> set (reg_heap r)" using c by (simp add: get_cluster_def)
  then have ok: "cluster_ok L r (get_cluster r c)" using a(5) by (simp add: loose_inv_def)
  have "known L r (ci_ID m)" using a(6) m by (simp add: sess_refs_def)
  note s = add_step_ok [OF a(1) ok this c(2) st]
  note p = loose_put [OF a(5) c(1) s(2,1)]
  have len: "length (reg_heap (put_cluster c rc r)) = length (reg_heap r)" by (simp add: put_cluster_def)
  show ?thesis
  proof (cases pc')
    case (Finished err)
    then have out: "out = (put_cluster c rc r, join_done c rc err h, Returned)" using assms(2) m st by (simp add: Let_def)
    show ?thesis
    proof (cases err)
      case (Some e)
      with out step_ok_error [OF assms(1) p(1)] show ?thesis by (simp add: join_done_def)
    next
      case None
      have "sess_refs L (put_cluster c rc r) h" using a(6) p(1) sess_refs_mono by blast
      with out None Finished m c(1) a(8) s(3) p len show ?thesis
        by (auto simp: join_done_def step_ok_def sess_refs_def state_ok_simps has_joined_def)
    qed
  qed (use assms(2) m st step_ok_same [OF assms(1) p(1)] a(8) len in \<open>auto simp: Let_def\<close>)
qed

lemma create_existing_ok:
  assumes "at_point L r h pc" and "ih_entryState h = CLIENT_DETAILS_RCVD" and "create_existing L c r h = Ret (s, k)"
  shows "step_ok L r h (s, k, Returned)"
proof -
  define d where "d = (if rc_ID (get_cluster r c) = None then Suc (reg_draws r) else reg_draws r)"
  obtain n where "xi_New_or_random L (reg_draws r) (rc_ID (get_cluster r c)) = Inr n"
    using assms(3) by (cases "xi_New_or_random L (reg_draws r) (rc_ID (get_cluster r c))") (simp_all add: create_existing_def Let_def)
  then have s: "s = r\<lparr>reg_draws := d\<rparr>" and k: "ih_errOut k = None" "ih_exitState k = CREATE_REQUEST_RCVD"
      "ih_thisClient k = ih_thisClient h" "ih_cluster k = ih_cluster h" "ih_entryState k = ih_entryState h"
    using assms(3) by (auto simp: create_existing_def Let_def d_def)
  note l = loose_draws [OF at_pointD(5) [OF assms(1)], of d]
  have "sess_refs L s h" using at_pointD(6) [OF assms(1)] l s sess_refs_mono by blast
  with l s k assms(2) at_pointD(7) [OF assms(1)] show ?thesis
    by (simp add: step_ok_def sess_refs_def state_ok_simps)
qed

lemma enter_ok:
  assumes "at_point L r h (AtEnter n)" and "handler_step L r h (AtEnter n) = Ret out"
  shows "step_ok L r h out"
proof -
  note a = at_pointD [OF assms(1)]
  obtain c where c: "ih_cluster h = Some c" "c < length (reg_heap r)" using a(6,8) by (auto simp: sess_refs_def)
  obtain s i err where s: "AddCluster L (Some c) r = Ret (s, i, err)" using assms(2) c(1) by (auto simp: obind_Ret_iff)
  note l = loose_AddCluster [OF a(1,2,5) c(2) s]
  have refs: "sess_refs L s h" using a(6) l sess_refs_mono by blast
  show ?thesis
  proof (cases err)
    case None
    with assms(2) c(1) s l refs a(7,8) show ?thesis
      by (auto simp: step_ok_def sess_refs_def state_ok_simps simp del: msg_getters)
  next
    case (Some e)
    with assms(2) c(1) s step_ok_error [OF assms(1) l] show ?thesis by auto
  qed
qed

lemma handler_step_ok:
  assumes "at_point L r h pc" and "handler_step L r h pc = Ret out"
  shows "step_ok L r h out"
proof -
  note a = at_pointD [OF assms(1)]
  have l: "loose_inv L r \<and> reg_le L r r" using a(5) by simp
  note same = step_ok_same [OF assms(1) l] and err = step_ok_error [OF assms(1) l]
  show ?thesis
  proof (cases pc)
    case AtCall
    with assms call_handler_ok show ?thesis by simp
  next
    case (AtLookup n)
    with assms(2) a(8) same client_done_ok [OF assms(1) _ l, of _ n] show ?thesis
      by (auto simp: ContainsID_def ext_def known_def split: sum.splits if_splits)
  next
    case (AtCheck n)
    with assms(2) a(8) same client_done_ok [OF assms(1) _ l, of _ n] show ?thesis
      by (auto simp: known_def split: sum.splits if_splits)
  next
    case (AtFilter n)
    show ?thesis
    proof (cases "bf_Insert L (reg_idFilter r) (Value n)")
      case (Inl e)
      with AtFilter assms(2) a(8) client_done_ok [OF assms(1) _ l, of "Some (Ext e)" n] show ?thesis by auto
    next
      case (Inr f)
      note i = loose_insert [OF a(3,5) Inr]
      with AtFilter Inr assms(2) a(8) client_done_ok [OF assms(1), of "r\<lparr>reg_idFilter := f\<rparr>" None n] show ?thesis by auto
    qed
  next
    case (AtDraw u)
    with assms(2) a(8) step_ok_same [OF assms(1) loose_draws [OF a(5)]] nodeids_okD(3) [OF a(2)] show ?thesis
      by (auto split: sum.splits)
  next
    case (AtFresh u n)
    with assms(2) a(8) same id_done_ok [OF assms(1) _ _ l, of u n] show ?thesis
      by (auto simp: ContainsID_def ext_def split: sum.splits if_splits)
  next
    case (AtReserve u n)
    show ?thesis
    proof (cases "bf_Insert L (reg_idFilter r) (Value n)")
      case (Inl e)
      with AtReserve assms(2) a(8) id_done_ok [OF assms(1) _ _ l, of u n "Some (Ext e)"] show ?thesis by auto
    next
      case (Inr f)
      note i = loose_insert [OF a(3,5) Inr]
      with AtReserve Inr assms(2) a(8) id_done_ok [OF assms(1), of u n "r\<lparr>reg_idFilter := f\<rparr>" None] show ?thesis by auto
    qed
  next
    case AtCreate
    with assms(2) a(8) same create_existing_ok [OF assms(1)] show ?thesis
      by (auto simp: obind_Ret_iff simp del: msg_getters split: option.splits)
  next
    case (AtEnter n)
    with assms enter_ok show ?thesis by blast
  next
    case AtFind
    with assms(2) a(8) same err loose_join_range [OF a(5,6)] show ?thesis
      by (auto simp del: msg_getters elim!: obind_RetE split: option.split_asm)
  next
    case (AtAdd c pc')
    with assms add_ok show ?thesis by blast
  next
    case AtGet
    with assms(2) a(8) same err show ?thesis
      by (auto simp: Let_def simp del: msg_getters split: prod.split_asm option.split_asm hval.split_asm)
  next
    case (AtSize c)
    with assms(2) a(8) same show ?thesis by (auto simp: Let_def)
  next
    case (AtMembers c n)
    obtain ts w where "get_loop L (rc_Members (get_cluster r c)) (bm_Intersection L (GetWhich (ih_msgIn h)) (bm_LowNMap L (unat n)))
        [0..<unat n] None 0 = (ts, w)" by fastforce
    with AtMembers assms(2) a(6-8) l show ?thesis by (auto simp: get_done_def step_ok_def Let_def simp del: msg_getters)
  next
    case Returned
    with assms(2) a(8) same show ?thesis by auto
  qed
qed

section \<open>The goroutines keep it\<close>

lemma handleHello_state:
  assumes "handleHello L v rn h cnx = (h', cnx', e)"
  shows "sess_refs L r h' = sess_refs L r h" and "state_ok r h' (ih_entryState h') = state_ok r h (ih_entryState h)"
  using assms
  by (auto simp: handleHello_def sess_refs_def state_ok_def has_joined_def Let_def split: prod.splits option.splits sum.splits)

lemma respond_ok:
  assumes "sess_refs L r h" and "point_ok r h Returned"
  shows "goroutine_inv L r (respond L h cnx)"
proof -
  obtain h1 cnx1 err where sr: "send_reply L (error_reply h) cnx = (h1, cnx1, err)" by (metis prod_cases3)
  obtain w where h1: "h1 = (error_reply h)\<lparr>ih_Session := w\<rparr>" using sr by (rule send_reply_handler)
  let ?k = "h1\<lparr>ih_entryState := ih_exitState h1\<rparr>"
  have "sess_refs L r ?k" using assms(1) by (simp add: h1 error_reply_def sess_refs_def split: option.split)
  moreover have "state_ok r ?k (ih_entryState ?k)"
    using assms(2) by (auto simp: h1 error_reply_def state_ok_def has_joined_def split: option.split)
  ultimately show ?thesis
    using sr by (simp add: respond_def goroutine_inv_def state_ok_simps Let_def Cnx_Close_def)
qed

lemma goroutine_step_keeps:
  assumes "libs_ok L" and "loose_inv L r" and "goroutine_inv L r l" and "goroutine_step L version u r l = Ret (s, k)"
  shows "loose_inv L s \<and> goroutine_inv L s k \<and> reg_le L r s"
proof -
  obtain h cnx st where l: "l = (h, cnx, st)" by (metis prod_cases3)
  have h: "sess_refs L r h" "state_ok r h (ih_entryState h)" using assms(3) by (simp_all add: goroutine_inv_def l)
  show ?thesis
  proof (cases st)
    case Greeting
    obtain h' cnx' e where hh: "handleHello L version (reg_RegNode r) h cnx = (h', cnx', e)" by (metis prod_cases3)
    with handleHello_state [OF hh, of r] h assms(2,4) Greeting show ?thesis
      by (auto simp: goroutine_step_def l goroutine_inv_def Cnx_Close_def split: option.splits)
  next
    case Reading
    obtain data e cnx' where rd: "ReadData cnx = (data, e, cnx')" by (metis prod_cases3)
    with h assms(2,4) Reading show ?thesis
      by (auto simp: goroutine_step_def l goroutine_inv_def Cnx_Close_def split: option.splits sum.splits)
  next
    case (Handling pc)
    have p: "at_point L r h pc" using assms(1-3) Handling by (simp add: at_point_def goroutine_inv_def l)
    show ?thesis
    proof (cases "pc = Returned")
      case True
      with respond_ok [OF h(1), of cnx] at_pointD(8) [OF p] assms(2,4) Handling show ?thesis
        by (auto simp: goroutine_step_def l)
    next
      case False
      then have "goroutine_step L version u r l = obind (handler_step L r h pc) (\<lambda>(reg, h, pc). Ret (reg, h, cnx, Handling pc))"
        using Handling by (cases pc) (simp_all add: goroutine_step_def l)
      then obtain h' q where "handler_step L r h pc = Ret (s, h', q)" "k = (h', cnx, Handling q)"
        using assms(4) by (auto simp: obind_Ret_iff)
      with handler_step_ok [OF p] show ?thesis by (auto simp: step_ok_def goroutine_inv_def)
    qed
  next
    case (Closed err)
    with assms(2-4) show ?thesis by (auto simp: goroutine_step_def l)
  qed
qed

definition fresh_goroutine :: "('h, 'v, 'b, 's, 'z) serverlib_scheme \<Rightarrow> 's SessionHandler \<times> TcpConnection \<times> stage \<Rightarrow> bool" where
  "fresh_goroutine L l \<longleftrightarrow> (\<exists>cnx. l = (new_handler L, cnx, Greeting))"

interpretation sections: shared_service "goroutine_step L version" "fresh_goroutine L"
    "\<lambda>reg. libs_ok L \<and> loose_inv L reg" "goroutine_inv L" "reg_le L"
  for L :: "('h, hval, 'b, 's, 'z) serverlib_scheme" and version
proof
  fix g g' g'' :: "('h, 'b) Registry" and l l' :: "'s SessionHandler \<times> TcpConnection \<times> stage" and i
  show "libs_ok L \<and> loose_inv L g \<Longrightarrow> goroutine_inv L g l \<Longrightarrow> goroutine_step L version i g l = Ret (g', l') \<Longrightarrow>
      (libs_ok L \<and> loose_inv L g') \<and> goroutine_inv L g' l' \<and> reg_le L g g'"
    using goroutine_step_keeps by blast
  show "libs_ok L \<and> loose_inv L g \<Longrightarrow> fresh_goroutine L l \<Longrightarrow> goroutine_inv L g l"
    by (auto simp: fresh_goroutine_def goroutine_inv_def sess_refs_def new_handler_def state_ok_def)
  show "goroutine_inv L g' l" if "reg_le L g g'" "goroutine_inv L g l"
    using that sess_refs_mono [OF that(1)] state_ok_mono [OF that(1)] point_ok_mono [OF that(1)]
    by (auto simp: goroutine_inv_def split: stage.splits)
  show "reg_le L g g" by simp
  show "reg_le L g g' \<Longrightarrow> reg_le L g' g'' \<Longrightarrow> reg_le L g g''" by (rule reg_le_trans)
qed

lemma overlap_reaches_interleaved:
  assumes "overlap_reaches L version (a0, g0, ls0) (a, g, ls)"
  shows "interleaved (goroutine_step L version) (fresh_goroutine L) (g0, ls0) (g, ls)
     \<and> length ls + accepts_left a \<le> length ls0 + accepts_left a0"
  using assms
proof (induction "(a0, g0, ls0)" "(a, g, ls)" arbitrary: a g ls rule: overlap_reaches.induct)
  case start
  show ?case by (simp add: interleaved.start)
next
  case (step t)
  obtain b f ks where t: "t = (b, f, ks)" by (metis prod_cases3)
  have IH: "interleaved (goroutine_step L version) (fresh_goroutine L) (g0, ls0) (f, ks)"
    "length ks + accepts_left b \<le> length ls0 + accepts_left a0" using step.hyps(2) [OF t] by auto
  from step.hyps(3) [unfolded t] show ?case
  proof (cases rule: overlap_step.cases)
    case (accept c h cnx as)
    then have "fresh_goroutine L (h, cnx, Greeting)" by (auto simp: fresh_goroutine_def NewInHandler_fresh)
    from interleaved.opens [OF IH(1) this] IH(2) accept show ?thesis by (simp add: accepts_left_def)
  next
    case (refuse e as)
    with IH show ?thesis by (simp add: accepts_left_def)
  next
    case (stop rs)
    then have "accepts_left a \<le> accepts_left b"
      by (auto simp: RegServer_Stop_def accepts_left_def split: listener.splits)
    with IH stop show ?thesis by simp
  next
    case (turn n l)
    from interleaved.turn [OF IH(1) turn(3,4)] IH(2) show ?thesis by (simp add: turn)
  qed
qed

lemma srv_inv_loose: "srv_inv L r \<Longrightarrow> loose_inv L r"
  by (auto simp: srv_inv_def reg_inv_def loose_inv_def cluster_ok_def cluster_inv_def names_inv_def names_cover_def)

lemma overlap_run_keeps:
  assumes "libs_ok L" and "NewRegistry L [] d [] rn opt = Ret (Some reg, None, f)"
    and "overlap_reaches L version (Listening as, reg, []) (a, g, ls)"
  shows "loose_inv L g \<and> reg_le L reg g \<and> known L g (Value (own_id reg)) \<and> (\<forall>l \<in> set ls. goroutine_inv L g l)
     \<and> length ls \<le> accepts_left (Listening as)"
proof -
  note w = NewRegistry_wf [OF assms(1,2)] and r = overlap_reaches_interleaved [OF assms(3)]
  have "(libs_ok L \<and> loose_inv L g) \<and> (\<forall>l \<in> set ls. goroutine_inv L g l) \<and> reg_le L reg g"
    using sections.interleaved_safe [OF conjunct1 [OF r]] assms(1) srv_inv_loose [OF conjunct1 [OF w]] by simp
  with w r show ?thesis by (auto simp: reg_le_def)
qed

section \<open>A handler alone\<close>

text \<open>The sections of a message with no other in between.\<close>

inductive handler_runs ::
  "('h, hval, 'b, 'z) reglib_scheme \<Rightarrow> ('h, 'b) Registry \<times> 'x InHandler_scheme \<times> point \<Rightarrow>
   ('h, 'b) Registry \<times> 'x InHandler_scheme \<times> point \<Rightarrow> bool"
  for L where
  stay: "handler_runs L x x"
| more: "handler_step L r h pc = Ret y \<Longrightarrow> handler_runs L y z \<Longrightarrow> handler_runs L (r, h, pc) z"

lemma runs_step: "handler_step L r h pc = Ret y \<Longrightarrow> handler_runs L (r, h, pc) y"
  by (rule handler_runs.more [OF _ handler_runs.stay])

lemma runs_trans: "handler_runs L x y \<Longrightarrow> handler_runs L y z \<Longrightarrow> handler_runs L x z"
  by (induction rule: handler_runs.induct) (auto intro: handler_runs.more)

lemma draw_runs:
  "\<not> taken_draw L r (d + m) \<Longrightarrow> unique_loop L r d = Some (Ret (n, d', e)) \<Longrightarrow>
     handler_runs L (r\<lparr>reg_draws := d\<rparr>, h, AtDraw u)
       (case e of Some x \<Rightarrow> id_done L (r\<lparr>reg_draws := d'\<rparr>) h u n (Some x) | None \<Rightarrow> (r\<lparr>reg_draws := d'\<rparr>, h, AtReserve u n))"
proof (induction m arbitrary: d)
  case 0
  then have "draw_result L r d = Ret (n, d', e)" by (simp add: unique_loop_unfold [of L r d])
  with 0(1) show ?case
    by (auto simp: draw_result_def taken_draw_def ContainsID_def split: sum.splits intro!: handler_runs.more handler_runs.stay)
next
  case (Suc m)
  show ?case
  proof (cases "taken_draw L r d")
    case True
    then obtain i where "xi_Random L d = Inr i" "ContainsID L i r = Inr True" by (auto simp: taken_draw_def split: sum.splits)
    then have "handler_step L (r\<lparr>reg_draws := d\<rparr>) h (AtDraw u) = Ret (r\<lparr>reg_draws := Suc d\<rparr>, h, AtFresh u i)"
        "handler_step L (r\<lparr>reg_draws := Suc d\<rparr>) h (AtFresh u i) = Ret (r\<lparr>reg_draws := Suc d\<rparr>, h, AtDraw u)"
      by (simp_all add: ContainsID_def)
    moreover have "unique_loop L r (Suc d) = Some (Ret (n, d', e))" using Suc.prems(2) True by (simp add: unique_loop_unfold [of L r d])
    with Suc.IH [of "Suc d"] Suc.prems(1)
    have "handler_runs L (r\<lparr>reg_draws := Suc d\<rparr>, h, AtDraw u)
       (case e of Some x \<Rightarrow> id_done L (r\<lparr>reg_draws := d'\<rparr>) h u n (Some x) | None \<Rightarrow> (r\<lparr>reg_draws := d'\<rparr>, h, AtReserve u n))" by simp
    ultimately show ?thesis by (blast intro: handler_runs.more)
  next
    case False
    then have "draw_result L r d = Ret (n, d', e)" using Suc.prems(2) by (simp add: unique_loop_unfold [of L r d])
    with False show ?thesis
      by (auto simp: draw_result_def taken_draw_def ContainsID_def split: sum.splits intro!: handler_runs.more handler_runs.stay)
  qed
qed

lemma unique_runs:
  assumes "InsertUniqueNodeID L r = Ret (s, n, err)"
  shows "handler_runs L (r, h, AtDraw u) (id_done L s h u n err)"
proof -
  obtain n' d e where u: "unique_loop L r (reg_draws r) = Some (Ret (n', d, e))"
    using assms by (cases "unique_loop L r (reg_draws r)") (auto simp: InsertUniqueNodeID_def obind_Ret_iff)
  obtain k where "k \<ge> reg_draws r" "\<not> taken_draw L r k" using unique_loop_result [OF u] by blast
  then have "\<not> taken_draw L r (reg_draws r + (k - reg_draws r))" by simp
  from draw_runs [OF this u, of h u]
  have run: "handler_runs L (r, h, AtDraw u)
      (case e of Some x \<Rightarrow> id_done L (r\<lparr>reg_draws := d\<rparr>) h u n' (Some x) | None \<Rightarrow> (r\<lparr>reg_draws := d\<rparr>, h, AtReserve u n'))" by simp
  show ?thesis
  proof (cases e)
    case (Some x)
    with assms u have "s = r\<lparr>reg_draws := d\<rparr>" "n' = n" "err = Some x" by (auto simp: InsertUniqueNodeID_def Let_def)
    with run Some show ?thesis by simp
  next
    case None
    have "handler_step L (r\<lparr>reg_draws := d\<rparr>) h (AtReserve u n') = Ret (id_done L s h u n err)"
      using assms u None by (auto simp: InsertUniqueNodeID_def Let_def split: sum.splits)
    from runs_trans [OF run [unfolded None option.case] runs_step [OF this]] show ?thesis .
  qed
qed

lemma client_runs:
  assumes "doClientMsg L r h = Ret (s, k)"
  shows "handler_runs L (r, client_call L h) (s, k, Returned)"
proof -
  let ?specs = "GetMemberSpecs (ih_msgIn h)"
  show ?thesis
  proof (cases "client_keys L ?specs")
    case (Inl e)
    with assms show ?thesis by (auto simp: doClientMsg_def client_call_def Let_def simp del: msg_getters token_getters intro: handler_runs.stay)
  next
    case (Inr p)
    obtain ck sk where p: "p = (ck, sk)" by fastforce
    note run = assms [unfolded doClientMsg_def Let_def Inr p sum.case prod.case]
    have done_eq: "s = t \<and> k = client_done L n err h" if "client_node_id L (Token_GetID ?specs) r = Ret (t, Some n, err)" for t n err
      using run Inr p that by (auto simp: client_done_def Let_def simp del: msg_getters token_getters split: sum.splits if_splits)
    show ?thesis
    proof (cases "Token_GetID ?specs")
      case None
      then obtain t n err where u: "InsertUniqueNodeID L r = Ret (t, n, err)"
        using run by (auto simp: client_node_id_def obind_Ret_iff simp del: msg_getters token_getters)
      with None done_eq [of t n err] have "s = t \<and> k = client_done L n err h" by (simp add: client_node_id_def del: msg_getters token_getters)
      with unique_runs [OF u, of h ForClient] None Inr show ?thesis
        by (simp add: client_call_def id_done_def Let_def del: msg_getters token_getters)
    next
      case (Some b)
      show ?thesis
      proof (cases "xi_New L b")
        case (Inl e)
        with run Some Inr p show ?thesis
          by (auto simp: client_call_def client_node_id_def Let_def simp del: msg_getters token_getters intro: handler_runs.stay)
      next
        fix n
        assume n: "xi_New L b = Inr n"
        then have start: "client_call L h = (h, AtLookup n)" using Some Inr by (simp add: client_call_def Let_def del: msg_getters token_getters)
        obtain t0 e0 where "InsertID L n r = (t0, e0)" by fastforce
        then have "\<exists>t err. client_node_id L (Token_GetID ?specs) r = Ret (t, Some n, err)"
          using n Some by (cases "ContainsID L n r") (simp_all add: client_node_id_def del: msg_getters token_getters)
        then obtain t err where i: "client_node_id L (Token_GetID ?specs) r = Ret (t, Some n, err)" by blast
        note k = done_eq [OF i]
        have "handler_runs L (r, h, AtLookup n) (t, client_done L n err h, Returned)"
          using i n Some
          by (auto simp: client_node_id_def ContainsID_def InsertID_def ext_def simp del: msg_getters token_getters
              split: sum.splits if_splits prod.splits intro!: handler_runs.more handler_runs.stay)
        with start k show ?thesis by simp
      qed
    qed
  qed
qed

lemma create_runs:
  assumes "doCreateMsg L r h = Ret (s, k)"
  shows "handler_runs L (r, h, AtCreate) (s, k, Returned)"
proof (cases "reg_ClustersByName r (GetClusterName (ih_msgIn h))")
  case (Some c)
  with assms show ?thesis by (intro runs_step) (simp add: doCreateMsg_def Let_def del: msg_getters)
next
  case None
  let ?new = "\<lambda>n. NewRegCluster L (GetClusterName (ih_msgIn h)) n 0 (clamp_size (GetClusterMaxSize (ih_msgIn h))) (GetEndPointCount (ih_msgIn h))"
  note run = assms [unfolded doCreateMsg_def Let_def None option.case create_new_def]
  obtain t n err where u: "InsertUniqueNodeID L r = Ret (t, n, err)" using run by (auto simp: obind_Ret_iff simp del: msg_getters)
  have first: "handler_runs L (r, h, AtCreate) (id_done L t h ForCluster n err)"
    using None by (intro runs_trans [OF runs_step unique_runs [OF u]]) (simp del: msg_getters)
  show ?thesis
  proof (cases "err = None \<and> (\<exists>rc. ?new n = Inr rc)")
    case False
    with run u first show ?thesis by (auto simp: id_done_def simp del: msg_getters split: option.splits sum.splits)
  next
    case True
    then obtain rc where rc: "err = None" "?new n = Inr rc" by blast
    obtain c t2 where c: "new_cluster rc t = (c, t2)" by fastforce
    have mid: "id_done L t h ForCluster n err = (t2, h\<lparr>ih_cluster := Some c\<rparr>, AtEnter n)"
      using rc c by (simp add: id_done_def del: msg_getters)
    have "handler_step L t2 (h\<lparr>ih_cluster := Some c\<rparr>) (AtEnter n) = Ret (s, k, Returned)"
    proof -
      obtain s' i e where "AddCluster L (Some c) t2 = Ret (s', i, e)" using run u rc c by (auto simp: obind_Ret_iff simp del: msg_getters)
      with run u rc c show ?thesis by (cases e) (auto simp del: msg_getters)
    qed
    then show ?thesis using first unfolding mid by (blast intro: runs_trans runs_step)
  qed
qed

lemma add_runs:
  assumes "ih_thisClient h = Some m" and "c < length (reg_heap r)"
  shows "handler_runs L (r, h, AtAdd c AtName)
    (put_cluster c (fst (AddMember L m (get_cluster r c))) r,
     join_done c (fst (AddMember L m (get_cluster r c))) (snd (AddMember L m (get_cluster r c))) h, Returned)"
proof -
  let ?rc = "get_cluster r c"
  have put: "put_cluster c ?rc r = r" by (simp add: put_cluster_def get_cluster_def)
  show ?thesis
  proof (cases "member_name_in_use ?rc m")
    case True
    then show ?thesis using assms(1) put by (intro runs_step) (simp add: AddMember_def Let_def)
  next
    case False
    then have 1: "handler_step L r h (AtAdd c AtName) = Ret (r, h, AtAdd c AtID)" using assms(1) put by (simp add: Let_def)
    show ?thesis
    proof (cases "member_id_check L ?rc")
      case (Some e)
      then have "handler_step L r h (AtAdd c AtID) = Ret (r, join_done c ?rc (Some e) h, Returned)" using assms(1) put by (simp add: Let_def)
      with 1 False Some put show ?thesis by (simp add: AddMember_def handler_runs.more [OF 1 runs_step] del: handler_step.simps)
    next
      case None
      then have 2: "handler_step L r h (AtAdd c AtID) = Ret (r, h, AtAdd c AtInsert)" using assms(1) put by (simp add: Let_def)
      have 3: "handler_step L r h (AtAdd c AtInsert) = Ret (put_cluster c (fst (member_insert L ?rc m)) r,
          join_done c (fst (member_insert L ?rc m)) (snd (member_insert L ?rc m)) h, Returned)"
        using assms(1) by (simp add: Let_def split: prod.split)
      from handler_runs.more [OF 1 handler_runs.more [OF 2 runs_step [OF 3]]] False None show ?thesis by (simp add: AddMember_def)
    qed
  qed
qed

lemma join_runs:
  assumes "srv_inv L r" and "sess_refs L r h" and "doJoinMsg L r h = Ret (s, k)"
  shows "handler_runs L (r, h, AtFind) (s, k, Returned)"
proof -
  obtain m c e where m: "ih_thisClient h = Some m"
      "join_cluster L r h (GetClusterName (ih_msgIn h)) (GetClusterID (ih_msgIn h)) = Ret (Some c, e)"
    using assms(3) by (auto simp: doJoinMsg_def Let_def obind_Ret_iff simp del: msg_getters split: option.splits)
  have c: "c < length (reg_heap r)" "e = None" using join_cluster_range [OF assms(1,2) m(2)] by simp_all
  have "s = put_cluster c (fst (AddMember L m (get_cluster r c))) r
      \<and> k = join_done c (fst (AddMember L m (get_cluster r c))) (snd (AddMember L m (get_cluster r c))) h"
    using assms(3) m c(2) by (auto simp: doJoinMsg_def join_done_def Let_def simp del: msg_getters split: prod.splits option.splits)
  moreover have "handler_step L r h AtFind = Ret (r, h, AtAdd c AtName)" using m c(2) by (simp del: msg_getters)
  then have "handler_runs L (r, h, AtFind) (put_cluster c (fst (AddMember L m (get_cluster r c))) r,
      join_done c (fst (AddMember L m (get_cluster r c))) (snd (AddMember L m (get_cluster r c))) h, Returned)"
    using add_runs [OF m(1) c(1)] by (rule handler_runs.more)
  ultimately show ?thesis by simp
qed

lemma get_runs:
  assumes "doGetMsg L r h = Ret (s, k)"
  shows "handler_runs L (r, h, AtGet) (s, k, Returned)"
proof -
  let ?id = "slice_of (GetClusterID (ih_msgIn h))"
  obtain b e where b: "NewBytesKey L ?id = (b, e)" by fastforce
  obtain v f where v: "ha_Find L (reg_ClustersByID r) b = (v, f)" by fastforce
  show ?thesis
  proof (cases "\<exists>c. e = None \<and> f = None \<and> v = Some (HCluster c)")
    case True
    then obtain c where c: "e = None" "f = None" "v = Some (HCluster c)" by blast
    define n where "n = (if rc_Size (get_cluster r c) > MAX_CLUSTER_SIZE then MAX_CLUSTER_SIZE else rc_Size (get_cluster r c))"
    have "handler_step L r h AtGet = Ret (r, h, AtSize c)" using b v c by (simp add: Let_def del: msg_getters)
    moreover have "handler_step L r h (AtSize c) = Ret (r, h, AtMembers c n)" by (simp add: n_def Let_def)
    moreover have "handler_step L r h (AtMembers c n) = Ret (s, k, Returned)"
      using assms b v c by (auto simp: doGetMsg_def get_members_def get_done_def n_def [symmetric] Let_def simp del: msg_getters split: prod.splits)
    ultimately show ?thesis by (blast intro: handler_runs.more handler_runs.stay)
  next
    case False
    have "handler_step L r h AtGet = Ret (s, k, Returned)"
      using assms b v False
      by (cases e; cases f; cases v) (auto simp: doGetMsg_def Let_def simp del: msg_getters split: hval.splits)
    then show ?thesis by (rule runs_step)
  qed
qed

text \<open>The two tables of handlers agree.\<close>

fun handler_fun ::
  "('h, hval, 'b, 'z) reglib_scheme \<Rightarrow> handler \<Rightarrow> ('h, 'b) Registry \<Rightarrow> 'x InHandler_scheme \<Rightarrow>
   (('h, 'b) Registry \<times> 'x InHandler_scheme) outcome" where
  "handler_fun L DoClient = doClientMsg L"
| "handler_fun L DoCreate = doCreateMsg L"
| "handler_fun L DoJoin = doJoinMsg L"
| "handler_fun L DoGet = doGetMsg L"
| "handler_fun L DoBye = doByeMsg"
| "handler_fun L BadCombo = badCombo"

lemma msgHandlers_table: "msgHandlers L = map (map (handler_fun L)) handler_table"
  by (simp add: msgHandlers_def handler_table_def)

lemma index2_map: "index2 (map (map f) t) i j = map_option f (index2 t i j)"
  by (simp add: index2_def)

text \<open>And so do the two descriptions of the handlers: a message whose sections are not interrupted is handled
  as \<open>handle_message\<close> says.\<close>

lemma sections_alone:
  assumes "srv_inv L r" and "sess_refs L r h" and "handle_message L msg r h = Ret (s, k)"
  shows "\<exists>j. handler_runs L (r, h\<lparr>ih_msgIn := Some msg\<rparr>, AtCall) (s, j, Returned) \<and> k = error_reply j"
proof -
  let ?t = "op2tag (GetOp (Some msg))" and ?h = "h\<lparr>ih_msgIn := Some msg\<rparr>"
  obtain j where j: "dispatch L ?t r ?h = Ret (s, j)" "k = error_reply j" using assms(3) by (rule handle_message_dispatch)
  have range: "0 \<le> ?t" "?t \<le> 4" using dispatch_answers [OF j(1)] by auto
  have refs: "sess_refs L r ?h" using assms(2) by simp
  obtain f where f: "index2 handler_table (ih_entryState ?h) ?t = Some f" "handler_fun L f r ?h = Ret (s, j)"
    using j(1) unfolding dispatch_def msgHandlers_table index2_map by (auto simp del: msg_getters split: option.splits)
  note call = call_handler_def [of L r ?h, unfolded Let_def]
  have "handler_runs L (r, ?h, AtCall) (s, j, Returned)"
  proof (cases f)
    case DoClient
    then have "handler_step L r ?h AtCall = Ret (r, client_call L ?h)" using f range by (simp add: call del: msg_getters)
    moreover have "handler_runs L (r, client_call L ?h) (s, j, Returned)" using f(2) DoClient by (intro client_runs) simp
    ultimately show ?thesis by (rule handler_runs.more)
  next
    case DoCreate
    then have "handler_step L r ?h AtCall = Ret (r, ?h, AtCreate)" using f range by (simp add: call del: msg_getters)
    moreover have "handler_runs L (r, ?h, AtCreate) (s, j, Returned)" using f(2) DoCreate by (intro create_runs) simp
    ultimately show ?thesis by (rule handler_runs.more)
  next
    case DoJoin
    then have "ih_thisClient ?h \<noteq> None" using f(2) by (cases "ih_thisClient h") (auto simp: doJoinMsg_def Let_def)
    then have "handler_step L r ?h AtCall = Ret (r, ?h, AtFind)" using f range DoJoin by (simp add: call del: msg_getters)
    moreover have "handler_runs L (r, ?h, AtFind) (s, j, Returned)" using f(2) DoJoin by (intro join_runs [OF assms(1) refs]) simp
    ultimately show ?thesis by (rule handler_runs.more)
  next
    case DoGet
    then have "handler_step L r ?h AtCall = Ret (r, ?h, AtGet)" using f range by (simp add: call del: msg_getters)
    moreover have "handler_runs L (r, ?h, AtGet) (s, j, Returned)" using f(2) DoGet by (intro get_runs) simp
    ultimately show ?thesis by (rule handler_runs.more)
  next
    case DoBye
    then show ?thesis using f range by (intro runs_step) (simp add: call del: msg_getters)
  next
    case BadCombo
    then show ?thesis using f range by (intro runs_step) (simp add: call del: msg_getters)
  qed
  with j(2) show ?thesis by blast
qed

section \<open>Properties\<close>

text \<open>C6. However the sections of the message handlers of any number of connections overlap, from any
  sound registry: no ID, cluster or member is ever lost; the index of cluster names stays one to one
  and both indexes point to the right clusters; every cluster's ID and those of its members are
  registered; every cluster's name index has an entry for each of its members and for nobody else; and
  a session that has joined is a member of its cluster. (The names of the members of a cluster need not
  stay different.)\<close>

theorem overlapping_sessions_safe:
  assumes "libs_ok L" and "loose_inv L r0"
    and "interleaved (goroutine_step L version) (fresh_goroutine L) (r0, []) (r, ls)"
  shows "loose_inv L r \<and> (\<forall>l \<in> set ls. goroutine_inv L r l) \<and> reg_le L r0 r"
  using sections.interleaved_safe [OF assms(3)] assms(1,2) by simp

text \<open>C9. The server as a whole: from the ephemeral server when it is new, whatever connections are
  accepted, whatever they send, and however the sections of their handlers and \<open>Stop\<close> interleave,
  the registry stays sound and only grows, its own ID stays registered, every session's
  client and cluster are there and its client is a member of the cluster it has joined, connections
  whose goroutine has ended are closed, and no connection is served beyond those accepted before the
  first error.\<close>

theorem server_run_safe:
  assumes "libs_ok L" and "NewEphServer L name idBuf d = Ret (Inr ms)" and "rs_Registry (es_Server ms) = (reg, rn)"
    and "overlap_reaches L version (Listening as, reg, []) (a, g, ls)"
  shows "loose_inv L g \<and> reg_le L reg g \<and> known L g (Value (own_id reg)) \<and> (\<forall>l \<in> set ls. goroutine_inv L g l)
     \<and> length ls \<le> accepts_left (Listening as)"
proof -
  obtain rv opt f where n: "NewRegistry L [] (d + 3) [] rv opt = Ret (Some reg, None, f)"
    using assms(2,3) by (auto elim: NewEphServer_made)
  from overlap_run_keeps [OF assms(1) n assms(4)] show ?thesis .
qed

section \<open>Sample runs\<close>

theorem server_run_safe_witness:
  "\<exists>ms reg rn. NewEphServer ephlib ''eph'' [1] 0 = Ret (Inr ms) \<and> rs_Registry (es_Server ms) = (reg, rn)
     \<and> overlap_reaches ephlib 7 (Listening [Accepted no_cnx], reg, [])
         (Listening [], reg, [(new_handler ephlib, Cnx_Close no_cnx, Closed (Some IoEOF))])
     \<and> loose_inv ephlib reg \<and> cx_closed (Cnx_Close no_cnx)"
proof -
  obtain ms where ms: "NewEphServer ephlib ''eph'' [1] 0 = Ret (Inr ms)" using ref_eph_server by blast
  obtain reg rn where r: "rs_Registry (es_Server ms) = (reg, rn)" by fastforce
  have "goroutine_step ephlib 7 () reg (new_handler ephlib, no_cnx, Greeting) =
      Ret (reg, new_handler ephlib, Cnx_Close no_cnx, Closed (Some IoEOF))"
    by (simp add: goroutine_step_def handleHello_def ReadData_def Cnx_Read_def no_cnx_def Cnx_Close_def)
  then have t: "overlap_step ephlib 7 (Listening [], reg, [(new_handler ephlib, no_cnx, Greeting)])
      (Listening [], reg, [(new_handler ephlib, no_cnx, Greeting)][0 := (new_handler ephlib, Cnx_Close no_cnx, Closed (Some IoEOF))])"
    by (intro overlap_step.turn) simp_all
  have "overlap_step ephlib 7 (Listening [Accepted no_cnx], reg, []) (Listening [], reg, [] @ [(new_handler ephlib, no_cnx, Greeting)])"
    by (intro overlap_step.accept) (simp add: NewInHandler_fresh)
  from overlap_reaches.step [OF overlap_reaches.step [OF overlap_reaches.start this [simplified]] t]
  have run: "overlap_reaches ephlib 7 (Listening [Accepted no_cnx], reg, [])
      (Listening [], reg, [(new_handler ephlib, Cnx_Close no_cnx, Closed (Some IoEOF))])" by simp
  from server_run_safe [OF ephlib_libs ms r run] ms r run show ?thesis by (auto simp: goroutine_inv_def)
qed

theorem overlapping_sessions_safe_witness:
  "interleaved (goroutine_step ephlib 7) (fresh_goroutine ephlib) (ref_registry [], [])
     (ref_registry [], [(new_handler ephlib, Cnx_Close no_cnx, Closed (Some IoEOF))])
   \<and> loose_inv ephlib (ref_registry [])"
proof -
  have "reg_heap (ref_registry []) = [] \<and> reg_Clusters (ref_registry []) = [] \<and> reg_ClustersByName (ref_registry []) = Map.empty
      \<and> reg_ClustersByID (ref_registry []) = []"
    by (simp add: ref_registry_def)
  then have l: "loose_inv ephlib (ref_registry [])"
    by (simp add: loose_inv_def reg_index_inv_def reg_names_inv_def reg_ids_inv_def) (simp add: ephlib_def)
  have s: "goroutine_step ephlib 7 () (ref_registry []) (new_handler ephlib, no_cnx, Greeting) =
      Ret (ref_registry [], new_handler ephlib, Cnx_Close no_cnx, Closed (Some IoEOF))"
    by (simp add: goroutine_step_def handleHello_def ReadData_def Cnx_Read_def no_cnx_def Cnx_Close_def)
  have f: "fresh_goroutine ephlib (new_handler ephlib, no_cnx, Greeting)" by (simp add: fresh_goroutine_def)
  have "interleaved (goroutine_step ephlib 7) (fresh_goroutine ephlib) (ref_registry [], []) (ref_registry [], [(new_handler ephlib, no_cnx, Greeting)])"
    using interleaved.opens [where fresh = "fresh_goroutine ephlib" and ls = "[]", OF interleaved.start f] by simp
  from interleaved.turn [where n = 0, OF this] s
  have run: "interleaved (goroutine_step ephlib 7) (fresh_goroutine ephlib) (ref_registry [], [])
      (ref_registry [], [(new_handler ephlib, Cnx_Close no_cnx, Closed (Some IoEOF))])" by fastforce
  from overlapping_sessions_safe [OF ephlib_libs l run] run show ?thesis by simp
qed

end
