(* ===== verification/Command.thy ===== *)
theory Command
  imports Overlap
begin

text \<open>
  The command (\<open>cmd/xlReg/xlReg.go\<close>): the flags, as the package \<open>flag\<close> parses them, the options that
  \<open>main\<close> makes of them, \<open>setup\<close>, which loads or makes the registry's node, and \<open>serve\<close>.
\<close>

section \<open>Flags\<close>

definition DEFAULT_ADDR :: string where "DEFAULT_ADDR = ''0.0.0.0''"
definition DEFAULT_GLOBAL_ADDR :: string where "DEFAULT_GLOBAL_ADDR = ''54.186.197.123''"
definition DEFAULT_NAME :: string where "DEFAULT_NAME = ''xlReg''"
definition DEFAULT_LFS :: string where "DEFAULT_LFS = ''/var/app/xlreg''"
definition TEST_DEFAULT_PORT :: int where "TEST_DEFAULT_PORT = 45678"
definition DEFAULT_PORT :: int where "DEFAULT_PORT = 56789"

record Flags =
  fl_address :: string
  fl_clearFilter :: bool
  fl_ephemeral :: bool
  fl_globalAddress :: string
  fl_justShow :: bool
  fl_k :: nat
  fl_lfs :: string
  fl_logFile :: string
  fl_m :: nat
  fl_name :: string
  fl_port :: int
  fl_t :: nat
  fl_testing :: bool
  fl_verbose :: bool

definition default_flags :: "('h, 'v, 'z) hamtlib_scheme \<Rightarrow> Flags" where
  "default_flags L = \<lparr>fl_address = DEFAULT_ADDR, fl_clearFilter = False, fl_ephemeral = False,
     fl_globalAddress = DEFAULT_GLOBAL_ADDR, fl_justShow = False, fl_k = DEFAULT_K, fl_lfs = DEFAULT_LFS,
     fl_logFile = ''log'', fl_m = DEFAULT_M, fl_name = DEFAULT_NAME, fl_port = DEFAULT_PORT,
     fl_t = ha_MAX_W L, fl_testing = False, fl_verbose = False\<rparr>"

text \<open>The flags by kind: how a value of each is set.\<close>

definition bool_flag :: "string \<Rightarrow> (bool \<Rightarrow> Flags \<Rightarrow> Flags) option" where
  "bool_flag n = map_of
     [(''c'', \<lambda>b. fl_clearFilter_update (\<lambda>_. b)), (''e'', \<lambda>b. fl_ephemeral_update (\<lambda>_. b)),
      (''j'', \<lambda>b. fl_justShow_update (\<lambda>_. b)), (''T'', \<lambda>b. fl_testing_update (\<lambda>_. b)),
      (''v'', \<lambda>b. fl_verbose_update (\<lambda>_. b))] n"

definition set_string :: "((string \<Rightarrow> string) \<Rightarrow> Flags \<Rightarrow> Flags) \<Rightarrow> string \<Rightarrow> Flags \<Rightarrow> gerror + Flags" where
  "set_string upd v f = Inr (upd (\<lambda>_. v) f)"

definition set_uint :: "((nat \<Rightarrow> nat) \<Rightarrow> Flags \<Rightarrow> Flags) \<Rightarrow> string \<Rightarrow> Flags \<Rightarrow> gerror + Flags" where
  "set_uint upd v f = (case ParseUint v 0 of Inl e \<Rightarrow> Inl e | Inr n \<Rightarrow> Inr (upd (\<lambda>_. n) f))"

definition set_int :: "((int \<Rightarrow> int) \<Rightarrow> Flags \<Rightarrow> Flags) \<Rightarrow> string \<Rightarrow> Flags \<Rightarrow> gerror + Flags" where
  "set_int upd v f = (case ParseInt v 0 of Inl e \<Rightarrow> Inl e | Inr n \<Rightarrow> Inr (upd (\<lambda>_. n) f))"

definition value_flag :: "string \<Rightarrow> (string \<Rightarrow> Flags \<Rightarrow> gerror + Flags) option" where
  "value_flag n = map_of
     [(''a'', set_string fl_address_update), (''g'', set_string fl_globalAddress_update),
      (''k'', set_uint fl_k_update), (''lfs'', set_string fl_lfs_update), (''l'', set_string fl_logFile_update),
      (''m'', set_uint fl_m_update), (''n'', set_string fl_name_update), (''p'', set_int fl_port_update),
      (''t'', set_uint fl_t_update)] n"

definition ParseBool :: "string \<Rightarrow> bool option" where
  "ParseBool s =
     (if s \<in> set [''1'', ''t'', ''T'', ''true'', ''TRUE'', ''True''] then Some True
      else if s \<in> set [''0'', ''f'', ''F'', ''false'', ''FALSE'', ''False''] then Some False else None)"

text \<open>An argument: not a flag, two dashes alone, bad syntax, or a flag with the value after the first equals sign.\<close>

datatype arg = NotFlag | DashDash | BadFlag | Flag string "string option"

definition split_value :: "string \<Rightarrow> string \<times> string option" where
  "split_value name =
     (case dropWhile (\<lambda>c. c \<noteq> CHR ''='') (drop 1 name) of
        [] \<Rightarrow> (name, None)
      | c # value \<Rightarrow> (take 1 name @ takeWhile (\<lambda>c. c \<noteq> CHR ''='') (drop 1 name), Some value))"

definition flag_arg :: "string \<Rightarrow> arg" where
  "flag_arg s =
     (if length s < 2 \<or> hd s \<noteq> CHR ''-'' then NotFlag
      else if s = ''--'' then DashDash
      else let name = (if s ! 1 = CHR ''-'' then drop 2 s else drop 1 s)
           in if name = [] \<or> hd name = CHR ''-'' \<or> hd name = CHR ''='' then BadFlag
              else case split_value name of (n, v) \<Rightarrow> Flag n v)"

text \<open>\<open>flag.Parse\<close>. An error ends the process with status 2.\<close>

fun parse_flags :: "string list \<Rightarrow> Flags \<Rightarrow> gerror + Flags" where
  "parse_flags [] f = Inr f"
| "parse_flags (s # args) f =
     (case flag_arg s of
        NotFlag \<Rightarrow> Inr f
      | DashDash \<Rightarrow> Inr f
      | BadFlag \<Rightarrow> Inl (Ext ''bad flag syntax'')
      | Flag name v \<Rightarrow>
     (case bool_flag name of
        Some upd \<Rightarrow>
          (case v of
             None \<Rightarrow> parse_flags args (upd True f)
           | Some v \<Rightarrow>
               (case ParseBool v of
                  None \<Rightarrow> Inl (Ext ''invalid boolean value'')
                | Some b \<Rightarrow> parse_flags args (upd b f)))
      | None \<Rightarrow>
     (case value_flag name of
        None \<Rightarrow> Inl (Ext ''flag provided but not defined'')
      | Some upd \<Rightarrow>
     (case v of
        Some v \<Rightarrow> (case upd v f of Inl e \<Rightarrow> Inl e | Inr f \<Rightarrow> parse_flags args f)
      | None \<Rightarrow>
          (case args of
             [] \<Rightarrow> Inl (Ext ''flag needs an argument'')
           | v # args \<Rightarrow> (case upd v f of Inl e \<Rightarrow> Inl e | Inr f \<Rightarrow> parse_flags args f))))))"

declare parse_flags.simps(2) [simp del]

section \<open>Options\<close>

text \<open>The replacements made for a test run.\<close>

definition fixups :: "Flags \<Rightarrow> Flags" where
  "fixups f =
     (if fl_testing f then
        f\<lparr>fl_name := (if fl_name f = DEFAULT_NAME \<or> fl_name f = [] then ''testReg'' else fl_name f),
          fl_lfs := (if fl_lfs f = DEFAULT_LFS \<or> fl_lfs f = [] then ''./myApp/xlReg'' else path_Join ''tmp'' (fl_lfs f)),
          fl_address := (if fl_address f = DEFAULT_ADDR then ''127.0.0.1'' else fl_address f),
          fl_globalAddress := (if fl_globalAddress f = DEFAULT_GLOBAL_ADDR then ''127.0.0.1'' else fl_globalAddress f),
          fl_port := (if fl_port f = DEFAULT_PORT \<or> fl_port f = 0 then TEST_DEFAULT_PORT else fl_port f)\<rparr>
      else f)"

definition sanity :: "Flags \<Rightarrow> Flags" where
  "sanity f = f\<lparr>fl_m := (if fl_m f < 2 then 20 else fl_m f), fl_k := (if fl_k f < 2 then 8 else fl_k f)\<rparr>"

text \<open>The name is not among the options, and neither is the end point.\<close>

definition make_options :: "Flags \<Rightarrow> string \<Rightarrow> EndPoint \<Rightarrow> bool \<Rightarrow> RegOptions" where
  "make_options f backingFile global logger = \<lparr>opt_Address = fl_address f, opt_BackingFile = backingFile,
     opt_ClearFilter = fl_clearFilter f, opt_EndPoint = None, opt_Ephemeral = fl_ephemeral f,
     opt_GlobalEndPoint = Some global, opt_K = fl_k f, opt_Lfs = fl_lfs f, opt_Logger = logger, opt_M = fl_m f,
     opt_Name = [], opt_Port = fmt_int (fl_port f), opt_Testing = fl_testing f, opt_T = fl_t f,
     opt_Verbose = fl_verbose f\<rparr>"

text \<open>
  What \<open>main\<close> does before \<open>setup\<close>: it exits with a status, only shows the settings, returns because of
  an error that is not reported, or goes on with its options. The error of \<open>CheckLFS\<close> is overwritten by
  the result of opening the log file, if a log file is named.
\<close>

datatype prepared = Exit int | Shown | Silent string | Options RegOptions

definition prepare :: "('h, 'v, 'b, 's, 'f, 'z) nodelib_scheme \<Rightarrow> 'f \<Rightarrow> Flags \<Rightarrow> 'f \<times> prepared" where
  "prepare L fs flags =
     (let f = fixups flags;
          backingFile = (if fl_ephemeral f then [] else path_Join (fl_lfs f) ''idFilter.dat'')
      in case NewTcpEndPoint L (fl_address f @ '':'' @ fmt_int (fl_port f)) of
           Inl e \<Rightarrow> (fs, Exit (-1))
         | Inr endPoint \<Rightarrow>
     (case NewTcpEndPoint L (fl_globalAddress f @ '':'' @ fmt_int (fl_port f)) of
        Inl e \<Rightarrow> (fs, Exit (-1))
      | Inr globalEndPoint \<Rightarrow>
     (let f = sanity f in
      case fs_CheckLFS L fs (fl_lfs f) of (fs, err) \<Rightarrow>
     (let f = (if err = None \<and> fl_logFile f = [] then f\<lparr>fl_logFile := path_Join (fl_lfs f) ''log''\<rparr> else f)
      in if fl_justShow f then (fs, Shown)
         else (case (if fl_logFile f = [] then (fs, err) else fs_OpenFile L fs (fl_logFile f)) of
                 (fs, Some e) \<Rightarrow> (fs, Silent e)
               | (fs, None) \<Rightarrow> (fs, Options (make_options f backingFile globalEndPoint (fl_logFile f \<noteq> []))))))))"

section \<open>Setting up\<close>

definition config_file :: "RegOptions \<Rightarrow> string" where
  "config_file opt = path_Join (path_Join (opt_Lfs opt) ''.xlattice'') ''reg.config''"

text \<open>
  A node made from scratch. All errors here are those of an inner variable: what the caller sees is
  that there is no node, or, when only the file could not be written, nothing. The error of making an
  ID and that of opening the acceptor are dropped.
\<close>

definition create_node ::
  "('h, 'v, 'b, 's, 'f, 'z) nodelib_scheme \<Rightarrow> nat \<Rightarrow> 'f \<Rightarrow> RegOptions \<Rightarrow> 'f \<times> RegNodeFull option" where
  "create_node L d fs opt =
     (let nodeID = (case xi_Random L d of Inl e \<Rightarrow> None | Inr i \<Rightarrow> Some i) in
      case NewTcpEndPoint L (opt_Address opt @ '':'' @ opt_Port opt) of
        Inl e \<Rightarrow> (fs, None)
      | Inr ep \<Rightarrow>
     (case GenerateKey L (d + 1) of
        Inl e \<Rightarrow> (fs, None)
      | Inr ckPriv \<Rightarrow>
     (case GenerateKey L (d + 2) of
        Inl e \<Rightarrow> (fs, None)
      | Inr skPriv \<Rightarrow>
     (case xn_New L ''xlReg'' nodeID (opt_Lfs opt) ckPriv skPriv [ep] of
        Inl e \<Rightarrow> (fs, None)
      | Inr node \<Rightarrow>
     (case NewRegNode (Some (fst (Node_OpenAcc L node))) ckPriv skPriv of
        Inl e \<Rightarrow> (fs, None)
      | Inr rn \<Rightarrow>
     (case fs_MkdirsToFile L fs (config_file opt) of
        (fs, Some e) \<Rightarrow> (fs, Some rn)
      | (fs, None) \<Rightarrow> (fst (fs_WriteFile L fs (config_file opt) (RegNode_String L rn)), Some rn)))))))"

text \<open>The node: loaded if there is a configuration file, made otherwise.\<close>

definition find_node ::
  "('h, 'v, 'b, 's, 'f, 'z) nodelib_scheme \<Rightarrow> nat \<Rightarrow> 'f \<Rightarrow> RegOptions \<Rightarrow> ('f \<times> (gerror + RegNodeFull option)) outcome" where
  "find_node L d fs opt =
     (case fs_PathExists L fs (config_file opt) of
        Inl e \<Rightarrow> Ret (fs, Inl (Ext e))
      | Inr found \<Rightarrow>
          if found then
            (case fs_ReadFile L fs (config_file opt) of
               Inl e \<Rightarrow> Ret (fs, Inl (Ext e))
             | Inr text \<Rightarrow>
                 obind (ParseRegNode L text) (\<lambda>r.
                 case r of Inl e \<Rightarrow> Ret (fs, Inl e) | Inr (rn, rest) \<Rightarrow> Ret (fs, Inr (Some rn))))
          else (case create_node L d fs opt of (fs, rn) \<Rightarrow> Ret (fs, Inr rn)))"

definition setup_reg ::
  "('h, hval, 'b, 's, 'f, 'z) nodelib_scheme \<Rightarrow> nat \<Rightarrow> 'f \<Rightarrow> RegOptions \<Rightarrow>
   ('f \<times> (gerror + ('h, 'b) RegServer)) outcome" where
  "setup_reg L d fs opt =
     (if \<not> opt_Logger opt then Panic NilDereference
      else
        obind (find_node L d fs opt) (\<lambda>(fs, r).
        case r of
          Inl e \<Rightarrow> Ret (fs, Inl e)
        | Inr rn \<Rightarrow>
        obind (case rn of None \<Rightarrow> NewRegistry L [] (d + 3) [] None opt | Some rn \<Rightarrow> node_registry L (d + 3) rn opt) (\<lambda>(reg, err, file).
        case err of
          Some e \<Rightarrow> Ret (fs, Inl e)
        | None \<Rightarrow>
            (case rn of
               None \<Rightarrow> Panic NilDereference
             | Some rn \<Rightarrow>
                 Ret (fs, NewRegServer (map_option (\<lambda>r. (r, rn)) reg) (opt_Testing opt) (if opt_Verbose opt then 1 else 0))))))"

text \<open>\<open>serve\<close> starts the server and waits until its accept loop has ended.\<close>

definition serve ::
  "('h, 'v, 'b, 's, 'f, 'z) nodelib_scheme \<Rightarrow> accept list \<Rightarrow> ('h2, 'b2) RegServer \<Rightarrow> gerror + listener" where
  "serve L as rs = snd (RegServer_Start L as rs)"

datatype ('h, 'b) command_result =
    Status int
  | Quiet
  | Serving listener "('h, 'b) Registry"

definition main_cmd ::
  "('h, hval, 'b, 's, 'f, 'z) nodelib_scheme \<Rightarrow> nat \<Rightarrow> 'f \<Rightarrow> accept list \<Rightarrow> string list \<Rightarrow>
   ('f \<times> ('h, 'b) command_result) outcome" where
  "main_cmd L d fs as args =
     (case parse_flags args (default_flags L) of
        Inl e \<Rightarrow> Ret (fs, Status 2)
      | Inr flags \<Rightarrow>
     (case prepare L fs flags of
        (fs, Exit n) \<Rightarrow> Ret (fs, Status n)
      | (fs, Options opt) \<Rightarrow>
          obind (setup_reg L d fs opt) (\<lambda>(fs, r).
          case r of
            Inl e \<Rightarrow> Ret (fs, Quiet)
          | Inr rs \<Rightarrow>
              (case serve L as rs of
                 Inl e \<Rightarrow> Ret (fs, Quiet)
               | Inr a \<Rightarrow> Ret (fs, Serving a (fst (rs_Registry rs)))))
      | (fs, _) \<Rightarrow> Ret (fs, Quiet)))"

section \<open>Paths and options\<close>

lemma clean_elems_solid:
  "[] \<notin> set out \<Longrightarrow> [] \<notin> set (clean_elems rooted out es)"
  by (induction rooted out es rule: clean_elems.induct) (auto split: list.splits)

lemma Join_nonempty: "es \<noteq> [] \<Longrightarrow> [] \<notin> set es \<Longrightarrow> Join sep es \<noteq> []"
  by (cases "(sep, es)" rule: Join.cases) auto

lemma path_Clean_nonempty: "path_Clean s \<noteq> []"
  using Join_nonempty [of "clean_elems False [] (Split s ''/'')" "''/''"] clean_elems_solid [of "[]" False]
  by (auto simp: path_Clean_def Let_def)

lemma path_Join_nonempty [simp]: "b \<noteq> [] \<Longrightarrow> path_Join a b \<noteq> []"
  by (simp add: path_Join_def path_Clean_nonempty)

lemma fixups_keeps [simp]: "fl_ephemeral (fixups f) = fl_ephemeral f" "fl_verbose (fixups f) = fl_verbose f"
  by (simp_all add: fixups_def)

lemma prepare_options:
  assumes "prepare L fs flags = (fs', Options opt)"
  shows "opt_Logger opt" and "2 \<le> opt_K opt \<and> 2 \<le> opt_M opt" and "opt_GlobalEndPoint opt \<noteq> None"
    and "opt_BackingFile opt = [] \<longleftrightarrow> opt_Ephemeral opt"
  using assms
  by (auto simp: prepare_def make_options_def sanity_def Let_def split: sum.splits prod.splits if_splits option.splits)

section \<open>What the command can do\<close>

lemma NewRegistry_no_panic:
  "opt_GlobalEndPoint opt \<noteq> None \<Longrightarrow> NewRegistry L heap d cs rn opt \<noteq> Panic p \<and> NewRegistry L heap d cs rn opt \<noteq> Hang"
  by (auto simp: NewRegistry_def Let_def split: sum.splits option.splits)

lemma setup_reg_cases:
  assumes "setup_reg L d fs opt = Ret (fs', Inr rs)"
  obtains rn v f where "find_node L d fs opt = Ret (fs', Inr (Some rn))" and "regnode_view rn = Some v"
    and "NewRegistry L [] (d + 3) [] (Some v) opt = Ret (Some (fst (rs_Registry rs)), None, f)"
    and "snd (rs_Registry rs) = rn"
proof -
  obtain fs1 r where f: "find_node L d fs opt = Ret (fs1, r)"
    using assms by (cases "find_node L d fs opt") (auto simp: setup_reg_def split: if_splits)
  then obtain rn where r: "r = Inr (Some rn)"
    using assms by (cases r) (auto simp: setup_reg_def NewRegistry_def split: if_splits sum.splits option.splits)
  obtain v where v: "regnode_view rn = Some v"
    using assms f r by (cases "regnode_view rn") (auto simp: setup_reg_def node_registry_def split: if_splits)
  then obtain reg err w where n: "NewRegistry L [] (d + 3) [] (Some v) opt = Ret (reg, err, w)"
    using assms f r
    by (cases "NewRegistry L [] (d + 3) [] (Some v) opt") (auto simp: setup_reg_def node_registry_def split: if_splits)
  from assms f r v n have "err = None \<and> reg = Some (fst (rs_Registry rs)) \<and> snd (rs_Registry rs) = rn \<and> fs1 = fs'"
    by (auto simp: setup_reg_def node_registry_def NewRegServer_def split: if_splits option.splits)
  with that f r v n show ?thesis by blast
qed

lemma main_serving:
  assumes "main_cmd L d fs as args = Ret (fs', Serving a reg)"
  obtains rv opt f where "NewRegistry L [] (d + 3) [] rv opt = Ret (Some reg, None, f)" and "a = Listening as"
proof -
  obtain flags where p: "parse_flags args (default_flags L) = Inr flags"
    using assms by (cases "parse_flags args (default_flags L)") (auto simp: main_cmd_def)
  obtain fs1 o1 where q: "prepare L fs flags = (fs1, o1)" by fastforce
  then obtain opt where o: "o1 = Options opt" using assms p by (cases o1) (auto simp: main_cmd_def)
  obtain fs2 r where s: "setup_reg L d fs1 opt = Ret (fs2, r)"
    using assms p q o by (cases "setup_reg L d fs1 opt") (auto simp: main_cmd_def)
  then obtain rs where r: "r = Inr rs" using assms p q o by (cases r) (auto simp: main_cmd_def)
  have "reg = fst (rs_Registry rs) \<and> a = Listening as"
    using assms p q o s r
    by (auto simp: main_cmd_def serve_def RegServer_Start_def Let_def split: sum.splits prod.splits option.splits)
  with that s [unfolded r] show ?thesis by (auto elim: setup_reg_cases)
qed

lemma main_panics:
  assumes "main_cmd L d fs as args = Panic p"
  obtains flags fs1 opt where "parse_flags args (default_flags L) = Inr flags" and "prepare L fs flags = (fs1, Options opt)"
    and "setup_reg L d fs1 opt = Panic p"
proof -
  obtain flags where p: "parse_flags args (default_flags L) = Inr flags"
    using assms by (cases "parse_flags args (default_flags L)") (auto simp: main_cmd_def)
  obtain fs1 o1 where q: "prepare L fs flags = (fs1, o1)" by fastforce
  then obtain opt where o: "o1 = Options opt" using assms p by (cases o1) (auto simp: main_cmd_def)
  have "setup_reg L d fs1 opt = Panic p"
    using assms p q o by (cases "setup_reg L d fs1 opt") (auto simp: main_cmd_def split: sum.splits)
  with that p q o show ?thesis by blast
qed

text \<open>The nodes that the library makes or parses have an ID, which opening the acceptor keeps.\<close>

definition node_ids_ok :: "('h, 'v, 'b, 's, 'f, 'z) nodelib_scheme \<Rightarrow> bool" where
  "node_ids_ok L \<longleftrightarrow> (\<forall>name i lfs ck sk es n. xn_New L name i lfs ck sk es = Inr n \<longrightarrow> nd_id n \<noteq> None)
     \<and> (\<forall>ss n rest. xn_ParseFromStrings L ss = Inr (n, rest) \<longrightarrow> nd_id n \<noteq> None)
     \<and> (\<forall>n. nd_id (fst (Node_OpenAcc L n)) = nd_id n)"

lemma close_regnode_id:
  assumes "node_ids_ok L" and "close_regnode L node ck sk ls = Ret (Inr (rn, rest))"
  shows "nd_id (rnf_Node rn) = nd_id node"
proof -
  have "\<exists>node' e. Node_OpenAcc L node = (node', e) \<and> rnf_Node rn = node'"
    using assms(2) by (auto simp: close_regnode_def with_line_def NewRegNode_def split: sum.splits prod.splits option.splits if_splits)
  with assms(1) show ?thesis by (metis node_ids_ok_def fst_conv)
qed

lemma ParseRegNode_id:
  assumes "node_ids_ok L" and "ParseRegNode L text = Ret (Inr (rn, rest))"
  shows "nd_id (rnf_Node rn) \<noteq> None"
proof -
  obtain node ck sk ls ss ls' where "close_regnode L node ck sk ls = Ret (Inr (rn, rest))" "xn_ParseFromStrings L ss = Inr (node, ls')"
    using assms(2)
    by (auto simp: ParseRegNode_def ParseRegNodeFromStrings_def with_line_def ext_def
        split: sum.split_asm prod.split_asm if_split_asm elim!: obind_RetE)
  then show ?thesis using close_regnode_id [OF assms(1)] assms(1) unfolding node_ids_ok_def by metis
qed

lemma create_node_id:
  assumes "node_ids_ok L" and "create_node L d fs opt = (fs', Some rn)"
  shows "nd_id (rnf_Node rn) \<noteq> None"
proof -
  obtain node i ck sk es where "xn_New L ''xlReg'' i (opt_Lfs opt) ck sk es = Inr node" "rnf_Node rn = fst (Node_OpenAcc L node)"
    using assms(2) by (auto simp: create_node_def NewRegNode_def Let_def split: sum.splits prod.splits option.splits)
  with assms(1) show ?thesis unfolding node_ids_ok_def by metis
qed

lemma find_node_id:
  assumes "node_ids_ok L" and "find_node L d fs opt = Ret (fs', Inr (Some rn))"
  shows "regnode_view rn \<noteq> None"
proof -
  have "nd_id (rnf_Node rn) \<noteq> None"
    using assms(2) create_node_id [OF assms(1), of d fs opt fs' rn] ParseRegNode_id [OF assms(1)]
    by (auto simp: find_node_def split: sum.split_asm if_split_asm prod.split_asm elim!: obind_RetE)
  then show ?thesis by (simp add: regnode_view_def Let_def)
qed

lemma find_node_panics:
  assumes "find_node L d fs opt = Panic p"
  shows "\<exists>text. fs_PathExists L fs (config_file opt) = Inr True \<and> fs_ReadFile L fs (config_file opt) = Inr text
     \<and> ParseRegNode L text = Panic p"
proof -
  have "fs_PathExists L fs (config_file opt) = Inr True"
    using assms by (auto simp: find_node_def split: sum.splits if_splits prod.splits)
  moreover from this obtain s where t: "fs_ReadFile L fs (config_file opt) = Inr s"
    using assms by (auto simp: find_node_def split: sum.splits)
  ultimately have "ParseRegNode L s = Panic p"
    using assms by (cases "ParseRegNode L s") (auto simp: find_node_def split: sum.splits)
  with t \<open>fs_PathExists L fs (config_file opt) = Inr True\<close> show ?thesis by blast
qed

lemma setup_reg_panics:
  assumes "node_ids_ok L" and "setup_reg L d fs opt = Panic p" and "opt_Logger opt" and "opt_GlobalEndPoint opt \<noteq> None"
  shows "\<exists>text. fs_PathExists L fs (config_file opt) = Inr True \<and> fs_ReadFile L fs (config_file opt) = Inr text
     \<and> ParseRegNode L text = Panic p"
proof (cases "find_node L d fs opt")
  case (Ret x)
  obtain fs' r where x: "x = (fs', r)" by fastforce
  with assms Ret obtain rn where r: "r = Inr rn" by (cases r) (auto simp: setup_reg_def)
  show ?thesis
  proof (cases rn)
    case None
    with assms Ret x r show ?thesis by (auto simp: setup_reg_def NewRegistry_def split: sum.splits)
  next
    case (Some n)
    then have "regnode_view n = None"
      using assms(2-4) Ret x r NewRegistry_no_panic [OF assms(4), of L "[]" "d + 3" "[]" "regnode_view n" p]
      by (cases "NewRegistry L [] (d + 3) [] (regnode_view n) opt")
        (auto simp: setup_reg_def node_registry_def split: option.splits)
    with Some Ret x r find_node_id [OF assms(1), of d fs opt fs' n] show ?thesis by simp
  qed
next
  case (Panic q)
  with assms have "q = p" by (simp add: setup_reg_def)
  with find_node_panics [OF Panic] show ?thesis by simp
next
  case Hang
  with assms show ?thesis by (simp add: setup_reg_def)
qed

section \<open>Starting again\<close>

text \<open>The libraries of a later process, which maps its filter from what an earlier one left in the file.\<close>

definition later :: "'b \<Rightarrow> ('h, 'v, 'b, 's, 'f, 'z) nodelib_scheme \<Rightarrow> ('h, 'v, 'b, 's, 'f, 'z) nodelib_scheme" where
  "later filt L = L\<lparr>NewMappedBloomSHA := \<lambda>m k f. Inr filt\<rparr>"

lemma ParseRegNode_later:
  assumes "lines_ok L" and "node_reads_back L (rnf_Node rn)" and "key_reads_back L (rnf_ckPriv rn)" and "key_reads_back L (rnf_skPriv rn)"
    and "Node_OpenAcc L ((rnf_Node rn)\<lparr>nd_acc := None\<rparr>) = (rnf_Node rn, None)" and "nd_acc (rnf_Node rn) = Some (rnf_Acc rn)"
  shows "ParseRegNode (later filt L) (RegNode_String L rn) = Ret (Inr (rn, []))"
proof -
  have "RegNode_String (later filt L) rn = RegNode_String L rn"
    by (simp add: RegNode_String_def RegNode_Strings_def later_def)
  moreover have "ParseRegNode (later filt L) (RegNode_String (later filt L) rn) = Ret (Inr (rn, []))"
    using assms by (intro ParseRegNode_printed) (simp_all add: later_def lines_ok_def node_reads_back_def key_reads_back_def)
  ultimately show ?thesis by simp
qed

lemma NewRegistry_later:
  assumes "NewRegistry L [] d [] (Some v) opt = Ret (Some reg, None, f)" and "opt_BackingFile opt \<noteq> []"
    and "bf_IsMember L filt (Value (bn_id (rn_BaseNode v))) = Inr True"
  shows "\<exists>r g. NewRegistry (later filt L) [] d' [] (Some v) opt = Ret (Some r, Some IDAlreadyInUse, g)"
proof -
  have "RegCred_String (later filt L) c = RegCred_String L c" for c
    by (simp add: RegCred_String_def later_def)
  note s = this [unfolded later_def]
  show ?thesis
    using assms
    by (auto simp: NewRegistry_def s Let_def insert_own_id_def InsertID_def later_def
        split: sum.splits option.splits if_splits)
qed

section \<open>Properties\<close>

text \<open>C5. The whole program, from the arguments of the command on: when \<open>main\<close> has come to serve, then
  whatever connections are accepted, whatever they send and however the sections of their handlers
  overlap, the registry only grows, its indexes stay sound, its own ID stays registered, as do
  those of all clusters and members, and every session's client and cluster are there; a client that
  has joined is a member of its cluster.\<close>

theorem command_run_safe:
  assumes "libs_ok L" and "main_cmd L d fs as args = Ret (fs', Serving a reg)"
    and "overlap_reaches L version (a, reg, []) (b, g, ls)"
  shows "loose_inv L g \<and> reg_le L reg g \<and> known L g (Value (own_id reg)) \<and> (\<forall>l \<in> set ls. goroutine_inv L g l)"
proof -
  obtain rv opt f where n: "NewRegistry L [] (d + 3) [] rv opt = Ret (Some reg, None, f)" "a = Listening as"
    using assms(2) by (rule main_serving)
  from overlap_run_keeps [OF assms(1) n(1) assms(3) [unfolded n(2)]] show ?thesis by simp
qed

text \<open>C12. What the command does before it serves panics in one case only: there is a configuration file
  and its parser panics on the text. Whatever the flags are, the logger, the global end point and the
  node's ID are there when they are used. (Nodes that the library makes or parses have an ID.)\<close>

theorem main_panics_only_on_config:
  assumes "node_ids_ok L"
  shows "main_cmd L d fs as args = Panic p \<longleftrightarrow>
    (\<exists>flags fs1 opt text. parse_flags args (default_flags L) = Inr flags \<and> prepare L fs flags = (fs1, Options opt)
      \<and> fs_PathExists L fs1 (config_file opt) = Inr True \<and> fs_ReadFile L fs1 (config_file opt) = Inr text
      \<and> ParseRegNode L text = Panic p)"
proof
  assume "main_cmd L d fs as args = Panic p"
  then obtain flags fs1 opt where p: "parse_flags args (default_flags L) = Inr flags"
    and *: "prepare L fs flags = (fs1, Options opt)" "setup_reg L d fs1 opt = Panic p"
    by (rule main_panics)
  from setup_reg_panics [OF assms *(2) prepare_options(1,3) [OF *(1)]] p *(1)
  show "\<exists>flags fs1 opt text. parse_flags args (default_flags L) = Inr flags \<and> prepare L fs flags = (fs1, Options opt)
      \<and> fs_PathExists L fs1 (config_file opt) = Inr True \<and> fs_ReadFile L fs1 (config_file opt) = Inr text
      \<and> ParseRegNode L text = Panic p" by blast
next
  assume "\<exists>flags fs1 opt text. parse_flags args (default_flags L) = Inr flags \<and> prepare L fs flags = (fs1, Options opt)
      \<and> fs_PathExists L fs1 (config_file opt) = Inr True \<and> fs_ReadFile L fs1 (config_file opt) = Inr text
      \<and> ParseRegNode L text = Panic p"
  then obtain flags fs1 opt s where *: "parse_flags args (default_flags L) = Inr flags" "prepare L fs flags = (fs1, Options opt)"
      "fs_PathExists L fs1 (config_file opt) = Inr True" "fs_ReadFile L fs1 (config_file opt) = Inr s" "ParseRegNode L s = Panic p"
    by blast
  then have "setup_reg L d fs1 opt = Panic p" using prepare_options(1) [OF *(2)] by (simp add: setup_reg_def find_node_def)
  with *(1,2) show "main_cmd L d fs as args = Panic p" by (simp add: main_cmd_def)
qed

text \<open>C36. The options that \<open>main\<close> hands on: there is a logger and a global end point, the parameters of
  the filter are at least 2, and the filter has a file exactly if the server is not ephemeral.\<close>

theorem options_in_range:
  assumes "prepare L fs flags = (fs', Options opt)"
  shows "opt_Logger opt \<and> 2 \<le> opt_K opt \<and> 2 \<le> opt_M opt \<and> opt_GlobalEndPoint opt \<noteq> None
     \<and> (opt_BackingFile opt = [] \<longleftrightarrow> opt_Ephemeral opt)"
  using prepare_options [OF assms] by simp

text \<open>C10. A registry with a filter on file cannot be started again. After any run of the server that
  \<open>setup\<close> made, a process that finds the configuration file and the filter of that run is refused with
  \<open>IDAlreadyInUse\<close>: the filter has the registry's own ID. The flag that is to clear the filter is
  not read.\<close>

theorem restart_refused:
  assumes "libs_ok L" and "lines_ok L" and "setup_reg L d fs opt = Ret (fs', Inr rs)"
    and "rs_Registry rs = (reg, rn)" and "server_reaches L version (Listening as, reg, []) (a, g, ls)"
    and "opt_BackingFile opt \<noteq> []"
    and "fs_PathExists L fs2 (config_file opt) = Inr True"
    and "fs_ReadFile L fs2 (config_file opt) = Inr (RegNode_String L rn)"
    and "node_reads_back L (rnf_Node rn)" and "key_reads_back L (rnf_ckPriv rn)" and "key_reads_back L (rnf_skPriv rn)"
    and "Node_OpenAcc L ((rnf_Node rn)\<lparr>nd_acc := None\<rparr>) = (rnf_Node rn, None)" and "nd_acc (rnf_Node rn) = Some (rnf_Acc rn)"
  shows "setup_reg (later (reg_idFilter g) L) d2 fs2 opt = Ret (fs2, Inl IDAlreadyInUse)"
proof -
  obtain v f where v: "regnode_view rn = Some v" "NewRegistry L [] (d + 3) [] (Some v) opt = Ret (Some reg, None, f)"
    using assms(3,4) by (auto elim!: setup_reg_cases)
  have "own_id reg = bn_id (rn_BaseNode v)"
    using v(2) by (auto elim!: NewRegistry_made simp: own_id_def InsertID_def split: sum.splits if_splits)
  then have "bf_IsMember L (reg_idFilter g) (Value (bn_id (rn_BaseNode v))) = Inr True"
    using server_run_keeps [OF assms(1) v(2) assms(5)] by (simp add: known_def)
  from NewRegistry_later [OF v(2) assms(6) this] obtain r h where
    "NewRegistry (later (reg_idFilter g) L) [] (d2 + 3) [] (Some v) opt = Ret (Some r, Some IDAlreadyInUse, h)" by blast
  moreover have "find_node (later (reg_idFilter g) L) d2 fs2 opt = Ret (fs2, Inr (Some rn))"
    using ParseRegNode_later [OF assms(2,9-13)] assms(7,8) by (simp add: find_node_def later_def)
  moreover have "opt_Logger opt" using assms(3) by (simp add: setup_reg_def split: if_splits)
  ultimately show ?thesis by (simp add: setup_reg_def node_registry_def v(1))
qed

text \<open>When there is no configuration file, whatever error keeps \<open>setup\<close> from making a node is lost:
  it reports that the node is nil.\<close>

theorem setup_error_lost:
  assumes "opt_Logger opt" and "fs_PathExists L fs (config_file opt) = Inr False"
    and "ParseDecimalVersion L VERSION = Inr v"
    and "(\<exists>e. NewTcpEndPoint L (opt_Address opt @ '':'' @ opt_Port opt) = Inl e) \<or> (\<exists>e. GenerateKey L (d + 1) = Inl e)
     \<or> (\<exists>e. GenerateKey L (d + 2) = Inl e)"
  shows "setup_reg L d fs opt = Ret (fs, Inl NilRegNode)"
proof -
  have "create_node L d fs opt = (fs, None)"
    using assms(4) by (auto simp: create_node_def Let_def split: sum.splits)
  with assms(1-3) show ?thesis by (simp add: setup_reg_def find_node_def NewRegistry_def)
qed

section \<open>Sample runs\<close>

definition test_opt :: RegOptions where
  "test_opt = \<lparr>opt_Address = ''127.0.0.1'', opt_BackingFile = path_Join ''./myApp/xlReg'' ''idFilter.dat'',
     opt_ClearFilter = False, opt_EndPoint = None, opt_Ephemeral = False,
     opt_GlobalEndPoint = Some (EndPoint ''127.0.0.1:45678''), opt_K = 8, opt_Lfs = ''./myApp/xlReg'', opt_Logger = True,
     opt_M = 20, opt_Name = [], opt_Port = ''45678'', opt_Testing = True, opt_T = ha_MAX_W ephlib, opt_Verbose = False\<rparr>"

lemma test_end: "field_value ''127.0.0.1:45678''"
  by code_simp

lemma test_port: "fmt_int 45678 = ''45678''"
proof -
  have "digit_char 4 = CHR ''4''" "digit_char 5 = CHR ''5''" "digit_char 6 = CHR ''6''" "digit_char 7 = CHR ''7''" "digit_char 8 = CHR ''8''"
    by code_simp+
  then show ?thesis by (simp add: fmt_int_def fmt_d.simps)
qed

lemma test_flags:
  "parse_flags [''-T''] (default_flags ephlib) = Inr ((default_flags ephlib)\<lparr>fl_testing := True\<rparr>)"
proof -
  have "flag_arg ''-T'' = Flag ''T'' None" by code_simp
  then show ?thesis by (simp add: bool_flag_def parse_flags.simps(2))
qed

lemma test_prepare: "prepare ephlib fs ((default_flags ephlib)\<lparr>fl_testing := True\<rparr>) = (fs, Options test_opt)"
  using test_end test_port
  by (simp add: prepare_def default_flags_def fixups_def sanity_def make_options_def test_opt_def ephlib_def Let_def
      DEFAULT_ADDR_def DEFAULT_GLOBAL_ADDR_def DEFAULT_NAME_def DEFAULT_LFS_def DEFAULT_PORT_def TEST_DEFAULT_PORT_def
      DEFAULT_K_def DEFAULT_M_def)

lemma test_logger: "opt_Logger test_opt"
  by (simp add: test_opt_def)

lemma test_registry: "\<exists>reg f. NewRegistry ephlib [] d [] (Some v) test_opt = Ret (Some reg, None, f)"
  by (simp add: NewRegistry_def ephlib_def test_opt_def insert_own_id_def InsertID_def Let_def)

lemma test_served:
  assumes "find_node ephlib 0 fs test_opt = Ret (fs', Inr (Some rn))" and "nd_id (rnf_Node rn) \<noteq> None"
  shows "\<exists>rs. setup_reg ephlib 0 fs test_opt = Ret (fs', Inr rs) \<and> snd (rs_Registry rs) = rn"
proof -
  obtain v where v: "regnode_view rn = Some v" using assms(2) by (auto simp: regnode_view_def Let_def)
  obtain reg f where "NewRegistry ephlib [] 3 [] (Some v) test_opt = Ret (Some reg, None, f)"
    using test_registry by blast
  then show ?thesis
    by (simp add: setup_reg_def test_logger assms(1) node_registry_def v NewRegServer_def)
qed

lemma test_setup: "\<exists>fs' rs. setup_reg ephlib 0 [] test_opt = Ret (fs', Inr rs)"
proof -
  have e: "NewTcpEndPoint ephlib (opt_Address test_opt @ '':'' @ opt_Port test_opt) = Inr (EndPoint ''127.0.0.1:45678'')"
    using test_end by (simp add: test_opt_def ephlib_def)
  obtain fs' rn where "create_node ephlib 0 [] test_opt = (fs', Some rn)" and i: "nd_id (rnf_Node rn) \<noteq> None"
    unfolding create_node_def e Let_def by (simp add: ephlib_def NewRegNode_def ref_xnode_def)
  then have "find_node ephlib 0 [] test_opt = Ret (fs', Inr (Some rn))"
    by (simp add: find_node_def) (simp add: ephlib_def)
  from test_served [OF this i] show ?thesis by blast
qed

theorem options_in_range_witness:
  "prepare ephlib [] ((default_flags ephlib)\<lparr>fl_testing := True\<rparr>) = ([], Options test_opt) \<and> 2 \<le> opt_M test_opt"
  using options_in_range [OF test_prepare [of "[]"]] test_prepare by simp

theorem command_run_safe_witness:
  "\<exists>fs' a reg. main_cmd ephlib 0 [] [] [''-T''] = Ret (fs', Serving a reg) \<and> loose_inv ephlib reg \<and> known ephlib reg (Value (own_id reg))"
proof -
  obtain fs' rs where s: "setup_reg ephlib 0 [] test_opt = Ret (fs', Inr rs)" using test_setup by blast
  then have m: "main_cmd ephlib 0 [] [] [''-T''] = Ret (fs', Serving (Listening []) (fst (rs_Registry rs)))"
    by (simp add: main_cmd_def test_flags test_prepare serve_def RegServer_Start_def Let_def) (simp add: ephlib_def)
  from command_run_safe [OF ephlib_libs m overlap_reaches.start] m show ?thesis by auto
qed

definition bad_config :: string where
  "bad_config = ''regNode {'' @ newline @ ''x'' @ newline @ ''y'' @ newline @ ''ckPriv''"

lemma bad_config_panics: "ParseRegNode ephlib bad_config = Panic IndexOutOfRange"
proof -
  have l: "lines_ok ephlib" using nlib_lines by (simp add: lines_ok_def ephlib_def)
  have "split_nl bad_config = [''regNode {'', ''x'', ''y'', ''ckPriv'']" by code_simp
  moreover have "NextNBLine ephlib (''regNode {'' # ls) = (Inr ''regNode {'', ls)" for ls
    using NextNBLine_solid [OF l, of "[]" "''regNode {''"] solid_key(3) by simp
  moreover have "NextNBLine ephlib [''ckPriv''] = (Inr ''ckPriv'', [])"
    using NextNBLine_solid [OF l, of "[]" "''ckPriv''"] by (simp add: solid_def is_space_def)
  moreover have "Split ''ckPriv'' '': '' = [''ckPriv'']" by code_simp
  ultimately show ?thesis
    by (simp add: ParseRegNode_def ParseRegNodeFromStrings_def with_line_def private_key_def Let_def)
      (simp add: ephlib_def with_line_def private_key_def Let_def)
qed

lemma ephlib_node_ids: "node_ids_ok ephlib"
  by (auto simp: node_ids_ok_def ephlib_def ref_xnode_def split: if_splits list.splits)

theorem main_panics_only_on_config_witness:
  "main_cmd ephlib 0 [(config_file test_opt, bad_config)] [] [''-T''] = Panic IndexOutOfRange"
proof -
  let ?fs = "[(config_file test_opt, bad_config)]"
  have "fs_PathExists ephlib ?fs (config_file test_opt) = Inr True" "fs_ReadFile ephlib ?fs (config_file test_opt) = Inr bad_config"
    by (simp_all add: ephlib_def)
  then show ?thesis
    unfolding main_panics_only_on_config [OF ephlib_node_ids] using test_flags test_prepare [of ?fs] bad_config_panics by blast
qed

definition test_files :: ref_files where
  "test_files = [(config_file test_opt, RegNode_String ephlib ref_regnode)]"

lemma test_reads_back:
  "lines_ok ephlib" "node_reads_back ephlib (rnf_Node ref_regnode)" "key_reads_back ephlib (ref_key 33)"
proof -
  show "lines_ok ephlib" using nlib_lines by (simp add: lines_ok_def ephlib_def)
  show "node_reads_back ephlib (rnf_Node ref_regnode)"
    using ref_regnode_reads_back by (simp add: node_reads_back_def ephlib_def)
  show "key_reads_back ephlib (ref_key 33)"
    using nlib_key [of 33] by (simp add: key_reads_back_def ephlib_def)
qed

lemma test_restart_parse: "ParseRegNode ephlib (RegNode_String ephlib ref_regnode) = Ret (Inr (ref_regnode, []))"
  using test_reads_back by (intro ParseRegNode_printed) (simp_all add: ref_regnode_def ephlib_def ref_xnode_def)

lemma test_setup_again: "\<exists>rs. setup_reg ephlib 0 test_files test_opt = Ret (test_files, Inr rs) \<and> snd (rs_Registry rs) = ref_regnode"
proof -
  have "find_node ephlib 0 test_files test_opt = Ret (test_files, Inr (Some ref_regnode))"
    using test_restart_parse by (simp add: find_node_def) (simp add: ephlib_def test_files_def)
  then show ?thesis using test_served by (simp add: ref_regnode_def ref_xnode_def)
qed

theorem restart_refused_witness:
  "\<exists>rs. setup_reg ephlib 0 test_files test_opt = Ret (test_files, Inr rs)
     \<and> setup_reg (later (reg_idFilter (fst (rs_Registry rs))) ephlib) 0 test_files test_opt = Ret (test_files, Inl IDAlreadyInUse)"
proof -
  obtain rs where s: "setup_reg ephlib 0 test_files test_opt = Ret (test_files, Inr rs)" "snd (rs_Registry rs) = ref_regnode"
    using test_setup_again by blast
  then have r: "rs_Registry rs = (fst (rs_Registry rs), ref_regnode)" by (metis prod.collapse)
  have f: "opt_BackingFile test_opt \<noteq> []" "fs_PathExists ephlib test_files (config_file test_opt) = Inr True"
    "fs_ReadFile ephlib test_files (config_file test_opt) = Inr (RegNode_String ephlib ref_regnode)"
    by (simp add: test_opt_def) (simp_all add: test_files_def ephlib_def)
  have k: "key_reads_back ephlib (rnf_ckPriv ref_regnode)" "key_reads_back ephlib (rnf_skPriv ref_regnode)"
    "Node_OpenAcc ephlib ((rnf_Node ref_regnode)\<lparr>nd_acc := None\<rparr>) = (rnf_Node ref_regnode, None)"
    "nd_acc (rnf_Node ref_regnode) = Some (rnf_Acc ref_regnode)"
    using test_reads_back(3) by (simp_all add: ref_regnode_def ref_xnode_def) (simp add: ephlib_def)
  have "setup_reg (later (reg_idFilter (fst (rs_Registry rs))) ephlib) 0 test_files test_opt = Ret (test_files, Inl IDAlreadyInUse)"
    by (rule restart_refused [OF ephlib_libs test_reads_back(1) s(1) r server_reaches.refl f test_reads_back(2) k])
  with s show ?thesis by blast
qed

theorem setup_error_lost_witness:
  "setup_reg (ephlib\<lparr>GenerateKey := \<lambda>d. Inl ''no entropy''\<rparr>) 0 [] test_opt = Ret ([], Inl NilRegNode)"
  by (rule setup_error_lost [where v = 7]) (simp_all add: ephlib_def test_opt_def)

end
