(* ===== verification/Clients.thy ===== *)
theory Clients
  imports NodeLib "HOL-Library.Sublist"
begin

text \<open>
  The clients: how a \<open>MemberMaker\<close> is made, connects and is stored (\<open>memberNode.go\<close>), and what the
  administrative, solitary and user clients and the bootstrapper do with it (\<open>admin_client.go\<close>,
  \<open>solo_client.go\<close>, \<open>user_client.go\<close>, \<open>bootstrap.go\<close>). The goroutine of a client is a function of its
  connection; what it sends to the channel \<open>DoneCh\<close> is its result.
\<close>

section \<open>What the clients use besides\<close>

text \<open>
  The attribute bits (\<open>xlCluster_go\<close>), the text forms of a node and of a cluster member, and
  \<open>os.Stat\<close>.
\<close>

datatype stat = Present | NotExist | StatError string

record ('h, 'v, 'b, 's, 'f) memberlib = "('h, 'v, 'b, 's, 'f) nodelib" +
  ATTR_ADMIN :: u64
  ATTR_SOLO :: u64
  ATTR_EPHEMERAL :: u64
  Node_String :: "Node \<Rightarrow> string"
  ClusterMember_String :: "'s MemberMaker \<Rightarrow> string"
  fs_Stat :: "'f \<Rightarrow> string \<Rightarrow> stat"

text \<open>The attributes are different bits.\<close>

definition attrs_ok :: "('h, 'v, 'b, 's, 'f, 'z) memberlib_scheme \<Rightarrow> bool" where
  "attrs_ok L \<longleftrightarrow> ATTR_SOLO L \<noteq> 0 \<and> ATTR_ADMIN L \<noteq> 0 \<and> ATTR_EPHEMERAL L AND (ATTR_SOLO L OR ATTR_ADMIN L) = 0
     \<and> ATTR_SOLO L AND ATTR_ADMIN L = 0"

section \<open>Making a member\<close>

text \<open>The loop that adds the end points; an error is overwritten by the next turn.\<close>

fun add_ends ::
  "('h, 'v, 'b, 's, 'f, 'z) nodelib_scheme \<Rightarrow> EndPoint list \<Rightarrow> nat list \<Rightarrow> Node \<Rightarrow> gerror option \<Rightarrow> (Node \<times> gerror option) outcome" where
  "add_ends L endPoints [] node err = Ret (node, err)"
| "add_ends L endPoints (i # is) node err =
     (if i < length endPoints then
        (case Node_AddEndPoint L node (endPoints ! i) of (node, e) \<Rightarrow> add_ends L endPoints is node (map_option Ext e))
      else Panic IndexOutOfRange)"

text \<open>
  The checks for a member of a cluster. The check of the size is never reached. Without end points the
  error is set, but the loop runs all the same.
\<close>

definition check_member ::
  "('h, 'v, 'b, 's, 'f, 'z) nodelib_scheme \<Rightarrow> bool \<Rightarrow> string \<Rightarrow> u32 \<Rightarrow> EndPoint list \<Rightarrow> Node \<Rightarrow> (Node \<times> u32 \<times> gerror option) outcome" where
  "check_member L isAdmin clusterName epCount endPoints node =
     (if clusterName = [] then Ret (node, epCount, Some MissingClusterNameOrID)
      else let epCount = (if epCount < 1 then 1 else epCount)
           in if isAdmin then Ret (node, epCount, None)
              else let actual = word_of_nat (length endPoints);
                       err = (if actual = 0 then Some MemberMustHaveEndPoint else None);
                       epCount = (if actual \<noteq> 0 \<and> epCount > actual then actual else epCount)
                   in obind (add_ends L endPoints [0..<unat epCount] node err) (\<lambda>(node, err). Ret (node, epCount, err)))"

text \<open>The peer for the registry, which also becomes a peer of the node.\<close>

definition make_reg_peer ::
  "('h, 'v, 'b, 's, 'f, 'z) nodelib_scheme \<Rightarrow> string \<Rightarrow> nodeID \<Rightarrow> EndPoint \<Rightarrow> rsa_pub option \<Rightarrow> rsa_pub option \<Rightarrow> Node \<Rightarrow>
   gerror + (Node \<times> Peer)" where
  "make_reg_peer L regName regID regEnd regCK regSK node =
     (case NewTcpConnector L regEnd of
        Inl e \<Rightarrow> Inl (Ext e)
      | Inr ctor \<Rightarrow>
     (case NewPeer L regName regID regCK regSK [ctor] of
        Inl e \<Rightarrow> Inl (Ext e)
      | Inr regPeer \<Rightarrow>
     (case Node_AddPeer L node regPeer of
        (node, Some e) \<Rightarrow> Inl (Ext e)
      | (node, None) \<Rightarrow> Inr (node, regPeer))))"

text \<open>The server as a client knows it.\<close>

record ServerInfo =
  si_name :: string
  si_id :: "nodeID option"
  si_end :: "EndPoint option"
  si_ck :: "rsa_pub option"
  si_sk :: "rsa_pub option"

definition NewMemberMaker ::
  "('h, 'v, 'b, 's, 'f, 'z) memberlib_scheme \<Rightarrow> nat \<Rightarrow> Node option \<Rightarrow> u64 \<Rightarrow> ServerInfo \<Rightarrow> string \<Rightarrow> u64 \<Rightarrow> nodeID option \<Rightarrow>
   u32 \<Rightarrow> u32 \<Rightarrow> EndPoint list \<Rightarrow> (gerror + 's MemberMaker) outcome" where
  "NewMemberMaker L draws node attrs reg clusterName clusterAttrs clusterID maxSize epCount endPoints =
     (case node of
        None \<Rightarrow> Ret (Inl MissingNode)
      | Some node \<Rightarrow>
     (case (si_id reg, si_end reg) of
        (Some regID, Some regEnd) \<Rightarrow>
          if si_name reg = [] \<or> si_ck reg = None then Ret (Inl MissingServerInfo)
          else
            obind (if attrs AND ATTR_SOLO L = 0
                   then check_member L (attrs AND ATTR_ADMIN L \<noteq> 0) clusterName epCount endPoints node
                   else Ret (node, epCount, None)) (\<lambda>(node, epCount, err).
            case err of
              Some e \<Rightarrow> Ret (Inl e)
            | None \<Rightarrow>
            (case make_reg_peer L (si_name reg) regID regEnd (si_ck reg) (si_sk reg) node of
               Inl e \<Rightarrow> Ret (Inl e)
             | Inr (node, regPeer) \<Rightarrow>
                 Ret (Inr \<lparr>mm_Session = AesSession_zero L, mm_ProposedAttrs = attrs, mm_Attrs = 0, mm_RegPeer = regPeer,
                           mm_Node = node, mm_ClusterName = clusterName, mm_ClusterAttrs = clusterAttrs,
                           mm_ClusterID = clusterID, mm_ClusterMaxSize = maxSize, mm_EPCount = epCount,
                           mm_Members = Some (replicate (unat maxSize) None), mm_SelfIndex = 0, mm_draws = draws\<rparr>)))
      | _ \<Rightarrow> Ret (Inl MissingServerInfo)))"

section \<open>Connecting\<close>

text \<open>
  The hello: a one-time session, the reply, and the session from then on. The connection is returned
  with an error once there is one.
\<close>

definition client_hello ::
  "('h, 'v, 'b, 's, 'f, 'z) nodelib_scheme \<Rightarrow> u32 \<Rightarrow> 's MemberMaker \<Rightarrow> TcpConnection \<Rightarrow> 's MemberMaker \<times> TcpConnection \<times> u32 \<times> gerror option" where
  "client_hello L proposedVersion mm cnx =
     (case ClientEncryptHello L proposedVersion (bn_ck (mm_RegPeer mm)) of
        Inl e \<Rightarrow> (mm, cnx, 0, Some (Ext e))
      | Inr (cOneShot, ciphertext1) \<Rightarrow>
     (case WriteData ciphertext1 cnx of
        (Some e, cnx) \<Rightarrow> (mm, cnx, 0, Some e)
      | (None, cnx) \<Rightarrow>
     (case ReadData cnx of (ciphertext2, err, cnx) \<Rightarrow>
      case (if slice_of ciphertext2 = [] \<and> err = None then Some IoEOF else err) of
        Some e \<Rightarrow> (mm, cnx, 0, Some e)
      | None \<Rightarrow>
     (case ClientDecryptHelloReply L cOneShot (slice_of ciphertext2) of
        Inl e \<Rightarrow> (mm, cnx, 0, Some (Ext e))
      | Inr (cSession, decidedVersion) \<Rightarrow> (mm\<lparr>mm_Session := cSession\<rparr>, cnx, decidedVersion, None)))))"

definition SessionSetup ::
  "('h, 'v, 'b, 's, 'f, 'z) nodelib_scheme \<Rightarrow> u32 \<Rightarrow> 's MemberMaker \<Rightarrow>
   ('s MemberMaker \<times> TcpConnection option \<times> u32 \<times> gerror option) outcome" where
  "SessionSetup L proposedVersion mm =
     (case pe_ctors (mm_RegPeer mm) of
        [] \<Rightarrow> Panic NilDereference
      | ctor # _ \<Rightarrow>
     (case Connect L ctor of
        Inl e \<Rightarrow> Ret (mm, None, 0, Some (Ext e))
      | Inr conn \<Rightarrow>
     (case NewCnxHandler (Some conn) of
        Inl e \<Rightarrow> Ret (mm, Some conn, 0, Some e)
      | Inr cnx \<Rightarrow>
          (case client_hello L proposedVersion (mm\<lparr>mm_Session := AesSession_zero L\<rparr>) cnx of
             (mm, cnx, version, err) \<Rightarrow> Ret (mm, Some cnx, version, err)))))"

section \<open>Storing\<close>

definition PersistNode ::
  "('h, 'v, 'b, 's, 'f, 'z) memberlib_scheme \<Rightarrow> 'f \<Rightarrow> 's MemberMaker \<Rightarrow> 'f \<times> gerror option" where
  "PersistNode L fs mm =
     (let lfs = nd_lfs (mm_Node mm);
          pathToCfgDir = path_Join lfs ''.xlattice'';
          pathToCfgFile = path_Join pathToCfgDir ''node.config''
      in case (case fs_PathExists L fs pathToCfgDir of
                 Inl e \<Rightarrow> (fs, Some e)
               | Inr found \<Rightarrow> if found then (fs, None) else fs_CheckLFS L fs pathToCfgDir) of
           (fs, Some e) \<Rightarrow> (fs, Some (Ext e))
         | (fs, None) \<Rightarrow>
             (case fs_WriteFile L fs pathToCfgFile (Node_String L (mm_Node mm)) of (fs, err) \<Rightarrow> (fs, map_option Ext err)))"

definition PersistClusterMember ::
  "('h, 'v, 'b, 's, 'f, 'z) memberlib_scheme \<Rightarrow> 'f \<Rightarrow> 's MemberMaker \<Rightarrow> 'f \<times> gerror option" where
  "PersistClusterMember L fs mn =
     (let lfs = nd_lfs (mm_Node mn);
          pathToCfgDir = path_Join lfs ''.xlattice'';
          pathToCfgFile = path_Join pathToCfgDir ''cluster.member.config''
      in case (case fs_Stat L fs pathToCfgDir of
                 Present \<Rightarrow> (fs, None)
               | NotExist \<Rightarrow> fs_CheckLFS L fs pathToCfgDir
               | StatError e \<Rightarrow> (fs, Some e)) of
           (fs, Some e) \<Rightarrow> (fs, Some (Ext e))
         | (fs, None) \<Rightarrow>
             (case fs_WriteFile L fs pathToCfgFile (ClusterMember_String L mn) of (fs, err) \<Rightarrow> (fs, map_option Ext err)))"

section \<open>Sequences of exchanges\<close>

text \<open>The next exchange takes place if there was no error.\<close>

definition and_then ::
  "('s MemberMaker \<times> gerror option \<times> TcpConnection) outcome \<Rightarrow>
   ('s MemberMaker \<Rightarrow> TcpConnection \<Rightarrow> ('s MemberMaker \<times> gerror option \<times> TcpConnection) outcome) \<Rightarrow>
   ('s MemberMaker \<times> gerror option \<times> TcpConnection) outcome" where
  "and_then m k = obind m (\<lambda>(mm, err, cnx). case err of Some e \<Rightarrow> Ret (mm, Some e, cnx) | None \<Rightarrow> k mm cnx)"

text \<open>A session: the hello, then the exchanges on the connection if it succeeded.\<close>

definition in_session ::
  "('h, 'v, 'b, 's, 'f, 'z) nodelib_scheme \<Rightarrow> 's MemberMaker \<Rightarrow>
   ('s MemberMaker \<Rightarrow> TcpConnection \<Rightarrow> ('s MemberMaker \<times> gerror option \<times> TcpConnection) outcome) \<Rightarrow>
   ('s MemberMaker \<times> gerror option \<times> TcpConnection option) outcome" where
  "in_session L mm k =
     obind (SessionSetup L 0 mm) (\<lambda>(mm, cnx, version2, err).
     case (cnx, err) of
       (Some c, None) \<Rightarrow> obind (k mm c) (\<lambda>(mm, err, c). Ret (mm, err, Some c))
     | _ \<Rightarrow> Ret (mm, err, cnx))"

definition close_cnx ::
  "('s MemberMaker \<times> gerror option \<times> TcpConnection option) outcome \<Rightarrow>
   ('s MemberMaker \<times> gerror option \<times> TcpConnection option) outcome" where
  "close_cnx m = obind m (\<lambda>(mm, err, cnx). Ret (mm, err, map_option Cnx_Close cnx))"

section \<open>The administrative client\<close>

text \<open>
  The errors of the inner calls are those of inner variables: the caller gets neither a client nor an
  error. When there is no ID it is printed all the same, through the nil pointer.
\<close>

definition NewAdminClient ::
  "('h, 'v, 'b, 's, 'f, 'z) memberlib_scheme \<Rightarrow> nat \<Rightarrow> ServerInfo \<Rightarrow> string \<Rightarrow> u64 \<Rightarrow> u32 \<Rightarrow> u32 \<Rightarrow> EndPoint list \<Rightarrow>
   ('s MemberMaker option \<times> gerror option) outcome" where
  "NewAdminClient L d server clusterName clusterAttrs maxSize epCount e =
     (case xi_Random L d of
        Inl e \<Rightarrow> Panic NilDereference
      | Inr nodeID \<Rightarrow>
     (case xn_NewNew L (d + 1) ''admin'' (Some nodeID) [] of
        Inl e \<Rightarrow> Ret (None, None)
      | Inr node \<Rightarrow>
     obind (NewMemberMaker L (d + 2) (Some node) (ATTR_ADMIN L OR ATTR_SOLO L OR ATTR_EPHEMERAL L) server
              clusterName clusterAttrs None maxSize epCount e) (\<lambda>r.
     case r of Inl e \<Rightarrow> Ret (None, None) | Inr cn \<Rightarrow> Ret (Some cn, None))))"

definition AdminClient_Start ::
  "('h, 'v, 'b, 's, 'f, 'z) nodelib_scheme \<Rightarrow> 's MemberMaker \<Rightarrow>
   ('s MemberMaker \<times> gerror option \<times> TcpConnection option) outcome" where
  "AdminClient_Start L mm =
     close_cnx (in_session L mm (\<lambda>mm cnx.
       and_then (Ret (MemberAndOK L mm cnx)) (\<lambda>mm cnx.
       and_then (Ret (CreateAndReply L mm cnx)) (\<lambda>mm cnx.
       Ret (ByeAndAck L mm cnx)))))"

section \<open>The solitary client\<close>

definition NewSoloMember ::
  "('h, 'v, 'b, 's, 'f, 'z) memberlib_scheme \<Rightarrow> nat \<Rightarrow> Node option \<Rightarrow> ServerInfo \<Rightarrow> EndPoint list \<Rightarrow>
   (gerror + 's MemberMaker) outcome" where
  "NewSoloMember L d node server e =
     NewMemberMaker L d node (ATTR_SOLO L) server [] 0 None 0 (word_of_nat (length e)) e"

text \<open>A trace file is created first; without it the client panics.\<close>

definition SoloMember_Start ::
  "('h, 'v, 'b, 's, 'f, 'z) memberlib_scheme \<Rightarrow> 'f \<Rightarrow> 's MemberMaker \<Rightarrow>
   ('f \<times> 's MemberMaker \<times> gerror option \<times> TcpConnection option) outcome" where
  "SoloMember_Start L fs cn =
     (case fs_OpenFile L fs ''junk.soloClient.log'' of
        (fs, Some e) \<Rightarrow> Panic (PanicCall e)
      | (fs, None) \<Rightarrow>
          obind (close_cnx (in_session L cn (\<lambda>cn cnx.
                   and_then (Ret (MemberAndOK L cn cnx)) (\<lambda>cn cnx. Ret (ByeAndAck L cn cnx))))) (\<lambda>(cn, err, cnx).
          case err of
            Some e \<Rightarrow> Ret (fs, cn, Some e, cnx)
          | None \<Rightarrow> (case PersistNode L fs cn of (fs, err) \<Rightarrow> Ret (fs, cn, err, cnx))))"

section \<open>The user's client\<close>

definition NewUserMember ::
  "('h, 'v, 'b, 's, 'f, 'z) memberlib_scheme \<Rightarrow> nat \<Rightarrow> string \<Rightarrow> string \<Rightarrow> rsa_priv \<Rightarrow> rsa_priv \<Rightarrow> ServerInfo \<Rightarrow>
   string \<Rightarrow> u64 \<Rightarrow> nodeID option \<Rightarrow> u32 \<Rightarrow> u32 \<Rightarrow> EndPoint list \<Rightarrow> ('s MemberMaker option \<times> gerror option) outcome" where
  "NewUserMember L d name lfs ckPriv skPriv server clusterName clusterAttrs clusterID maxSize epCount e =
     (case xi_Random L d of
        Inl e \<Rightarrow> Ret (None, Some (Ext e))
      | Inr nodeID \<Rightarrow>
     (let attrs = (if lfs = [] then ATTR_EPHEMERAL L else 0) in
      case xn_New L name (Some nodeID) lfs ckPriv skPriv [] of
        Inl e \<Rightarrow> Ret (None, None)
      | Inr node \<Rightarrow>
     obind (NewMemberMaker L (d + 1) (Some node) attrs server clusterName clusterAttrs clusterID maxSize epCount e) (\<lambda>r.
     case r of Inl e \<Rightarrow> Ret (None, None) | Inr mn \<Rightarrow> Ret (Some mn, None))))"

definition UserMember_Start ::
  "('h, 'v, 'b, 's, 'f, 'z) nodelib_scheme \<Rightarrow> 's MemberMaker \<Rightarrow>
   ('s MemberMaker \<times> gerror option \<times> TcpConnection option) outcome" where
  "UserMember_Start L mn =
     (case Node_OpenAcc L (mm_Node mn) of
        (node, Some e) \<Rightarrow> Ret (mn\<lparr>mm_Node := node\<rparr>, Some (Ext e), None)
      | (node, None) \<Rightarrow>
          close_cnx (in_session L (mn\<lparr>mm_Node := node\<rparr>) (\<lambda>mn cnx.
            and_then (Ret (MemberAndOK L mn cnx)) (\<lambda>mn cnx.
            and_then (JoinAndReply L mn cnx) (\<lambda>mn cnx.
            and_then (GetAndMembers L mn cnx) (\<lambda>mn cnx.
            Ret (ByeAndAck L mn cnx)))))))"

section \<open>The bootstrapper\<close>

definition NewBootstrapper ::
  "('h, 'v, 'b, 's, 'f, 'z) memberlib_scheme \<Rightarrow> nat \<Rightarrow> string \<Rightarrow> string \<Rightarrow> u64 \<Rightarrow> ServerInfo \<Rightarrow>
   string \<Rightarrow> u64 \<Rightarrow> nodeID option \<Rightarrow> u32 \<Rightarrow> u32 \<Rightarrow> EndPoint list \<Rightarrow> ('s MemberMaker option \<times> gerror option) outcome" where
  "NewBootstrapper L d name lfs attrs server clusterName clusterAttrs clusterID maxSize epCount e =
     (let attrs = (if lfs = [] then attrs OR ATTR_EPHEMERAL L else attrs) in
      case xi_Random L d of
        Inl e \<Rightarrow> Ret (None, Some (Ext e))
      | Inr nodeID \<Rightarrow>
     (case xn_NewNew L (d + 1) name (Some nodeID) lfs of
        Inl e \<Rightarrow> Ret (None, None)
      | Inr node \<Rightarrow>
     obind (NewMemberMaker L (d + 2) (Some node) attrs server clusterName clusterAttrs clusterID maxSize epCount e) (\<lambda>r.
     case r of Inl e \<Rightarrow> Ret (None, None) | Inr mn \<Rightarrow> Ret (Some mn, None))))"

text \<open>Joining leaves the connection open; \<open>Start\<close> says goodbye on it. Without one it is dereferenced.\<close>

definition Bootstrapper_JoinCluster ::
  "('h, 'v, 'b, 's, 'f, 'z) nodelib_scheme \<Rightarrow> 's MemberMaker \<Rightarrow>
   ('s MemberMaker \<times> gerror option \<times> TcpConnection option) outcome" where
  "Bootstrapper_JoinCluster L mn =
     in_session L mn (\<lambda>mn cnx.
       and_then (Ret (MemberAndOK L mn cnx)) (\<lambda>mn cnx.
       and_then (JoinAndReply L mn cnx) (\<lambda>mn cnx.
       GetAndMembers L mn cnx)))"

definition Bootstrapper_Start ::
  "('h, 'v, 'b, 's, 'f, 'z) nodelib_scheme \<Rightarrow> 's MemberMaker \<Rightarrow> TcpConnection option \<Rightarrow>
   ('s MemberMaker \<times> gerror option \<times> TcpConnection option) outcome" where
  "Bootstrapper_Start L mn cnx =
     (case cnx of
        Some c \<Rightarrow> close_cnx (case ByeAndAck L mn c of (mn, err, c) \<Rightarrow> Ret (mn, err, Some c))
      | None \<Rightarrow>
          (case EncodePadEncrypt L (mm_Session mn) (zeroMsg\<lparr>msg_Op := Some XLRegMsg_Bye\<rparr>) of
             (s, Inl e) \<Rightarrow> Ret (mn\<lparr>mm_Session := s\<rparr>, Some e, None)
           | (s, Inr data) \<Rightarrow> Panic NilDereference))"


section \<open>What the constructors return\<close>

text \<open>A peer has the connectors it is made with.\<close>

definition peer_ok :: "('h, 'v, 'b, 's, 'z) clientlib_scheme \<Rightarrow> bool" where
  "peer_ok L \<longleftrightarrow> (\<forall>nm i ck sk cs p. NewPeer L nm i ck sk cs = Inr p \<longrightarrow> pe_ctors p = cs)"

lemma make_reg_peer_ctors:
  assumes "peer_ok L" and "make_reg_peer L nm i e ck sk node = Inr (node', p)"
  shows "\<exists>ctor. NewTcpConnector L e = Inr ctor \<and> pe_ctors p = [ctor]"
  using assms by (auto simp: make_reg_peer_def peer_ok_def split: sum.splits prod.splits option.splits)

lemma add_ends_run:
  "\<forall>i \<in> set is. i < length es \<Longrightarrow> \<exists>node' err'. add_ends L es is node err = Ret (node', err')"
  by (induction "is" arbitrary: node err) (auto split: prod.splits)

lemma add_ends_panics: "\<not> (\<forall>i \<in> set is. i < length es) \<Longrightarrow> add_ends L es is node err = Panic IndexOutOfRange"
  by (induction "is" arbitrary: node err) (auto split: prod.splits)

text \<open>How many end points are taken.\<close>

definition taken :: "u32 \<Rightarrow> EndPoint list \<Rightarrow> nat" where
  "taken n es = (if es = [] then max 1 (unat n) else min (max 1 (unat n)) (length es))"

lemma check_member_taken:
  assumes "length es < 2 ^ 32" and "cn \<noteq> []"
  shows "check_member L False cn n es node =
    obind (add_ends L es [0..<taken n es] node (if es = [] then Some MemberMustHaveEndPoint else None))
      (\<lambda>(node, err). Ret (node, word_of_nat (taken n es), err))"
proof -
  let ?a = "word_of_nat (length es) :: u32"
  have u: "unat ?a = length es" using assms(1) by (simp add: unat_of_nat)
  define k where "k = (if n < 1 then 1 else n)"
  have k: "unat k = max 1 (unat n)" by (auto simp: k_def word_less_nat_alt)
  have a: "?a = 0 \<longleftrightarrow> es = []" using u by (metis length_0_conv unat_eq_0)
  define j where "j = (if ?a \<noteq> 0 \<and> k > ?a then ?a else k)"
  have j: "unat j = taken n es" using u k a by (auto simp: j_def taken_def word_less_nat_alt min_def)
  then have "word_of_nat (taken n es) = j" by (simp flip: j)
  moreover have "check_member L False cn n es node =
      obind (add_ends L es [0..<unat j] node (if ?a = 0 then Some MemberMustHaveEndPoint else None)) (\<lambda>(node, err). Ret (node, j, err))"
    unfolding check_member_def Let_def k_def [symmetric] j_def [symmetric] using assms(2) by (simp only: if_False)
  ultimately show ?thesis using a j by simp
qed

lemma add_ends_taken: "add_ends L es [0..<taken n es] node err = Panic IndexOutOfRange \<longleftrightarrow> es = []"
proof (cases "es = []")
  case True
  then have "0 \<in> set [0..<taken n es]" by (simp add: taken_def)
  then have "\<not> (\<forall>i \<in> set [0..<taken n es]. i < length es)" using True by force
  then have "add_ends L es [0..<taken n es] node err = Panic IndexOutOfRange" by (rule add_ends_panics)
  then show ?thesis using True by simp
next
  case False
  then have "\<forall>i \<in> set [0..<taken n es]. i < length es" by (simp add: taken_def)
  then show ?thesis using add_ends_run [of "[0..<taken n es]" es L node err] False by fastforce
qed

lemma NewMemberMaker_made:
  assumes "NewMemberMaker L d node attrs reg cn ca cid ms n es = Ret (Inr mm)"
  obtains nd nd1 nd2 regID regEnd where "node = Some nd" and "si_id reg = Some regID" and "si_end reg = Some regEnd"
    and "if attrs AND ATTR_SOLO L = 0 then check_member L (attrs AND ATTR_ADMIN L \<noteq> 0) cn n es nd = Ret (nd1, mm_EPCount mm, None)
         else nd1 = nd \<and> mm_EPCount mm = n"
    and "make_reg_peer L (si_name reg) regID regEnd (si_ck reg) (si_sk reg) nd1 = Inr (nd2, mm_RegPeer mm)"
    and "mm_Node mm = nd2" and "mm_Members mm = Some (replicate (unat ms) None)"
  using assms
  by (auto simp: NewMemberMaker_def obind_Ret_iff split: option.splits if_splits sum.splits prod.splits)

text \<open>
  What \<open>AddEndPoint\<close> and \<open>AddPeer\<close> do to the end points of a node: the one appends its argument or fails
  and leaves them as they are, the other does not touch them.
\<close>

definition ends_ok :: "('h, 'v, 'b, 's, 'f, 'z) nodelib_scheme \<Rightarrow> bool" where
  "ends_ok L \<longleftrightarrow> (\<forall>n e n' err. Node_AddEndPoint L n e = (n', err) \<longrightarrow> nd_ends n' = nd_ends n @ (if err = None then [e] else []))
     \<and> (\<forall>n p. nd_ends (fst (Node_AddPeer L n p)) = nd_ends n)"

lemma add_ends_ends:
  assumes "ends_ok L" and "add_ends L es is node err = Ret (node', err')"
  shows "\<exists>ts. nd_ends node' = nd_ends node @ ts \<and> subseq ts (map ((!) es) is)
     \<and> ((\<forall>n. \<forall>i \<in> set is. snd (Node_AddEndPoint L n (es ! i)) = None) \<longrightarrow> ts = map ((!) es) is)
     \<and> (is \<noteq> [] \<and> err' = None \<longrightarrow> ts \<noteq> [] \<and> last ts = es ! last is)"
  using assms(2)
proof (induction "is" arbitrary: node err)
  case Nil
  then show ?case by simp
next
  case (Cons i "is")
  let ?all = "\<lambda>is. \<forall>n. \<forall>i \<in> set is. snd (Node_AddEndPoint L n (es ! i)) = None"
  obtain n1 e where n1: "Node_AddEndPoint L node (es ! i) = (n1, e)" by fastforce
  with Cons.prems have r: "add_ends L es is n1 (map_option Ext e) = Ret (node', err')" by (simp split: if_splits)
  let ?t = "if e = None then [es ! i] else []"
  have h: "nd_ends n1 = nd_ends node @ ?t" using assms(1) n1 by (auto simp: ends_ok_def)
  obtain ts where ts: "nd_ends node' = nd_ends n1 @ ts" "subseq ts (map ((!) es) is)" "?all is \<longrightarrow> ts = map ((!) es) is"
      "is \<noteq> [] \<and> err' = None \<longrightarrow> ts \<noteq> [] \<and> last ts = es ! last is"
    using Cons.IH [OF r] by blast
  have "nd_ends node' = nd_ends node @ ?t @ ts" using h ts(1) by simp
  moreover have "subseq (?t @ ts) (map ((!) es) (i # is))" using ts(2) by auto
  moreover have "?all (i # is) \<longrightarrow> ?t @ ts = map ((!) es) (i # is)"
  proof
    assume a: "?all (i # is)"
    then have "snd (Node_AddEndPoint L node (es ! i)) = None" by simp
    with a ts(3) n1 show "?t @ ts = map ((!) es) (i # is)" by simp
  qed
  moreover have "err' = None \<longrightarrow> ?t @ ts \<noteq> [] \<and> last (?t @ ts) = es ! last (i # is)"
  proof (cases "is = []")
    case True
    then show ?thesis using r ts(2) by auto
  next
    case False
    then show ?thesis using ts(4) by auto
  qed
  ultimately show ?case by blast
qed

lemma make_reg_peer_ends:
  assumes "ends_ok L" and "make_reg_peer L nm i e ck sk node = Inr (node', p)"
  shows "nd_ends node' = nd_ends node"
proof -
  obtain p' where "Node_AddPeer L node p' = (node', None)"
    using assms(2) by (auto simp: make_reg_peer_def split: sum.splits prod.splits option.splits)
  then show ?thesis using assms(1) unfolding ends_ok_def by (metis fst_conv)
qed

text \<open>C32. A member that is neither solitary nor an administrator takes from one to all of its end points:
  the first of them, in order, as many as it asks for, at least one and at most those there are. Those
  its node accepts are added to the end points the node had. The last one is always among them; an
  earlier one may be missing, if the node refused it. An administrator's node gets none, and its
  number, which applies to the cluster, is only raised to one. Both need a name for the cluster.
\<close>

theorem member_maker_end_points:
  assumes "NewMemberMaker L d (Some nd) attrs reg cn ca cid ms n es = Ret (Inr mm)" and "attrs AND ATTR_SOLO L = 0"
    and "length es < 2 ^ 32" and "ends_ok L"
  shows "cn \<noteq> [] \<and>
    (if attrs AND ATTR_ADMIN L = 0 then
       let k = min (max 1 (unat n)) (length es) in
         0 < k \<and> unat (mm_EPCount mm) = k
         \<and> (\<exists>ts. nd_ends (mm_Node mm) = nd_ends nd @ ts \<and> subseq ts (take k es) \<and> ts \<noteq> [] \<and> last ts = es ! (k - 1)
              \<and> ((\<forall>n. \<forall>e \<in> set (take k es). snd (Node_AddEndPoint L n e) = None) \<longrightarrow> ts = take k es))
     else unat (mm_EPCount mm) = max 1 (unat n) \<and> nd_ends (mm_Node mm) = nd_ends nd)"
proof -
  obtain nd1 where c: "check_member L (attrs AND ATTR_ADMIN L \<noteq> 0) cn n es nd = Ret (nd1, mm_EPCount mm, None)"
      and e1: "nd_ends (mm_Node mm) = nd_ends nd1"
    by (rule NewMemberMaker_made [OF assms(1)]) (use assms(2) make_reg_peer_ends [OF assms(4)] in auto)
  then have cn: "cn \<noteq> []" by (auto simp: check_member_def)
  show ?thesis
  proof (cases "attrs AND ATTR_ADMIN L = 0")
    case True
    define k where "k = taken n es"
    let ?err = "if es = [] then Some MemberMustHaveEndPoint else None"
    have a: "add_ends L es [0..<k] nd ?err = Ret (nd1, None)" and w: "mm_EPCount mm = word_of_nat k"
      using c True check_member_taken [OF assms(3) cn, of L n nd] by (auto simp: obind_Ret_iff k_def split: prod.splits)
    have "es \<noteq> []" using a add_ends_taken [of L es n nd ?err] by (auto simp: k_def)
    then have k: "k = min (max 1 (unat n)) (length es)" "0 < k" "k \<le> length es" by (auto simp: k_def taken_def Suc_le_eq)
    have t: "map ((!) es) [0..<k] = take k es" using k(3) by (metis map_nth take_map take_upt add_0 nth_equalityI length_map length_take length_upt min.absorb2 nth_map_upt nth_take diff_zero)
    have l: "last [0..<k] = k - 1" using k(2) by simp
    have all_k: "(\<forall>n. \<forall>i \<in> set [0..<k]. snd (Node_AddEndPoint L n (es ! i)) = None)
        \<longleftrightarrow> (\<forall>n. \<forall>e \<in> set (take k es). snd (Node_AddEndPoint L n e) = None)"
      unfolding t [symmetric] by simp
    obtain ts where "nd_ends nd1 = nd_ends nd @ ts" "subseq ts (take k es)" "ts \<noteq> [] \<and> last ts = es ! (k - 1)"
        "(\<forall>n. \<forall>e \<in> set (take k es). snd (Node_AddEndPoint L n e) = None) \<longrightarrow> ts = take k es"
      using add_ends_ends [OF assms(4) a] k(2) unfolding t l all_k by auto
    moreover have "unat (mm_EPCount mm) = k" using w k(3) assms(3) by (simp add: unat_of_nat)
    ultimately show ?thesis using True cn e1 k(2) unfolding k(1) [symmetric] Let_def by auto
  next
    case False
    then show ?thesis using c cn e1 by (auto simp: check_member_def Let_def word_less_nat_alt split: if_splits)
  qed
qed

text \<open>C31. A member that is neither solitary nor an administrator has the constructor panic when it has no
  end points, though there is an error for it. With end points it does not panic.
\<close>

theorem member_maker_panics_iff:
  assumes "attrs AND ATTR_SOLO L = 0" and "attrs AND ATTR_ADMIN L = 0" and "cn \<noteq> []" and "length es < 2 ^ 32"
    and "si_name reg \<noteq> []" and "si_id reg \<noteq> None" and "si_end reg \<noteq> None" and "si_ck reg \<noteq> None"
  shows "NewMemberMaker L d (Some node) attrs reg cn ca cid ms n es = Panic IndexOutOfRange \<longleftrightarrow> es = []"
proof -
  let ?err = "if es = [] then Some MemberMustHaveEndPoint else None"
  have "check_member L False cn n es node = Panic IndexOutOfRange \<longleftrightarrow> es = []"
    unfolding check_member_taken [OF assms(4,3)] using add_ends_taken [of L es n node ?err]
    by (cases "add_ends L es [0..<taken n es] node ?err") auto
  then show ?thesis using assms
    by (cases "check_member L False cn n es node") (auto simp: NewMemberMaker_def split: option.splits sum.splits)
qed

text \<open>A constructor that drops the error of \<open>NewMemberMaker\<close>.\<close>

lemma error_dropped:
  assumes "obind m (\<lambda>r. case r of Inl e \<Rightarrow> Ret (None, None) | Inr c \<Rightarrow> Ret (Some c, None)) = Ret (a, err)"
  shows "err = None \<and> (case a of None \<Rightarrow> \<exists>e. m = Ret (Inl e) | Some mm \<Rightarrow> m = Ret (Inr mm))"
  using assms by (auto elim!: obind_RetE split: sum.splits)

lemma NewMemberMaker_no_server:
  assumes "si_name reg = [] \<or> si_id reg = None \<or> si_end reg = None \<or> si_ck reg = None"
  shows "NewMemberMaker L d (Some node) attrs reg cn ca cid ms n es = Ret (Inl MissingServerInfo)"
  using assms by (auto simp: NewMemberMaker_def split: option.splits)

text \<open>C33. Three of the four constructors lose errors. Once there is an ID, the administrator's client,
  the user's and the bootstrapper never come with an error: a client is what \<open>NewMemberMaker\<close> made of the
  new node, and when that or the node fails the caller gets a nil client and a nil error. Without an ID
  the user's client and the bootstrapper return that error, and the administrator's client panics. The
  solitary client does return the error: when the server is not fully known it is \<open>MissingServerInfo\<close>,
  where the other three return two nils.
\<close>

theorem constructors_lose_errors:
  "(\<forall>i. xi_Random L d = Inr i \<longrightarrow>
      (\<forall>a err. NewAdminClient L d reg cn ca ms n es = Ret (a, err) \<longrightarrow> err = None \<and>
         (case a of
            None \<Rightarrow> (\<exists>e. xn_NewNew L (d + 1) ''admin'' (Some i) [] = Inl e) \<or>
              (\<exists>nd e. xn_NewNew L (d + 1) ''admin'' (Some i) [] = Inr nd \<and>
                 NewMemberMaker L (d + 2) (Some nd) (ATTR_ADMIN L OR ATTR_SOLO L OR ATTR_EPHEMERAL L) reg cn ca None ms n es = Ret (Inl e))
          | Some mm \<Rightarrow> \<exists>nd. xn_NewNew L (d + 1) ''admin'' (Some i) [] = Inr nd \<and>
                 NewMemberMaker L (d + 2) (Some nd) (ATTR_ADMIN L OR ATTR_SOLO L OR ATTR_EPHEMERAL L) reg cn ca None ms n es = Ret (Inr mm)))
    \<and> (\<forall>a err. NewUserMember L d nm lfs ck sk reg cn ca cid ms n es = Ret (a, err) \<longrightarrow> err = None \<and>
         (case a of
            None \<Rightarrow> (\<exists>e. xn_New L nm (Some i) lfs ck sk [] = Inl e) \<or>
              (\<exists>nd e. xn_New L nm (Some i) lfs ck sk [] = Inr nd \<and>
                 NewMemberMaker L (d + 1) (Some nd) (if lfs = [] then ATTR_EPHEMERAL L else 0) reg cn ca cid ms n es = Ret (Inl e))
          | Some mm \<Rightarrow> \<exists>nd. xn_New L nm (Some i) lfs ck sk [] = Inr nd \<and>
                 NewMemberMaker L (d + 1) (Some nd) (if lfs = [] then ATTR_EPHEMERAL L else 0) reg cn ca cid ms n es = Ret (Inr mm)))
    \<and> (\<forall>a err. NewBootstrapper L d nm lfs attrs reg cn ca cid ms n es = Ret (a, err) \<longrightarrow> err = None \<and>
         (case a of
            None \<Rightarrow> (\<exists>e. xn_NewNew L (d + 1) nm (Some i) lfs = Inl e) \<or>
              (\<exists>nd e. xn_NewNew L (d + 1) nm (Some i) lfs = Inr nd \<and>
                 NewMemberMaker L (d + 2) (Some nd) (if lfs = [] then attrs OR ATTR_EPHEMERAL L else attrs) reg cn ca cid ms n es = Ret (Inl e))
          | Some mm \<Rightarrow> \<exists>nd. xn_NewNew L (d + 1) nm (Some i) lfs = Inr nd \<and>
                 NewMemberMaker L (d + 2) (Some nd) (if lfs = [] then attrs OR ATTR_EPHEMERAL L else attrs) reg cn ca cid ms n es = Ret (Inr mm)))
    \<and> (si_name reg = [] \<or> si_id reg = None \<or> si_end reg = None \<or> si_ck reg = None \<longrightarrow>
         NewAdminClient L d reg cn ca ms n es = Ret (None, None) \<and>
         NewUserMember L d nm lfs ck sk reg cn ca cid ms n es = Ret (None, None) \<and>
         NewBootstrapper L d nm lfs attrs reg cn ca cid ms n es = Ret (None, None) \<and>
         NewSoloMember L d (Some node) reg es = Ret (Inl MissingServerInfo)))
   \<and> (\<forall>e. xi_Random L d = Inl e \<longrightarrow> NewAdminClient L d reg cn ca ms n es = Panic NilDereference \<and>
      NewUserMember L d nm lfs ck sk reg cn ca cid ms n es = Ret (None, Some (Ext e)) \<and>
      NewBootstrapper L d nm lfs attrs reg cn ca cid ms n es = Ret (None, Some (Ext e)))"
  (is "(\<forall>i. ?id i \<longrightarrow> (\<forall>a err. ?A a err \<longrightarrow> ?PA i a err) \<and> (\<forall>a err. ?U a err \<longrightarrow> ?PU i a err) \<and> (\<forall>a err. ?B a err \<longrightarrow> ?PB i a err)
      \<and> (?no \<longrightarrow> ?none)) \<and> ?last")
proof -
  have "?PA i a err" if "?id i" "?A a err" for i a err
    using that by (cases "xn_NewNew L (d + 1) ''admin'' (Some i) []") (auto simp: NewAdminClient_def dest!: error_dropped split: option.splits)
  moreover have "?PU i a err" if "?id i" "?U a err" for i a err
    using that by (cases "xn_New L nm (Some i) lfs ck sk []") (auto simp: NewUserMember_def Let_def dest!: error_dropped split: option.splits)
  moreover have "?PB i a err" if "?id i" "?B a err" for i a err
    using that by (cases "xn_NewNew L (d + 1) nm (Some i) lfs") (auto simp: NewBootstrapper_def Let_def dest!: error_dropped split: option.splits)
  moreover have "?none" if "?id i" "?no" for i
    using that(1)
    by (simp add: NewAdminClient_def NewUserMember_def NewBootstrapper_def NewSoloMember_def Let_def
        NewMemberMaker_no_server [OF that(2)] split: sum.split)
  moreover have ?last by (simp add: NewAdminClient_def NewUserMember_def NewBootstrapper_def)
  ultimately show ?thesis by blast
qed

section \<open>What the clients do\<close>

lemma close_cnx_connected:
  assumes "\<exists>mm err c. m = Ret (mm, err, Some c)"
  shows "\<exists>mm err c. close_cnx m = Ret (mm, err, Some c) \<and> cx_closed c"
  using assms by (auto simp: close_cnx_def Cnx_Close_def)

lemma and_then_runs:
  assumes "\<And>mm c. \<exists>r. k mm c = Ret r"
  shows "\<exists>r. and_then (Ret x) k = Ret r"
  using assms by (auto simp: and_then_def split: prod.splits option.splits)

lemma in_session_refused:
  assumes "pe_ctors (mm_RegPeer mm) = [ctor]" and "Connect L ctor = Inl e"
  shows "in_session L mm k = Ret (mm, Some (Ext e), None)"
  using assms by (simp add: in_session_def SessionSetup_def)

lemma in_session_connected:
  assumes "pe_ctors (mm_RegPeer mm) = [ctor]" and "Connect L ctor = Inr c" and "\<And>mm c. \<exists>r. k mm c = Ret r"
  shows "\<exists>mm' err c'. in_session L mm k = Ret (mm', err, Some c')"
proof -
  obtain mm' c' v err where "client_hello L 0 (mm\<lparr>mm_Session := AesSession_zero L\<rparr>) c = (mm', c', v, err)"
    by (cases "client_hello L 0 (mm\<lparr>mm_Session := AesSession_zero L\<rparr>) c")
  then have s: "SessionSetup L 0 mm = Ret (mm', Some c', v, err)"
    using assms(1,2) by (simp add: SessionSetup_def NewCnxHandler_def)
  show ?thesis
  proof (cases err)
    case None
    obtain r where "k mm' c' = Ret r" using assms(3) by blast
    then show ?thesis using s None by (cases r) (simp add: in_session_def)
  next
    case (Some e)
    then show ?thesis using s by (simp add: in_session_def)
  qed
qed

text \<open>C30. An administrator's client that was made does not panic once it is started. When nothing listens
  at the server's end point, the run ends with the error of the dial, and there is no connection.
  Otherwise, if the server answers each message or closes the connection, so that every read returns,
  the run ends and its connection is closed. (No read has a timeout: a server that stays silent keeps
  the client waiting.)
\<close>

theorem admin_run_ends:
  assumes "peer_ok L" and "NewAdminClient L d reg cn ca ms n es = Ret (Some mm, err)"
  shows "\<exists>regEnd ctor. si_end reg = Some regEnd \<and> NewTcpConnector L regEnd = Inr ctor \<and>
    (case Connect L ctor of
       Inl e \<Rightarrow> AdminClient_Start L mm = Ret (mm, Some (Ext e), None)
     | Inr c \<Rightarrow> \<exists>mm' err c'. AdminClient_Start L mm = Ret (mm', err, Some c') \<and> cx_closed c')"
proof -
  obtain node attrs r where r: "NewMemberMaker L (d + 2) (Some node) attrs reg cn ca None ms n es = Ret r"
      "(case r of Inl e \<Rightarrow> Ret (None, None) | Inr cn \<Rightarrow> Ret (Some cn, None)) = Ret (Some mm, err)"
    using assms(2) by (auto simp: NewAdminClient_def split: sum.split_asm elim!: obind_RetE)
  then have "r = Inr mm" by (cases r) simp_all
  with r(1) have "NewMemberMaker L (d + 2) (Some node) attrs reg cn ca None ms n es = Ret (Inr mm)" by simp
  then obtain regEnd ctor where p: "si_end reg = Some regEnd" "NewTcpConnector L regEnd = Inr ctor" "pe_ctors (mm_RegPeer mm) = [ctor]"
    by (rule NewMemberMaker_made) (use make_reg_peer_ctors [OF assms(1)] in blast)
  have "AdminClient_Start L mm = Ret (mm, Some (Ext e), None)" if "Connect L ctor = Inl e" for e
    using in_session_refused [OF p(3) that] by (simp add: AdminClient_Start_def close_cnx_def)
  moreover have "\<exists>mm' err c'. AdminClient_Start L mm = Ret (mm', err, Some c') \<and> cx_closed c'" if "Connect L ctor = Inr c" for c
    unfolding AdminClient_Start_def
    by (rule close_cnx_connected, rule in_session_connected [OF p(3) that]) (rule and_then_runs exI refl)+
  ultimately show ?thesis using p(1,2) by (auto split: sum.split)
qed

lemma client_hello_ClusterID: "mm_ClusterID (fst (client_hello L v mm c)) = mm_ClusterID mm"
  by (simp add: client_hello_def split: sum.split prod.split option.split)

lemma SessionSetup_ClusterID:
  assumes "SessionSetup L v mm = Ret (mm', c, w, err)"
  shows "mm_ClusterID mm' = mm_ClusterID mm"
proof -
  let ?mm = "mm\<lparr>mm_Session := AesSession_zero L\<rparr>"
  have "mm' = mm \<or> (\<exists>cnx r. client_hello L v ?mm cnx = (mm', r))"
    using assms by (auto simp: SessionSetup_def split: list.split_asm sum.split_asm prod.split_asm)
  then show ?thesis
  proof (elim disjE exE)
    fix cnx r
    assume "client_hello L v ?mm cnx = (mm', r)"
    then show ?thesis using client_hello_ClusterID [of L v ?mm cnx] by simp
  qed simp
qed

lemma writeMsg_ClusterID: "mm_ClusterID (fst (writeMsg L m mm c)) = mm_ClusterID mm"
  by (simp add: writeMsg_def split: sum.split prod.split)

lemma MemberAndOK_ClusterID: "mm_ClusterID (fst (MemberAndOK L mm c)) = mm_ClusterID mm"
proof (cases "member_request L (mm_Node mm) (mm_ProposedAttrs mm)")
  case (Inl e)
  then show ?thesis by (simp add: MemberAndOK_def split: prod.split option.split)
next
  case (Inr q)
  obtain mm1 e c1 where w: "writeMsg L q mm c = (mm1, e, c1)" by (cases "writeMsg L q mm c")
  then show ?thesis using Inr writeMsg_ClusterID [of L q mm c]
    by (simp add: MemberAndOK_def split: prod.split option.split)
qed

text \<open>A user's client without an ID for the cluster panics when it is to join, after its session was
  set up and the server has accepted it.
\<close>

theorem user_without_id_panics:
  assumes "Node_OpenAcc L (mm_Node mn) = (node, None)" and "SessionSetup L 0 (mn\<lparr>mm_Node := node\<rparr>) = Ret (mn1, Some c, v, None)"
    and "MemberAndOK L mn1 c = (mn2, None, c2)" and "mm_ClusterID mn = None"
  shows "UserMember_Start L mn = Panic NilDereference"
proof -
  have "mm_ClusterID mn2 = None"
    using MemberAndOK_ClusterID [of L mn1 c] SessionSetup_ClusterID [OF assms(2)] assms(3,4) by simp
  then have "JoinAndReply L mn2 c2 = Panic NilDereference" by (simp add: JoinAndReply_def)
  then show ?thesis using assms(1-3) by (simp add: UserMember_Start_def in_session_def and_then_def close_cnx_def)
qed


section \<open>Sample runs\<close>

text \<open>The library of the sample runs, with attributes and a text for a node.\<close>

definition mfields :: "(u32, ref_files, unit) memberlib_ext" where
  "mfields = memberlib.fields 1 2 4 nd_name (\<lambda>m. mm_ClusterName m) (\<lambda>fs p. if map_of fs p = None then NotExist else Present)"

abbreviation mlib :: "XLRegMsg list \<Rightarrow> TcpConnection \<Rightarrow> ((bytes \<times> hval) list, hval, bytes list, u32, ref_files) memberlib" where
  "mlib ms c \<equiv> xlib ms c mfields"

lemma mlib_fields [simp]:
  "ATTR_ADMIN (mlib ms c) = 1" "ATTR_SOLO (mlib ms c) = 2" "ATTR_EPHEMERAL (mlib ms c) = 4" "Node_String (mlib ms c) = nd_name"
  by (simp_all add: xlib_def mfields_def clib_def serverlib.defs clientlib.defs nodelib.defs memberlib.defs)

lemma mlib_peer: "peer_ok (mlib ms c)"
  by (auto simp: peer_ok_def split: if_splits)

definition ref_server :: ServerInfo where
  "ref_server = \<lparr>si_name = ''xlReg'', si_id = Some (NodeID (ref_id 3)), si_end = Some (EndPoint ''127.0.0.1:44''),
     si_ck = Some ref_pub, si_sk = Some ref_pub\<rparr>"

lemmas sample_maker = NewMemberMaker_def make_reg_peer_def check_member_def ref_server_def Let_def

lemma mlib_ends: "ends_ok (mlib ms c)"
  by (auto simp: ends_ok_def)

theorem member_maker_end_points_witness:
  "\<exists>mm. NewMemberMaker (mlib [] no_cnx) 0 (Some ref_member) 0 ref_server ''club'' 0 None 2 0 [EndPoint ''127.0.0.1:55'', EndPoint ''127.0.0.1:56'']
       = Ret (Inr mm) \<and> mm_EPCount mm = 1 \<and> nd_ends (mm_Node mm) = nd_ends ref_member @ [EndPoint ''127.0.0.1:55'']"
proof -
  let ?es = "[EndPoint ''127.0.0.1:55'', EndPoint ''127.0.0.1:56'']"
  obtain mm where mm: "NewMemberMaker (mlib [] no_cnx) 0 (Some ref_member) 0 ref_server ''club'' 0 None 2 0 ?es = Ret (Inr mm)"
    by (simp add: sample_maker)
  from member_maker_end_points [OF mm] have "unat (mm_EPCount mm) = 1" "nd_ends (mm_Node mm) = nd_ends ref_member @ [EndPoint ''127.0.0.1:55'']"
    by (auto simp: mlib_ends)
  then have "mm_EPCount mm = 1" "nd_ends (mm_Node mm) = nd_ends ref_member @ [EndPoint ''127.0.0.1:55'']"
    by (simp_all add: word_unat_eq_iff)
  with mm show ?thesis by blast
qed

theorem member_maker_panics_iff_witness:
  "NewMemberMaker (mlib [] no_cnx) 0 (Some ref_member) 0 ref_server ''club'' 0 None 2 1 [] = Panic IndexOutOfRange"
  using member_maker_panics_iff [of 0 "mlib [] no_cnx" "''club''" "[]" ref_server 0 ref_member 0 None 2 1] by (simp add: ref_server_def)

theorem constructors_lose_errors_witness:
  "NewUserMember (mlib [] no_cnx) 0 ''al'' [] ref_priv ref_priv (ref_server\<lparr>si_name := []\<rparr>) ''club'' 0 None 2 1 [] = Ret (None, None)
   \<and> NewSoloMember (mlib [] no_cnx) 0 (Some ref_member) (ref_server\<lparr>si_name := []\<rparr>) [] = Ret (Inl MissingServerInfo)"
proof -
  let ?L = "mlib [] no_cnx" and ?s = "ref_server\<lparr>si_name := []\<rparr>"
  obtain i where "xi_Random ?L 0 = Inr i" by simp
  then show ?thesis
    using constructors_lose_errors [of ?L 0 ?s "''club''" 0 2 1 "[]" "''al''" "[]" ref_priv ref_priv None 0 ref_member] by auto
qed

theorem admin_run_ends_witness:
  "\<exists>mm err. NewAdminClient (mlib [] no_cnx) 0 ref_server ''club'' 0 2 1 [] = Ret (Some mm, err)
     \<and> (\<exists>mm' err c. AdminClient_Start (mlib [] no_cnx) mm = Ret (mm', err, Some c) \<and> cx_closed c)"
proof -
  obtain mm err where mm: "NewAdminClient (mlib [] no_cnx) 0 ref_server ''club'' 0 2 1 [] = Ret (Some mm, err)"
    by (simp add: NewAdminClient_def sample_maker)
  from mm admin_run_ends [OF mlib_peer mm] show ?thesis by auto
qed

lemma sample_accepted:
  assumes "cx_in c = [([0, 0], None)]"
  shows "\<exists>mm' c'. MemberAndOK (mlib [m] c0) mm c = (mm', None, c')"
proof -
  have w: "cx_in (snd (snd (writeMsg (mlib [m] c0) q mm c))) = cx_in c" for q
    by (auto simp: writeMsg_def EncodePadEncrypt_def EncodePacket_def WriteData_def Cnx_Write_def
        split: sum.split option.split list.split)
  have r: "\<exists>x c2. readMsg (mlib [m] c0) mm1 c1 = (x, None, c2)" if "cx_in c1 = cx_in c" for mm1 c1
    using that assms by (simp add: readMsg_def ReadData_def Cnx_Read_def MSG_BUF_LEN_def DecryptUnpadDecode_def DecodePacket_def)
  show ?thesis
  proof (cases "member_request (mlib [m] c0) (mm_Node mm) (mm_ProposedAttrs mm)")
    case (Inl e)
    with r [of c mm] show ?thesis by (auto simp: MemberAndOK_def)
  next
    case (Inr q)
    obtain mm1 e c1 where "writeMsg (mlib [m] c0) q mm c = (mm1, e, c1)" by (cases "writeMsg (mlib [m] c0) q mm c")
    with Inr w [of q] r [of c1 mm1] show ?thesis by (auto simp: MemberAndOK_def)
  qed
qed

theorem user_without_id_panics_witness:
  "UserMember_Start (mlib [zeroMsg\<lparr>msg_Op := Some XLRegMsg_MemberOK\<rparr>] (no_cnx\<lparr>cx_in := [([1], None), ([0, 0], None)]\<rparr>))
     (ref_maker\<lparr>mm_RegPeer := (mm_RegPeer ref_maker)\<lparr>pe_ctors := [Connector (EndPoint ''127.0.0.1:44'')]\<rparr>\<rparr>) = Panic NilDereference"
  (is "UserMember_Start ?L ?m = _")
proof -
  obtain node where n: "Node_OpenAcc ?L (mm_Node ?m) = (node, None)" by simp
  obtain mn1 c v where s: "SessionSetup ?L 0 (?m\<lparr>mm_Node := node\<rparr>) = Ret (mn1, Some c, v, None)" and c: "cx_in c = [([0, 0], None)]"
    by (simp add: SessionSetup_def client_hello_def NewCnxHandler_def WriteData_def Cnx_Write_def ReadData_def Cnx_Read_def MSG_BUF_LEN_def no_cnx_def)
  obtain mn2 c2 where "MemberAndOK ?L mn1 c = (mn2, None, c2)" using sample_accepted [OF c] by blast
  from user_without_id_panics [OF n s this] show ?thesis by (simp add: ref_maker_def)
qed

end
