(* ===== verification/Composition.thy ===== *)
theory Composition
  imports Clients RegServer
begin

text \<open>
  Client and server together: what the exchange of a client does when the other end of its connection
  is the server's goroutine. What one end writes is what the other end reads.
\<close>

section \<open>Packets\<close>

text \<open>The packet is the next thing to be read, at once and within the buffer.\<close>

definition delivers :: "bytes \<Rightarrow> TcpConnection \<Rightarrow> bool" where
  "delivers p cnx \<longleftrightarrow> (\<exists>rest. cx_in cnx = (p, None) # rest) \<and> 0 < length p \<and> length p \<le> MSG_BUF_LEN"

lemma delivers_read:
  assumes "delivers p cnx"
  obtains rest where "ReadData cnx = (Some p, None, cnx\<lparr>cx_in := rest\<rparr>)"
  using assms by (auto simp: delivers_def ReadData_def Cnx_Read_def)

lemma writeMsg_sent:
  assumes "writeMsg L m mm cnx = (mm', None, cnx')"
  obtains s p where "EncodePadEncrypt L (mm_Session mm) m = (s, Inr p)" and "cx_out cnx' = cx_out cnx @ [p]"
    and "mm' = mm\<lparr>mm_Session := s\<rparr>"
  using assms
  by (auto simp: writeMsg_def WriteData_def Cnx_Write_def split: prod.splits sum.splits list.splits option.splits)

lemma readMsg_delivered:
  assumes "delivers p cnx" and "DecryptUnpadDecode L (mm_Session mm) p = Inr m"
  obtains cnx' where "readMsg L mm cnx = (Some m, None, cnx')"
  using assms(2) by (auto intro: delivers_read [OF assms(1)] that simp: readMsg_def)

section \<open>A turn of the server\<close>

text \<open>
  A turn that does not end the loop and that sent something: the message was handled without an error,
  and the reply was encrypted with the session.
\<close>

lemma loop_turn_answered:
  assumes "delivers p sc" and "DecryptUnpadDecode L (ih_Session h) p = Inr m"
    and "loop_turn L r h sc = Ret (s, k, sc', None)" and "length (cx_out sc) < length (cx_out sc')"
  obtains j reply w d where "handle_message L m r h = Ret (s, j)" and "ih_exitState j \<noteq> IN_CLOSED"
    and "ih_msgOut j = Some reply" and "EncodePadEncrypt L (ih_Session j) reply = (w, Inr d)"
    and "cx_out sc' = cx_out sc @ [d]" and "ih_thisClient k = ih_thisClient j" and "ih_entryState k = ih_exitState j"
proof -
  obtain rest where rd: "ReadData sc = (Some p, None, sc\<lparr>cx_in := rest\<rparr>)" using assms(1) by (rule delivers_read)
  note run = assms(3) [unfolded loop_turn_def rd prod.case option.case slice_of_simps assms(2) sum.case]
  then obtain s' j where hm: "handle_message L m r h = Ret (s', j)" by (cases "handle_message L m r h") auto
  obtain j2 cnx2 e where sr: "send_reply L j (sc\<lparr>cx_in := rest\<rparr>) = (j2, cnx2, e)" by (metis prod_cases3)
  obtain w where j2: "j2 = j\<lparr>ih_Session := w\<rparr>" using sr by (rule send_reply_handler)
  have o: "s' = s" "sc' = cnx2" "ih_exitState j \<noteq> IN_CLOSED" "ih_thisClient k = ih_thisClient j" "ih_entryState k = ih_exitState j"
    using run hm sr j2 by (auto simp: Let_def split: if_splits)
  obtain reply where rep: "ih_msgOut j = Some reply" using sr assms(4) o(2) by (cases "ih_msgOut j") (auto simp: send_reply_def)
  obtain v x where en: "EncodePadEncrypt L (ih_Session j) reply = (v, x)" by fastforce
  have "\<exists>d. x = Inr d \<and> cx_out cnx2 = cx_out sc @ [d]"
    using sr assms(4) o(2) rep en
    by (cases x) (auto simp: send_reply_def WriteData_def Cnx_Write_def split: list.splits option.splits)
  with that hm o rep en show ?thesis by blast
qed

text \<open>The handlers leave the session's keys alone.\<close>

definition keeps_session :: "'a \<times> 's SessionHandler \<Rightarrow> 's SessionHandler \<Rightarrow> bool" where
  "keeps_session out h \<longleftrightarrow> ih_Session (snd out) = ih_Session h"

lemma handlers_keep_session:
  "oall (\<lambda>out. keeps_session out h) (doClientMsg L r h)" "oall (\<lambda>out. keeps_session out h) (doCreateMsg L r h)"
  "oall (\<lambda>out. keeps_session out h) (doJoinMsg L r h)" "oall (\<lambda>out. keeps_session out h) (doGetMsg L r h)"
  "oall (\<lambda>out. keeps_session out h) (doByeMsg r h)" "oall (\<lambda>out. keeps_session out h) (badCombo r h)"
  unfolding doClientMsg_def doCreateMsg_def create_existing_def create_new_def doJoinMsg_def doGetMsg_def doByeMsg_def badCombo_def Let_def
  by (auto split: sum.split prod.split option.split hval.split intro!: oall_obindI simp: keeps_session_def)

lemma handle_message_session:
  fixes h :: "'s SessionHandler"
  assumes "handle_message L m r h = Ret (s, j)"
  shows "ih_Session j = ih_Session h"
proof -
  obtain i where i: "dispatch L (op2tag (GetOp (Some m))) r (h\<lparr>ih_msgIn := Some m\<rparr>) = Ret (s, i)" "j = error_reply i"
    using assms by (rule handle_message_dispatch)
  then obtain f where f: "index2 (msgHandlers L) (ih_entryState h) (op2tag (GetOp (Some m))) = Some f"
      "f r (h\<lparr>ih_msgIn := Some m\<rparr>) = Ret (s, i)"
    by (auto simp: dispatch_def simp del: msg_getters split: option.splits)
  have "oall (\<lambda>out. keeps_session out (h\<lparr>ih_msgIn := Some m\<rparr>)) (f r (h\<lparr>ih_msgIn := Some m\<rparr>))"
    using index2_msgHandlers [OF f(1)] handlers_keep_session [of "h\<lparr>ih_msgIn := Some m\<rparr>"] by auto
  then show ?thesis using f(2) i(2) by (simp add: keeps_session_def error_reply_def split: option.splits)
qed

section \<open>An exchange\<close>

text \<open>
  A request and its reply: the client has sent the message, the packet arrives, the server takes one
  turn that does not end the loop and sends its reply, which arrives; the keys of both ends match.
\<close>

definition exchange ::
  "('h, hval, 'b, 's, 'z) serverlib_scheme \<Rightarrow> XLRegMsg \<Rightarrow> 's MemberMaker \<times> TcpConnection \<Rightarrow> 's MemberMaker \<times> TcpConnection \<Rightarrow>
   ('h, 'b) Registry \<times> 's SessionHandler \<times> TcpConnection \<Rightarrow> ('h, 'b) Registry \<times> 's SessionHandler \<times> TcpConnection \<Rightarrow> bool" where
  "exchange L m client client' server server' \<longleftrightarrow>
     (case (client, client', server, server') of ((mm, c), (mm1, c1), (r, h, sc), (s, k, sc')) \<Rightarrow>
        writeMsg L m mm c = (mm1, None, c1)
        \<and> delivers (last (cx_out c1)) sc \<and> sessions_match L (mm_Session mm) (ih_Session h)
        \<and> loop_turn L r h sc = Ret (s, k, sc', None) \<and> length (cx_out sc) < length (cx_out sc')
        \<and> delivers (last (cx_out sc')) c1 \<and> sessions_match L (ih_Session h) (mm_Session mm1))"

lemma exchange_replied:
  assumes "\<And>m. wire_ok L m" and "exchange L m (mm, c) (mm1, c1) (r, h, sc) (s, k, sc')"
  obtains j reply c2 w where "writeMsg L m mm c = (mm1, None, c1)" and "mm1 = mm\<lparr>mm_Session := w\<rparr>"
    and "handle_message L m r h = Ret (s, j)" and "ih_exitState j \<noteq> IN_CLOSED"
    and "ih_msgOut j = Some reply" and "readMsg L mm1 c1 = (Some reply, None, c2)"
    and "ih_thisClient k = ih_thisClient j" and "ih_entryState k = ih_exitState j"
proof -
  from assms(2) have e: "writeMsg L m mm c = (mm1, None, c1)" "delivers (last (cx_out c1)) sc"
      "sessions_match L (mm_Session mm) (ih_Session h)" "loop_turn L r h sc = Ret (s, k, sc', None)"
      "length (cx_out sc) < length (cx_out sc')" "delivers (last (cx_out sc')) c1" "sessions_match L (ih_Session h) (mm_Session mm1)"
    by (simp_all add: exchange_def)
  obtain w p where sent: "EncodePadEncrypt L (mm_Session mm) m = (w, Inr p)" "cx_out c1 = cx_out c @ [p]" "mm1 = mm\<lparr>mm_Session := w\<rparr>"
    using e(1) by (rule writeMsg_sent)
  have "DecryptUnpadDecode L (ih_Session h) p = Inr m" using decode_encoded [OF assms(1) e(3) sent(1)] .
  then obtain j reply v d where j: "handle_message L m r h = Ret (s, j)" "ih_exitState j \<noteq> IN_CLOSED"
      "ih_msgOut j = Some reply" "EncodePadEncrypt L (ih_Session j) reply = (v, Inr d)" "cx_out sc' = cx_out sc @ [d]"
      "ih_thisClient k = ih_thisClient j" "ih_entryState k = ih_exitState j"
    using e(2,4,5) sent(2) by (auto elim: loop_turn_answered)
  have "DecryptUnpadDecode L (mm_Session mm1) d = Inr reply"
    using decode_encoded [OF assms(1) _ j(4)] e(7) handle_message_session [OF j(1)] by simp
  moreover have "delivers d c1" using e(6) j(5) by simp
  ultimately obtain c2 where "readMsg L mm1 c1 = (Some reply, None, c2)" by (auto elim: readMsg_delivered)
  with that e(1) sent(3) j show ?thesis by blast
qed

text \<open>A message that is handled without an error was handled by the entry for the state and the tag.\<close>

lemma handled_by:
  assumes "index2 (msgHandlers L) st t = Some f" and "ih_entryState h = st" and "op2tag (GetOp (Some m)) = t"
    and "handle_message L m r h = Ret (s, j)" and "ih_exitState j \<noteq> IN_CLOSED"
  shows "f r (h\<lparr>ih_msgIn := Some m\<rparr>) = Ret (s, j) \<and> ih_errOut j = None"
proof -
  obtain i where i: "dispatch L (op2tag (GetOp (Some m))) r (h\<lparr>ih_msgIn := Some m\<rparr>) = Ret (s, i)" "j = error_reply i"
    using assms(4) by (rule handle_message_dispatch)
  have n: "ih_errOut i = None" using i(2) assms(5) by (cases "ih_errOut i") (simp_all add: error_reply_def)
  then have "j = i" using i(2) by (simp add: error_reply_def)
  with i(1) n assms(1-3) show ?thesis by (simp add: dispatch_def del: msg_getters)
qed

lemma entries:
  "index2 (msgHandlers L) HELLO_RCVD 0 = Some (doClientMsg L)" "index2 (msgHandlers L) CLIENT_DETAILS_RCVD 1 = Some (doCreateMsg L)"
  "index2 (msgHandlers L) CLIENT_DETAILS_RCVD 2 = Some (doJoinMsg L)" "index2 (msgHandlers L) CREATE_REQUEST_RCVD 2 = Some (doJoinMsg L)"
  "index2 (msgHandlers L) JOIN_RCVD 3 = Some (doGetMsg L)"
  by (simp_all add: index2_def msgHandlers_def)

lemma request_tags:
  "op2tag XLRegMsg_Member = 0" "op2tag XLRegMsg_Create = 1" "op2tag XLRegMsg_Join = 2" "op2tag XLRegMsg_GetCluster = 3"
  by (simp_all add: op2tag_def go_div_def)

section \<open>Create\<close>

text \<open>What a Create that succeeds says of the cluster of that name.\<close>

lemma named_cluster_id:
  assumes "srv_inv L r" and "reg_ClustersByName r nm = Some c"
  obtains i where "rc_ID (get_cluster r c) = Some i" and "valid_id i"
proof -
  have "cluster_known L r (get_cluster r c)"
    using assms(1) named_cluster [OF assms] by (simp add: srv_inv_def get_cluster_def)
  then show ?thesis
    using that by (cases "rc_ID (get_cluster r c)") (simp_all add: cluster_known_def valid_id_def)
qed

lemma doCreateMsg_agrees:
  assumes "libs_ok L" and "srv_inv L r" and "sess_refs L r h" and "GetClusterName (ih_msgIn h) \<noteq> []"
    and "doCreateMsg L r h = Ret (s, k)" and "ih_errOut k = None"
  obtains c i a e where "reg_ClustersByName s (GetClusterName (ih_msgIn h)) = Some c" and "valid_id i"
    and "rc_ID (get_cluster s c) = Some i"
    and "ih_msgOut k = Some (create_reply i (rc_maxSize (get_cluster s c)) a e)"
proof (cases "reg_ClustersByName r (GetClusterName (ih_msgIn h))")
  case (Some c)
  have N: "nodeids_ok L" using assms(1) by (simp add: libs_ok_def)
  obtain i where i: "rc_ID (get_cluster r c) = Some i" "valid_id i" using assms(2) Some by (rule named_cluster_id)
  have "s = r \<and> ih_msgOut k = Some (create_reply i (rc_maxSize (get_cluster r c)) (rc_Attrs (get_cluster r c)) (rc_epCount (get_cluster r c)))"
    using assms(5) Some i nodeids_okD(1) [OF N i(2)]
    by (auto simp: doCreateMsg_def create_existing_def Let_def xi_New_or_random_def simp del: msg_getters)
  with that Some i show ?thesis by blast
next
  case None
  obtain c i where *: "rc_ID (get_cluster s c) = Some i" "reg_ClustersByName s (GetClusterName (ih_msgIn h)) = Some c"
      "rc_maxSize (get_cluster s c) = clamp_size (GetClusterMaxSize (ih_msgIn h))"
      "ih_msgOut k = Some (create_reply i (clamp_size (GetClusterMaxSize (ih_msgIn h))) (GetClusterAttrs (ih_msgIn h)) (GetEndPointCount (ih_msgIn h)))"
    using doCreateMsg_new [OF assms(1,2) None assms(5,6)] assms(4) by (auto simp del: msg_getters)
  have "srv_inv L s" using doCreateMsg_keeps [OF assms(1-3,5)] by (simp add: keeps_def)
  then have "valid_id i" using *(1,2) named_cluster_id by force
  with that * show ?thesis by simp
qed

section \<open>Properties\<close>

text \<open>C13. A Create, from one end to the other: the client sends its request, the server takes one turn and
  replies, the client reads the reply. If neither end reports an error, the client's cluster ID and size
  are those of the cluster that the registry now has under the name the client gave.\<close>

theorem create_end_to_end:
  assumes "libs_ok L" and "\<And>m. wire_ok L m" and "srv_inv L r" and "sess_refs L r h"
    and "ih_entryState h = CLIENT_DETAILS_RCVD" and "mm_ClusterName mm \<noteq> []"
    and "exchange L (create_request mm) (mm, c) (mm1, c1) (r, h, sc) (s, k, sc')"
  shows "\<exists>mm2 c2 cl n. CreateAndReply L mm c = (mm2, None, c2) \<and> mm_ClusterID mm2 = Some n
     \<and> reg_ClustersByName s (mm_ClusterName mm) = Some cl \<and> rc_ID (get_cluster s cl) = Some (Value n)
     \<and> mm_ClusterMaxSize mm2 = rc_maxSize (get_cluster s cl)"
proof -
  let ?m = "create_request mm"
  obtain j reply c2 w where j: "writeMsg L ?m mm c = (mm1, None, c1)" "mm1 = mm\<lparr>mm_Session := w\<rparr>"
      "handle_message L ?m r h = Ret (s, j)" "ih_exitState j \<noteq> IN_CLOSED" "ih_msgOut j = Some reply"
      "readMsg L mm1 c1 = (Some reply, None, c2)"
    using assms(2,7) by (rule exchange_replied)
  have t: "op2tag (GetOp (Some ?m)) = 1" by (simp add: create_request_def request_tags)
  have d: "doCreateMsg L r (h\<lparr>ih_msgIn := Some ?m\<rparr>) = Ret (s, j)" "ih_errOut j = None"
    using handled_by [OF entries(2) assms(5) t j(3,4)] by simp_all
  have nm: "GetClusterName (ih_msgIn (h\<lparr>ih_msgIn := Some ?m\<rparr>)) = mm_ClusterName mm" by (simp add: create_request_def)
  have refs: "sess_refs L r (h\<lparr>ih_msgIn := Some ?m\<rparr>)" and ne: "GetClusterName (ih_msgIn (h\<lparr>ih_msgIn := Some ?m\<rparr>)) \<noteq> []"
    using assms(4,6) nm by (simp_all del: msg_getters)
  obtain cl i a e where cl: "reg_ClustersByName s (mm_ClusterName mm) = Some cl" "valid_id i"
      "rc_ID (get_cluster s cl) = Some i" "ih_msgOut j = Some (create_reply i (rc_maxSize (get_cluster s cl)) a e)"
    by (rule doCreateMsg_agrees [OF assms(1,3) refs ne d, unfolded nm])
  have "nodeids_ok L" using assms(1) by (simp add: libs_ok_def)
  from nodeids_okD(1) [OF this cl(2)] have i: "xi_New L i = Inr (NodeID i)" .
  have r: "reply = create_reply i (rc_maxSize (get_cluster s cl)) a e" using j(5) cl(4) by simp
  show ?thesis
    using j(1) j(6) [unfolded r] cl(1,3) i
    by (simp add: CreateAndReply_def create_reply_def xi_New_or_random_def Let_def)
qed

lemma member_request_fields:
  assumes "member_request L node attrs = Inr m"
  shows "msg_Op m = Some XLRegMsg_Member" and "Token_GetName (GetMemberSpecs (Some m)) = nd_name node"
    and "Token_GetAttrs (GetMemberSpecs (Some m)) = attrs" and "Token_GetID (GetMemberSpecs (Some m)) = map_option Value (nd_id node)"
    and "Token_GetMyEnds (GetMemberSpecs (Some m)) = (if nd_ends node = [] then None else Some (map (my_end L) (nd_ends node)))"
  using assms by (auto simp: member_request_def Let_def split: sum.splits)

text \<open>What the server reads of the keys, if it accepts them: those of the node, and the signature verifies.\<close>

lemma member_request_accepted:
  assumes "keys_ok L" and "member_request L node attrs = Inr m" and "client_keys L (GetMemberSpecs (Some m)) = Inr (ck, sk)"
  shows "ck = rsa_pub_of (nd_ckPriv node)" and "sk = rsa_pub_of (nd_skPriv node)"
    and "VerifyPKCS1v15 L sk (client_hash L (Token_GetName (GetMemberSpecs (Some m))) (Token_GetAttrs (GetMemberSpecs (Some m)))
        (Token_GetCommsKey (GetMemberSpecs (Some m))) (Token_GetSigKey (GetMemberSpecs (Some m)))
        (Token_GetMyEnds (GetMemberSpecs (Some m)))) (Token_GetDigSig (GetMemberSpecs (Some m))) = None"
proof -
  obtain b d where b: "RSAPubKeyToWire L (Some (rsa_pub_of (nd_ckPriv node))) = Inr b" "Token_GetCommsKey (GetMemberSpecs (Some m)) = Some b"
      "RSAPubKeyToWire L (Some (rsa_pub_of (nd_skPriv node))) = Inr d" "Token_GetSigKey (GetMemberSpecs (Some m)) = Some d"
    using assms(2) by (auto simp: member_request_def Let_def ext_def split: sum.splits)
  note a = assms(3) [unfolded client_keys_def b(2,4) keys_okD [OF assms(1) b(1)] keys_okD [OF assms(1) b(3)] ext_def sum.case]
  show "ck = rsa_pub_of (nd_ckPriv node)" "sk = rsa_pub_of (nd_skPriv node)"
    "VerifyPKCS1v15 L sk (client_hash L (Token_GetName (GetMemberSpecs (Some m))) (Token_GetAttrs (GetMemberSpecs (Some m)))
        (Token_GetCommsKey (GetMemberSpecs (Some m))) (Token_GetSigKey (GetMemberSpecs (Some m)))
        (Token_GetMyEnds (GetMemberSpecs (Some m)))) (Token_GetDigSig (GetMemberSpecs (Some m))) = None"
    using a unfolding b(2,4) by (simp_all del: token_getters msg_getters split: option.splits)
qed

text \<open>C16. The client's description, from one end to the other: when a Member message is answered without an
  error, what the server records of the session's client is the name, the ID, the attributes, the end
  points and the public keys of the client's node, the signature it received for these verifies under
  the recorded key, the ID is registered, and the client has the attributes it proposed.\<close>

theorem member_end_to_end:
  assumes "libs_ok L" and "\<And>m. wire_ok L m" and "keys_ok L" and "srv_inv L r"
    and "ih_entryState h = HELLO_RCVD" and "nd_id (mm_Node mm) = Some i"
    and "member_request L (mm_Node mm) (mm_ProposedAttrs mm) = Inr m"
    and "exchange L m (mm, c) (mm1, c1) (r, h, sc) (s, k, sc')"
  shows "\<exists>mm2 c2 cm. MemberAndOK L mm c = (mm2, None, c2) \<and> mm_Attrs mm2 = mm_ProposedAttrs mm
     \<and> ih_entryState k = CLIENT_DETAILS_RCVD \<and> ih_thisClient k = Some cm \<and> ci_Attrs cm = mm_ProposedAttrs mm
     \<and> ci_MyEnds cm = (if nd_ends (mm_Node mm) = [] then None else Some (map (my_end L) (nd_ends (mm_Node mm))))
     \<and> ci_BaseNode cm = \<lparr>bn_name = nd_name (mm_Node mm), bn_id = i, bn_ck = Some (rsa_pub_of (nd_ckPriv (mm_Node mm))),
         bn_sk = Some (rsa_pub_of (nd_skPriv (mm_Node mm)))\<rparr>
     \<and> VerifyPKCS1v15 L (rsa_pub_of (nd_skPriv (mm_Node mm)))
         (client_hash L (nd_name (mm_Node mm)) (ci_Attrs cm) (Token_GetCommsKey (GetMemberSpecs (Some m)))
            (Token_GetSigKey (GetMemberSpecs (Some m))) (ci_MyEnds cm))
         (Token_GetDigSig (GetMemberSpecs (Some m))) = None
     \<and> known L s (Value i)"
proof -
  obtain j reply c2 w where j: "writeMsg L m mm c = (mm1, None, c1)" "mm1 = mm\<lparr>mm_Session := w\<rparr>"
      "handle_message L m r h = Ret (s, j)" "ih_exitState j \<noteq> IN_CLOSED" "ih_msgOut j = Some reply"
      "readMsg L mm1 c1 = (Some reply, None, c2)" "ih_thisClient k = ih_thisClient j" "ih_entryState k = ih_exitState j"
    using assms(2,8) by (rule exchange_replied)
  define specs where "specs = GetMemberSpecs (Some m)"
  have f: "msg_Op m = Some XLRegMsg_Member" "Token_GetName specs = nd_name (mm_Node mm)" "Token_GetAttrs specs = mm_ProposedAttrs mm"
      "Token_GetID specs = Some (Value i)" "Token_GetMyEnds specs = (if nd_ends (mm_Node mm) = [] then None else Some (map (my_end L) (nd_ends (mm_Node mm))))"
    using member_request_fields [OF assms(7)] assms(6) by (simp_all add: specs_def)
  have t: "op2tag (GetOp (Some m)) = 0" using f(1) by (simp add: request_tags)
  have d: "doClientMsg L r (h\<lparr>ih_msgIn := Some m\<rparr>) = Ret (s, j)" "ih_errOut j = None"
    using handled_by [OF entries(1) assms(5) t j(3,4)] by simp_all
  have sp: "GetMemberSpecs (ih_msgIn (h\<lparr>ih_msgIn := Some m\<rparr>)) = specs" by (simp add: specs_def)
  obtain ck sk n err cm where a: "client_keys L specs = Inr (ck, sk)"
      "client_node_id L (Token_GetID specs) r = Ret (s, Some n, err)" "err = None \<or> err = Some IDAlreadyInUse"
      "NewClientInfo L (Token_GetName specs) (Some n) (Some ck) (Some sk) (Token_GetAttrs specs) (Token_GetMyEnds specs) = Inr cm"
      "ih_thisClient j = Some cm"
      "ih_msgOut j = Some (zeroMsg\<lparr>msg_Op := Some XLRegMsg_MemberOK, msg_MemberID := Some (Value n),
         msg_MemberAttrs := Some (Token_GetAttrs specs)\<rparr>)"
    using doClientMsg_accepted [OF d] unfolding sp by blast
  note keys = member_request_accepted [OF assms(3,7) a(1) [unfolded specs_def]]
  have v: "VerifyPKCS1v15 L (rsa_pub_of (nd_skPriv (mm_Node mm))) (client_hash L (nd_name (mm_Node mm)) (mm_ProposedAttrs mm)
      (Token_GetCommsKey specs) (Token_GetSigKey specs) (Token_GetMyEnds specs)) (Token_GetDigSig specs) = None"
    using keys(3) f(2,3) unfolding keys(2) specs_def by (simp del: token_getters msg_getters)
  have lib: "nodeids_ok L" "basenodes_ok L" using assms(1) by (simp_all add: libs_ok_def)
  have "xi_New L (Value i) = Inr n"
    using a(2) f(4) by (auto simp: client_node_id_def ext_def split: sum.splits if_splits prod.splits)
  then have n: "n = i" using nodeids_okD(2) [OF lib(1)] by (cases i) auto
  have kn: "known L s (Value i)" using client_node_id_step(3) [OF assms(1,4) a(2,3)] n by auto
  have "oall (\<lambda>(s, k). answers CLIENT_DETAILS_RCVD XLRegMsg_MemberOK (h\<lparr>ih_msgIn := Some m\<rparr>) k \<and> (ih_errOut k = None \<longrightarrow> ih_thisClient k \<noteq> None))
      (doClientMsg L r (h\<lparr>ih_msgIn := Some m\<rparr>))" by (rule doClientMsg_answers)
  then have x: "ih_exitState j = CLIENT_DETAILS_RCVD" using d by (simp add: answers_def)
  have "GetMemberAttrs (Some reply) = mm_ProposedAttrs mm" using j(5) a(6) f(3) by auto
  then obtain mm2 where "MemberAndOK L mm c = (mm2, None, c2)" "mm_Attrs mm2 = mm_ProposedAttrs mm"
    using j assms(7) by (auto simp: MemberAndOK_def)
  moreover have "cm = \<lparr>ci_Attrs = mm_ProposedAttrs mm, ci_MyEnds = Token_GetMyEnds specs,
      ci_BaseNode = \<lparr>bn_name = nd_name (mm_Node mm), bn_id = i, bn_ck = Some ck, bn_sk = Some sk\<rparr>\<rparr>"
    using NewClientInfo_Inr [OF lib(2) a(4)] f(2,3) n by (simp del: token_getters)
  ultimately show ?thesis using j(7,8) a(5) v kn x f(5) keys(1,2) unfolding specs_def
    by (simp del: token_getters msg_getters)
qed

text \<open>C14. A Join, from one end to the other: the session's client is the last member of the cluster whose ID
  the client has, and the client knows that cluster's size and number of end points.\<close>

theorem join_end_to_end:
  assumes "libs_ok L" and "\<And>m. wire_ok L m" and "srv_inv L r" and "sess_refs L r h"
    and "ih_entryState h = CLIENT_DETAILS_RCVD" and "mm_ClusterID mm = Some n"
    and "exchange L (zeroMsg\<lparr>msg_Op := Some XLRegMsg_Join, msg_ClusterID := Some (Value n)\<rparr>) (mm, c) (mm1, c1) (r, h, sc) (s, k, sc')"
  shows "\<exists>mm2 c2 cl m. JoinAndReply L mm c = Ret (mm2, None, c2) \<and> ih_thisClient h = Some m
     \<and> rc_ID (get_cluster r cl) = Some (Value n) \<and> rc_Members (get_cluster s cl) = rc_Members (get_cluster r cl) @ [m]
     \<and> mm_ClusterMaxSize mm2 = rc_maxSize (get_cluster r cl) \<and> mm_EPCount mm2 = rc_epCount (get_cluster r cl)"
proof -
  let ?m = "zeroMsg\<lparr>msg_Op := Some XLRegMsg_Join, msg_ClusterID := Some (Value n)\<rparr>"
  obtain j reply c2 w where j: "writeMsg L ?m mm c = (mm1, None, c1)" "mm1 = mm\<lparr>mm_Session := w\<rparr>"
      "handle_message L ?m r h = Ret (s, j)" "ih_exitState j \<noteq> IN_CLOSED" "ih_msgOut j = Some reply"
      "readMsg L mm1 c1 = (Some reply, None, c2)"
    using assms(2,7) by (rule exchange_replied)
  have t: "op2tag (GetOp (Some ?m)) = 2" by (simp add: request_tags)
  have d: "doJoinMsg L r (h\<lparr>ih_msgIn := Some ?m\<rparr>) = Ret (s, j)" "ih_errOut j = None"
    using handled_by [OF entries(3) assms(5) t j(3,4)] by simp_all
  have refs: "sess_refs L r (h\<lparr>ih_msgIn := Some ?m\<rparr>)" using assms(4) by simp
  obtain cl m where cl: "ih_thisClient h = Some m" "rc_ID (get_cluster r cl) = Some (Value n)"
      "rc_Members (get_cluster s cl) = rc_Members (get_cluster r cl) @ [m]" "ih_msgOut j = Some (join_reply (get_cluster r cl))"
    using doJoinMsg_joins [OF assms(1,3) refs d] by auto
  have r: "reply = join_reply (get_cluster r cl)" using j(5) cl(4) by simp
  show ?thesis
    using j(1,2) j(6) [unfolded r] cl assms(6)
    by (auto simp: JoinAndReply_def join_reply_def Let_def)
qed

text \<open>What the client's tests of a bit map mean.\<close>

definition tests_ok :: "('h, 'v, 'b, 's, 'z) clientlib_scheme \<Rightarrow> bool" where
  "tests_ok L \<longleftrightarrow> (\<forall>w. bm_Any L w \<longleftrightarrow> w \<noteq> 0) \<and> (\<forall>w. bm_None L w \<longleftrightarrow> w = 0)"

lemma self_index_returns: "\<forall>i \<in> set is. i < length ms \<Longrightarrow> \<exists>x. self_index b ms is = Ret x"
  by (induction "is") (auto split: option.splits)

lemma clear_known_none:
  "\<forall>i \<in> set is. i < length ms \<and> ms ! i = None \<Longrightarrow> clear_known L ms is w = Ret w"
  by (induction "is") auto

lemma collect_loop_unset:
  "\<forall>i \<in> set is. \<not> bm_Test L w i \<Longrightarrow> collect_loop L w ts is offset draw ms still err = Ret (ms, still, err, draw)"
  by (induction "is") auto

lemma low_bits_nonzero: "bitmaps_ok L \<Longrightarrow> 0 < N \<Longrightarrow> N \<le> 64 \<Longrightarrow> bm_LowNMap L N \<noteq> 0"
proof -
  assume "bitmaps_ok L" "0 < N" "N \<le> 64"
  then have "bit (bm_LowNMap L N) 0" by (simp add: bitmaps_okD(1) bit_mask_iff)
  then show ?thesis by auto
qed

text \<open>One round of a Get for all members of a full cluster.\<close>

lemma get_one_round:
  assumes "bitmaps_ok L" and "clear_ok L" and "tests_ok L" and "mm_ClusterID mm = Some n"
    and "unat (mm_ClusterMaxSize mm) = N" and "0 < N" and "N \<le> 64" and "mm_Members mm = Some (replicate N None)"
    and "length (rc_Members rc) = N"
    and "\<forall>i < N. ci_Token L (rc_Members rc ! i) = Inr (tok i) \<and> NewMemberInfoFromToken L (mm_draws mm) (Some (tok i)) = Inr (mi i)"
    and "nd_id (mm_Node mm) = Some self"
    and "writeMsg L (zeroMsg\<lparr>msg_Op := Some XLRegMsg_GetCluster, msg_ClusterID := Some (Value n),
           msg_Which := Some (bm_LowNMap L N)\<rparr>) mm c = (mm1, None, c1)" and "mm1 = mm\<lparr>mm_Session := w\<rparr>"
    and "readMsg L mm1 c1 = (Some reply, None, c2)" and "get_members L rc (bm_LowNMap L N) = (ts, wh)"
    and "GetWhich (Some reply) = wh" and "GetTokens (Some reply) = ts"
  shows "\<exists>mm2. GetAndMembers L mm c = Ret (mm2, None, c2) \<and> mm_Members mm2 = Some (map (\<lambda>i. Some (mi i)) [0..<N])
     \<and> mm_Session mm2 = w"
proof -
  let ?want = "bm_LowNMap L N"
  have bits: "bit ?want i \<longleftrightarrow> i < N" for i using assms(1,7) by (auto simp: bitmaps_okD(1) bit_mask_iff dest: bit_imp_le_length)
  obtain ms still where run: "collect_loop L wh (slice_of ts) [0..<N] 0 (mm_draws mm) (replicate N None) ?want None =
        Ret (ms, still, None, mm_draws mm)"
      and len: "length ms = N" "\<forall>i < N. ms ! i = Some (mi i)" and st: "\<And>i. \<not> bit still i"
    using collect_reply [OF assms(1,2,7), of "replicate N None" rc tok "mm_draws mm" mi ?want ?want] assms(9,10,15) bits by auto
  have ms: "ms = map (\<lambda>i. Some (mi i)) [0..<N]" using len by (auto intro: nth_equalityI)
  have still: "still = 0" using st by (auto intro: bit_eqI)
  obtain x where x: "self_index (Value self) ms [0..<N] = Ret x" using self_index_returns [of "[0..<N]" ms] ms by auto
  have any: "wh \<noteq> 0"
  proof
    assume "wh = 0"
    then have "\<forall>i \<in> set [0..<N]. \<not> bm_Test L wh i" using bitmaps_okD(3) [OF assms(1)] assms(7) by simp
    from collect_loop_unset [OF this] run have "ms = replicate N None" by simp
    with len(2) assms(6) show False by auto
  qed
  have round: "get_rounds L (Suc count) mm c (replicate N None) ?want None =
      Ret (mm1\<lparr>mm_draws := mm_draws mm, mm_Members := Some ms\<rparr>, None, c2)" for count
    using assms(3-5) low_bits_nonzero [OF assms(1,6,7)] clear_known_none [of "[0..<N]" "replicate N None" L ?want] assms(12-14,16,17) run still any
    by (simp add: tests_ok_def Let_def)
  show ?thesis
    using assms(5,8,11,13) x round [of 31] by (auto simp: GetAndMembers_def Let_def ms split: option.splits)
qed

text \<open>C15. The members, from one end to the other: a client that knows none of the members of a cluster and
  asks for all of them learns, in one round, every member of a full cluster, in order.\<close>

theorem get_end_to_end:
  assumes "libs_ok L" and "\<And>m. wire_ok L m" and "bitmaps_ok L" and "clear_ok L" and "tests_ok L"
    and "ih_entryState h = JOIN_RCVD" and "mm_ClusterID mm = Some n" and "valid_id (Value n)"
    and "unat (mm_ClusterMaxSize mm) = N" and "0 < N" and "N \<le> 64" and "mm_Members mm = Some (replicate N None)"
    and "ha_Find L (reg_ClustersByID r) (Value n) = (Some (HCluster cl), None)" and "length (rc_Members (get_cluster r cl)) = N"
    and "\<forall>i < N. ci_Token L (rc_Members (get_cluster r cl) ! i) = Inr (tok i)
           \<and> NewMemberInfoFromToken L (mm_draws mm) (Some (tok i)) = Inr (mi i)"
    and "nd_id (mm_Node mm) = Some self"
    and "exchange L (zeroMsg\<lparr>msg_Op := Some XLRegMsg_GetCluster, msg_ClusterID := Some (Value n),
           msg_Which := Some (bm_LowNMap L N)\<rparr>) (mm, c) (mm1, c1) (r, h, sc) (s, k, sc')"
  shows "\<exists>mm2 c2. GetAndMembers L mm c = Ret (mm2, None, c2) \<and> mm_Members mm2 = Some (map (\<lambda>i. Some (mi i)) [0..<N])"
proof -
  let ?want = "bm_LowNMap L N" and ?rc = "get_cluster r cl"
  let ?m = "zeroMsg\<lparr>msg_Op := Some XLRegMsg_GetCluster, msg_ClusterID := Some (Value n), msg_Which := Some ?want\<rparr>"
  obtain j reply c2 w where j: "writeMsg L ?m mm c = (mm1, None, c1)" "mm1 = mm\<lparr>mm_Session := w\<rparr>"
      "handle_message L ?m r h = Ret (s, j)" "ih_exitState j \<noteq> IN_CLOSED" "ih_msgOut j = Some reply"
      "readMsg L mm1 c1 = (Some reply, None, c2)"
    using assms(2,17) by (rule exchange_replied)
  have t: "op2tag (GetOp (Some ?m)) = 3" by (simp add: request_tags)
  have d: "doGetMsg L r (h\<lparr>ih_msgIn := Some ?m\<rparr>) = Ret (s, j)"
    using handled_by [OF entries(5) assms(6) t j(3,4)] by simp
  have "hamt_ok L" using assms(1) by (simp add: libs_ok_def)
  from hamt_okD(5) [OF this assms(8)] have key: "NewBytesKey L (Value n) = (Value n, None)" .
  obtain ts wh where g: "get_members L ?rc ?want = (ts, wh)" by fastforce
  have r: "GetWhich (Some reply) = wh" "GetTokens (Some reply) = ts"
    using d key assms(13) g j(5) by (auto simp: doGetMsg_def Let_def)
  show ?thesis
    using get_one_round [OF assms(3-5,7,9-12,14-16) j(1,2,6) g r] by blast
qed

section \<open>Sample runs\<close>

lemma nlib_libs [simp]: "libs_ok (xlib ms c z)"
proof -
  have "hamt_ok (xlib ms c z)" by (auto simp: hamt_ok_def valid_id_def fun_eq_iff split: if_splits)
  moreover have "nodeids_ok (xlib ms c z)" by (auto simp: nodeids_ok_def valid_id_def)
  moreover have "bloom_ok (xlib ms c z)" by (auto simp: bloom_ok_def)
  moreover have "basenodes_ok (xlib ms c z)" by (auto simp: basenodes_ok_def split: option.splits if_splits)
  ultimately show ?thesis by (simp add: libs_ok_def)
qed

lemma ref_index_nth: "ref_index ms m = Some i \<Longrightarrow> i < length ms \<and> ms ! i = m"
  by (induction ms arbitrary: i) (auto simp: ref_index_def split: if_splits)

lemma nlib_wire: "length ms \<le> 256 \<Longrightarrow> wire_ok (xlib ms c z) m"
  using ref_index_nth [of ms m] by (auto simp: wire_ok_def unat_of_nat split: option.splits)

lemma nlib_bits: "bitmaps_ok (xlib ms c z)" "clear_ok (xlib ms c z)" "tests_ok (xlib ms c z)"
proof -
  show "bitmaps_ok (xlib ms c z)" using reflib_bitmaps [of "[]"] by (simp only: bitmaps_ok_def nlib_base)
  show "clear_ok (xlib ms c z)" using clib_clear [of ms] by (simp only: clear_ok_def nlib_base)
  show "tests_ok (xlib ms c z)"
    by (simp add: tests_ok_def clib_def serverlib.defs clientlib.defs)
qed

lemma nlib_keys: "keys_ok (xlib ms c z)" "sign_ok (xlib ms c z)"
  using clib_keys [of ms] clib_sign [of ms] by (simp_all add: keys_ok_def sign_ok_def)

definition sample_handler :: "nat \<Rightarrow> ClientInfo option \<Rightarrow> u32 SessionHandler" where
  "sample_handler st cl = (new_handler (nlib [] no_cnx))\<lparr>ih_entryState := st, ih_exitState := st, ih_thisClient := cl\<rparr>"

lemma sample_handler_fields [simp]:
  "ih_entryState (sample_handler st cl) = st" "ih_thisClient (sample_handler st cl) = cl" "ih_Session (sample_handler st cl) = 0"
  "ih_cluster (sample_handler st cl) = None"
  by (simp_all add: sample_handler_def new_handler_def)

lemma sample_handled:
  assumes "index2 (msgHandlers L) st t = Some f" and "ih_entryState h = st" and "op2tag (GetOp (Some m)) = t" and "0 \<le> t" and "t \<le> 4"
    and "f r (h\<lparr>ih_msgIn := Some m\<rparr>) = Ret (s, j)" and "ih_errOut j = None"
  shows "handle_message L m r h = Ret (s, j)"
  using assms by (simp add: handle_message_def dispatch_def Let_def error_reply_def del: msg_getters)

lemma sample_exchange:
  fixes h :: "u32 SessionHandler"
  assumes "m \<noteq> reply" and "mm_Session mm = 0" and "handle_message (nlib [m, reply] no_cnx) m r h = Ret (s, j)"
    and "ih_msgOut j = Some reply" and "ih_exitState j \<noteq> IN_CLOSED" and "ih_Session h = 0"
  shows "exchange (nlib [m, reply] no_cnx) m (mm, ref_cnx [[0, 1]]) (mm\<lparr>mm_Session := 1\<rparr>, (ref_cnx [[0, 1]])\<lparr>cx_out := [[0, 0]]\<rparr>)
     (r, h, ref_cnx [[0, 0]]) (s, j\<lparr>ih_Session := 1, ih_entryState := ih_exitState j\<rparr>, (ref_cnx [])\<lparr>cx_out := [[0, 1]]\<rparr>)"
proof -
  let ?L = "nlib [m, reply] no_cnx"
  have i: "ref_index [m, reply] m = Some 0" "ref_index [m, reply] reply = Some 1" using assms(1) by (simp_all add: ref_index_def)
  have j: "ih_Session j = 0" using handle_message_session [OF assms(3)] assms(6) by simp
  have w: "writeMsg ?L m mm (ref_cnx [[0, 1]]) = (mm\<lparr>mm_Session := 1\<rparr>, None, (ref_cnx [[0, 1]])\<lparr>cx_out := [[0, 0]]\<rparr>)"
    using assms(2) i by (simp add: writeMsg_def EncodePadEncrypt_def EncodePacket_def WriteData_def Cnx_Write_def ref_cnx_def)
  have rd: "ReadData (ref_cnx [[0, 0]]) = (Some [0, 0], None, ref_cnx [])"
    by (simp add: ReadData_def Cnx_Read_def ref_cnx_def MSG_BUF_LEN_def)
  have dc: "DecryptUnpadDecode ?L (ih_Session h) [0, 0] = Inr m" by (simp add: DecryptUnpadDecode_def DecodePacket_def)
  have sr: "send_reply ?L j (ref_cnx []) = (j\<lparr>ih_Session := 1\<rparr>, (ref_cnx [])\<lparr>cx_out := [[0, 1]]\<rparr>, None)"
    using assms(4) i j by (simp add: send_reply_def EncodePadEncrypt_def EncodePacket_def WriteData_def Cnx_Write_def ref_cnx_def)
  have "loop_turn ?L r h (ref_cnx [[0, 0]]) = Ret (s, j\<lparr>ih_Session := 1, ih_entryState := ih_exitState j\<rparr>, (ref_cnx [])\<lparr>cx_out := [[0, 1]]\<rparr>, None)"
    using assms(3,5) by (simp add: loop_turn_def rd dc sr Let_def)
  moreover have "delivers [0, 0] (ref_cnx [[0, 0]])" "delivers [0, 1] ((ref_cnx [[0, 1]])\<lparr>cx_out := [[0, 0]]\<rparr>)"
    by (simp_all add: delivers_def ref_cnx_def MSG_BUF_LEN_def)
  moreover have "sessions_match ?L a b" for a b by (simp add: sessions_match_def)
  moreover have "length (cx_out (ref_cnx [[0, 0]])) = 0" by (simp add: ref_cnx_def)
  ultimately show ?thesis using w by (simp add: exchange_def)
qed

lemma nlib_srv_inv:
  assumes "srv_inv hlib r"
  shows "srv_inv (xlib ms c z) r"
  using assms
  unfolding srv_inv_def reg_inv_def reg_index_inv_def reg_names_inv_def reg_ids_inv_def cluster_inv_def names_inv_def ids_inv_def
    cluster_known_def known_def nlib_base .

lemma sample_cluster: "get_cluster ref_registry3 0 = ref_cluster 9 []" "reg_ClustersByName ref_registry3 ''club'' = Some 0"
  by (simp_all add: ref_registry3_def ref_registry1_def ref_registry_def get_cluster_def)

definition club_maker :: "u32 MemberMaker" where
  "club_maker = ref_maker\<lparr>mm_ClusterName := ''club'', mm_ClusterID := Some (NodeID (ref_id 9)), mm_Members := Some [None, None]\<rparr>"

theorem create_end_to_end_witness:
  "\<exists>mm2 c2. CreateAndReply (nlib [create_request club_maker, create_reply (ref_id 9) 2 5 1] no_cnx) club_maker (ref_cnx [[0, 1]]) = (mm2, None, c2)
     \<and> mm_ClusterID mm2 = Some (NodeID (ref_id 9)) \<and> mm_ClusterMaxSize mm2 = 2"
proof -
  let ?m = "create_request club_maker" and ?r = "create_reply (ref_id 9) 2 5 1"
  let ?L = "nlib [?m, ?r] no_cnx" and ?h = "sample_handler 1 None"
  let ?j = "?h\<lparr>ih_msgIn := Some ?m, ih_msgOut := Some ?r, ih_exitState := 2, ih_errOut := None\<rparr>"
  have t: "op2tag (GetOp (Some ?m)) = 1" by (simp add: create_request_def request_tags)
  have d: "doCreateMsg ?L ref_registry3 (?h\<lparr>ih_msgIn := Some ?m\<rparr>) = Ret (ref_registry3, ?j)"
    by (simp add: doCreateMsg_def create_request_def club_maker_def ref_maker_def sample_cluster create_existing_def ref_cluster_def
        xi_New_or_random_def Let_def)
  have hm: "handle_message ?L ?m ref_registry3 ?h = Ret (ref_registry3, ?j)"
    by (rule sample_handled [OF entries(2) _ t _ _ d]) simp_all
  have "?m \<noteq> ?r" by (auto simp: create_request_def create_reply_def dest: arg_cong [of _ _ msg_Op])
  then have ex: "exchange ?L ?m (club_maker, ref_cnx [[0, 1]]) (club_maker\<lparr>mm_Session := 1\<rparr>, (ref_cnx [[0, 1]])\<lparr>cx_out := [[0, 0]]\<rparr>)
      (ref_registry3, ?h, ref_cnx [[0, 0]]) (ref_registry3, ?j\<lparr>ih_Session := 1, ih_entryState := ih_exitState ?j\<rparr>, (ref_cnx [])\<lparr>cx_out := [[0, 1]]\<rparr>)"
    by (rule sample_exchange [OF _ _ hm]) (simp_all add: club_maker_def ref_maker_def)
  have "sess_refs ?L ref_registry3 ?h" by (simp add: sess_refs_def)
  from create_end_to_end [OF nlib_libs nlib_wire nlib_srv_inv [OF ref_registry3_inv] this _ _ ex]
  show ?thesis by (auto simp: club_maker_def sample_cluster ref_cluster_def)
qed

theorem join_end_to_end_witness:
  "\<exists>mm2 c2. JoinAndReply (nlib [zeroMsg\<lparr>msg_Op := Some XLRegMsg_Join, msg_ClusterID := Some (ref_id 9)\<rparr>, join_reply (ref_cluster 9 [])] no_cnx)
       club_maker (ref_cnx [[0, 1]]) = Ret (mm2, None, c2) \<and> mm_ClusterMaxSize mm2 = 2 \<and> mm_EPCount mm2 = 1"
proof -
  let ?m = "zeroMsg\<lparr>msg_Op := Some XLRegMsg_Join, msg_ClusterID := Some (Value (NodeID (ref_id 9)))\<rparr>" and ?r = "join_reply (ref_cluster 9 [])"
  let ?L = "nlib [?m, ?r] no_cnx" and ?cl = "ref_client ''al'' 1"
  let ?h = "sample_handler 1 (Some ?cl)" and ?s = "put_cluster 0 (ref_cluster 9 [?cl]) ref_registry3"
  let ?j = "?h\<lparr>ih_msgIn := Some ?m, ih_cluster := Some 0, ih_msgOut := Some ?r, ih_exitState := 3, ih_errOut := None\<rparr>"
  have t: "op2tag (GetOp (Some ?m)) = 2" by (simp add: request_tags)
  have a: "AddMember ?L ?cl (ref_cluster 9 []) = (ref_cluster 9 [?cl], None)"
    by (simp add: AddMember_def member_name_in_use_def member_id_check_def member_insert_def ref_cluster_def)
  have f: "ha_Find ?L (reg_ClustersByID ref_registry3) (ref_id 9) = (Some (HCluster 0), None)"
    by (simp add: ref_registry3_def ref_registry1_def)
  have r: "join_reply (ref_cluster 9 [?cl]) = ?r" by (simp add: join_reply_def ref_cluster_def)
  have d: "doJoinMsg ?L ref_registry3 (?h\<lparr>ih_msgIn := Some ?m\<rparr>) = Ret (?s, ?j)"
    using f a by (simp add: doJoinMsg_def join_cluster_def sample_cluster r Let_def)
  have hm: "handle_message ?L ?m ref_registry3 ?h = Ret (?s, ?j)"
    by (rule sample_handled [OF entries(3) _ t _ _ d]) simp_all
  have "?m \<noteq> ?r" by (auto simp: join_reply_def dest: arg_cong [of _ _ msg_Op])
  then have ex: "exchange ?L ?m (club_maker, ref_cnx [[0, 1]]) (club_maker\<lparr>mm_Session := 1\<rparr>, (ref_cnx [[0, 1]])\<lparr>cx_out := [[0, 0]]\<rparr>)
      (ref_registry3, ?h, ref_cnx [[0, 0]]) (?s, ?j\<lparr>ih_Session := 1, ih_entryState := ih_exitState ?j\<rparr>, (ref_cnx [])\<lparr>cx_out := [[0, 1]]\<rparr>)"
    by (rule sample_exchange [OF _ _ hm]) (simp_all add: club_maker_def ref_maker_def)
  have refs: "sess_refs ?L ref_registry3 ?h" by (simp add: sess_refs_def known_def ref_registry3_def ref_client_def ci_ID_def)
  have u: "get_cluster ref_registry3 cl = ref_cluster 9 []" if "rc_ID (get_cluster ref_registry3 cl) = Some (ref_id 9)"
      "rc_Members (get_cluster ?s cl) = rc_Members (get_cluster ref_registry3 cl) @ [?cl]" for cl
    using that sample_cluster(1) by (cases "cl = 0") (auto simp: put_cluster_def get_cluster_def)
  have "mm_ClusterID club_maker = Some (NodeID (ref_id 9))" by (simp add: club_maker_def)
  from join_end_to_end [OF nlib_libs nlib_wire nlib_srv_inv [OF ref_registry3_inv] refs _ this ex] u
  show ?thesis by (fastforce simp: ref_cluster_def)
qed

definition member_msg :: XLRegMsg where
  "member_msg = (case member_request (nlib [] no_cnx) ref_member 0 of Inr m \<Rightarrow> m | Inl e \<Rightarrow> zeroMsg)"

lemma sample_member_request: "member_request (xlib ms c z) ref_member 0 = Inr member_msg"
  by (simp add: member_msg_def member_request_def ref_member_def ref_priv_def ref_pub_def ref_ToWire_def Let_def)

theorem member_end_to_end_witness:
  "\<exists>mm2 c2. MemberAndOK (nlib [member_msg, zeroMsg\<lparr>msg_Op := Some XLRegMsg_MemberOK, msg_MemberID := Some (ref_id 1), msg_MemberAttrs := Some 0\<rparr>] no_cnx)
       ref_maker (ref_cnx [[0, 1]]) = (mm2, None, c2) \<and> mm_Attrs mm2 = 0"
proof -
  let ?r = "zeroMsg\<lparr>msg_Op := Some XLRegMsg_MemberOK, msg_MemberID := Some (ref_id 1), msg_MemberAttrs := Some 0\<rparr>"
  let ?L = "nlib [member_msg, ?r] no_cnx" and ?h = "sample_handler 0 None" and ?s = "(ref_registry [])\<lparr>reg_idFilter := [ref_id 1, ref_id 3]\<rparr>"
  let ?cm = "\<lparr>ci_Attrs = 0, ci_MyEnds = None, ci_BaseNode = ref_bn ''al'' 1\<rparr>"
  let ?j = "?h\<lparr>ih_msgIn := Some member_msg, ih_thisClient := Some ?cm, ih_msgOut := Some ?r, ih_exitState := 1, ih_errOut := None\<rparr>"
  have q: "member_request ?L ref_member 0 = Inr member_msg" by (rule sample_member_request)
  have f: "msg_Op member_msg = Some XLRegMsg_Member" "Token_GetName (GetMemberSpecs (Some member_msg)) = ''al''"
      "Token_GetAttrs (GetMemberSpecs (Some member_msg)) = 0" "Token_GetID (GetMemberSpecs (Some member_msg)) = Some (ref_id 1)"
      "Token_GetMyEnds (GetMemberSpecs (Some member_msg)) = None"
    using member_request_fields [OF q] by (simp_all add: ref_member_def)
  have k: "client_keys ?L (GetMemberSpecs (Some member_msg)) = Inr (ref_pub, ref_pub)"
    using member_request_keys [OF nlib_keys q] by (simp add: ref_member_def ref_priv_def)
  have i: "client_node_id ?L (Some (ref_id 1)) (ref_registry []) = Ret (?s, Some (NodeID (ref_id 1)), None)"
    by (simp add: client_node_id_def ContainsID_def InsertID_def ref_registry_def ref_node_def)
  have t: "op2tag (GetOp (Some member_msg)) = 0" using f(1) by (simp add: request_tags)
  have d: "doClientMsg ?L (ref_registry []) (?h\<lparr>ih_msgIn := Some member_msg\<rparr>) = Ret (?s, ?j)"
    by (simp add: doClientMsg_def f k i NewClientInfo_def ref_bn_def Let_def del: msg_getters token_getters)
  have hm: "handle_message ?L member_msg (ref_registry []) ?h = Ret (?s, ?j)"
    by (rule sample_handled [OF entries(1) _ t _ _ d]) simp_all
  have "member_msg \<noteq> ?r"
  proof
    assume "member_msg = ?r"
    then have "msg_Op member_msg = msg_Op ?r" by (rule arg_cong)
    then show False using f(1) by simp
  qed
  then have ex: "exchange ?L member_msg (ref_maker, ref_cnx [[0, 1]]) (ref_maker\<lparr>mm_Session := 1\<rparr>, (ref_cnx [[0, 1]])\<lparr>cx_out := [[0, 0]]\<rparr>)
      (ref_registry [], ?h, ref_cnx [[0, 0]]) (?s, ?j\<lparr>ih_Session := 1, ih_entryState := ih_exitState ?j\<rparr>, (ref_cnx [])\<lparr>cx_out := [[0, 1]]\<rparr>)"
    by (rule sample_exchange [OF _ _ hm]) (simp_all add: ref_maker_def)
  have m: "nd_id (mm_Node ref_maker) = Some (NodeID (ref_id 1))" "member_request ?L (mm_Node ref_maker) (mm_ProposedAttrs ref_maker) = Inr member_msg"
    using q by (simp_all add: ref_maker_def ref_member_def)
  from member_end_to_end [OF nlib_libs nlib_wire nlib_keys(1) nlib_srv_inv [OF ref_srv_inv] _ m ex]
  show ?thesis by (auto simp: ref_maker_def)
qed

definition get_msg :: XLRegMsg where
  "get_msg = zeroMsg\<lparr>msg_Op := Some XLRegMsg_GetCluster, msg_ClusterID := Some (ref_id 9), msg_Which := Some (mask 2)\<rparr>"

definition get_reply_msg :: XLRegMsg where
  "get_reply_msg = zeroMsg\<lparr>msg_Op := Some XLRegMsg_ClusterMembers, msg_ClusterID := Some (ref_id 9), msg_Which := Some (mask 2),
     msg_Tokens := Some [ref_token ''al'' 1, ref_token ''bob'' 2]\<rparr>"

lemma sample_tokens:
  "ci_Token (nlib ms c) (ref_client nm n) = Inr (ref_token nm n)"
  "nm \<noteq> [] \<Longrightarrow> NewMemberInfoFromToken (nlib ms c) d (Some (ref_token nm n)) = Inr (ref_info nm n)"
  by (simp_all add: ci_Token_def NewMemberInfoFromToken_def ref_client_def ref_token_def ref_info_def ref_bn_def ref_ToWire_def ref_FromWire_def
      ref_pub_def ci_GetName_def ci_ID_def xi_New_or_random_def ref_ends)

lemma sample_members:
  assumes "ci_Token (nlib ms c) x = Inr tx" and "ci_Token (nlib ms c) y = Inr ty"
  shows "get_members (nlib ms c) (ref_cluster 9 [x, y]) (mask 2) = (Some [tx, ty], mask 2)"
proof -
  let ?rc = "ref_cluster 9 [x, y]"
  have m: "rc_Members ?rc = [x, y]" by (simp add: ref_cluster_def)
  have tk: "\<forall>m \<in> set (rc_Members ?rc). \<exists>t. ci_Token (nlib ms c) m = Inr t" using assms by (simp add: m)
  have len: "length (rc_Members ?rc) < 2 ^ 32" "min 64 (length [x, y]) = 2" by (simp_all add: m)
  note r = get_members_result [OF nlib_bits(1) len(1) tk, of "mask 2", unfolded m len(2)]
  have b: "filter (bit (mask 2 :: u64)) [0..<2] = [0, 1]" by (simp add: upt_rec bit_mask_iff)
  have "map Inr (slice_of (fst (get_members (nlib ms c) ?rc (mask 2)))) = (map Inr [tx, ty] :: (gerror + XLRegMsg_Token) list)"
    unfolding r(2) b using assms by simp
  then have "slice_of (fst (get_members (nlib ms c) ?rc (mask 2))) = [tx, ty]"
    by (rule map_injective) (simp add: inj_def)
  then have "fst (get_members (nlib ms c) ?rc (mask 2)) = Some [tx, ty]"
    by (cases "fst (get_members (nlib ms c) ?rc (mask 2))") simp_all
  moreover have "snd (get_members (nlib ms c) ?rc (mask 2)) = mask 2" using r(1) by simp
  ultimately show ?thesis by (metis prod.collapse)
qed

theorem get_end_to_end_witness:
  "\<exists>mm2 c2. GetAndMembers (nlib [get_msg, get_reply_msg] no_cnx) club_maker (ref_cnx [[0, 1]]) = Ret (mm2, None, c2)
     \<and> mm_Members mm2 = Some [Some (ref_info ''al'' 1), Some (ref_info ''bob'' 2)]"
proof -
  let ?L = "nlib [get_msg, get_reply_msg] no_cnx" and ?h = "sample_handler 3 None" and ?rc = "ref_cluster 9 [ref_client ''al'' 1, ref_client ''bob'' 2]"
  let ?j = "?h\<lparr>ih_msgIn := Some get_msg, ih_msgOut := Some get_reply_msg, ih_exitState := 3, ih_errOut := None\<rparr>"
  have g: "get_cluster ref_registry2 0 = ?rc" by (simp add: ref_registry2_def get_cluster_def)
  have m: "rc_Members ?rc = [ref_client ''al'' 1, ref_client ''bob'' 2]" by (simp add: ref_cluster_def)
  have f: "ha_Find ?L (reg_ClustersByID ref_registry2) (Value (NodeID (ref_id 9))) = (Some (HCluster 0), None)"
    by (simp add: ref_registry2_def ref_registry1_def)
  have d: "doGetMsg ?L ref_registry2 (?h\<lparr>ih_msgIn := Some get_msg\<rparr>) = Ret (ref_registry2, ?j)"
    using f by (simp add: doGetMsg_def g get_msg_def sample_members [OF sample_tokens(1) sample_tokens(1)] get_reply_msg_def Let_def)
  have t: "op2tag (GetOp (Some get_msg)) = 3" by (simp add: get_msg_def request_tags)
  have hm: "handle_message ?L get_msg ref_registry2 ?h = Ret (ref_registry2, ?j)"
    by (rule sample_handled [OF entries(5) _ t _ _ d]) simp_all
  have "get_msg \<noteq> get_reply_msg" by (auto simp: get_msg_def get_reply_msg_def dest: arg_cong [of _ _ msg_Op])
  then have "exchange ?L get_msg (club_maker, ref_cnx [[0, 1]]) (club_maker\<lparr>mm_Session := 1\<rparr>, (ref_cnx [[0, 1]])\<lparr>cx_out := [[0, 0]]\<rparr>)
      (ref_registry2, ?h, ref_cnx [[0, 0]]) (ref_registry2, ?j\<lparr>ih_Session := 1, ih_entryState := ih_exitState ?j\<rparr>, (ref_cnx [])\<lparr>cx_out := [[0, 1]]\<rparr>)"
    by (rule sample_exchange [OF _ _ hm]) (simp_all add: club_maker_def ref_maker_def)
  then have ex: "exchange ?L (zeroMsg\<lparr>msg_Op := Some XLRegMsg_GetCluster, msg_ClusterID := Some (Value (NodeID (ref_id 9))), msg_Which := Some (bm_LowNMap ?L 2)\<rparr>)
      (club_maker, ref_cnx [[0, 1]]) (club_maker\<lparr>mm_Session := 1\<rparr>, (ref_cnx [[0, 1]])\<lparr>cx_out := [[0, 0]]\<rparr>)
      (ref_registry2, ?h, ref_cnx [[0, 0]]) (ref_registry2, ?j\<lparr>ih_Session := 1, ih_entryState := ih_exitState ?j\<rparr>, (ref_cnx [])\<lparr>cx_out := [[0, 1]]\<rparr>)"
    by (simp add: get_msg_def)
  let ?tok = "\<lambda>i. if i = 0 then ref_token ''al'' 1 else ref_token ''bob'' 2" and ?mi = "\<lambda>i. if i = (0 :: nat) then ref_info ''al'' 1 else ref_info ''bob'' 2"
  have k: "\<forall>i < 2. ci_Token ?L (rc_Members (get_cluster ref_registry2 0) ! i) = Inr (?tok i)
      \<and> NewMemberInfoFromToken ?L (mm_draws club_maker) (Some (?tok i)) = Inr (?mi i)"
    by (auto simp: g m less_Suc_eq numeral_2_eq_2 sample_tokens)
  have c: "mm_ClusterID club_maker = Some (NodeID (ref_id 9))" "unat (mm_ClusterMaxSize club_maker) = 2" "mm_Members club_maker = Some (replicate 2 None)"
      "nd_id (mm_Node club_maker) = Some (NodeID (ref_id 1))"
    by (simp_all add: club_maker_def ref_maker_def ref_member_def) (simp add: numeral_2_eq_2)
  have "length (rc_Members (get_cluster ref_registry2 0)) = 2" by (simp add: g m)
  from get_end_to_end [OF nlib_libs nlib_wire nlib_bits _ c(1) _ c(2) _ _ c(3) f this k c(4) ex]
  show ?thesis by (simp add: upt_rec)
qed

end
