(* ===== verification/SessionLog.thy ===== *)
theory SessionLog
  imports Composition
begin

text \<open>
  What the server has done for one connection, whatever others do in between. It is kept in a log, an
  entry for each packet that was read and answered; the entries stay true as the registry grows. While
  every packet has its reply the log has them all, and once one has none there are fewer replies than
  packets.
\<close>

section \<open>The registry's node stays\<close>

definition same_node :: "('h, 'b) Registry \<Rightarrow> ('h, 'b) Registry \<times> 'x \<Rightarrow> bool" where
  "same_node r out \<longleftrightarrow> reg_RegNode (fst out) = reg_RegNode r"

lemma InsertID_same_node: "reg_RegNode (fst (InsertID L i r)) = reg_RegNode r"
  by (simp add: InsertID_def split: sum.split)

lemma InsertUniqueNodeID_same_node: "oall (same_node r) (InsertUniqueNodeID L r)"
  unfolding InsertUniqueNodeID_def Let_def
  by (auto split: sum.split option.split intro!: oall_obindI simp: same_node_def)

text \<open>Calls in sequence keep the node if each of them does.\<close>

lemma same_node_obind:
  assumes "oall (same_node r) m" and "\<And>s x. reg_RegNode s = reg_RegNode r \<Longrightarrow> oall (same_node r) (f (s, x))"
  shows "oall (same_node r) (obind m f)"
  using assms by (cases m) (auto simp: same_node_def)

lemma client_node_id_same_node: "oall (same_node r) (client_node_id L b r)"
proof (cases b)
  case None
  show ?thesis unfolding client_node_id_def None option.case
    by (intro same_node_obind InsertUniqueNodeID_same_node) (auto simp: same_node_def)
next
  case (Some i)
  have "reg_RegNode s = reg_RegNode r" if "InsertID L n r = (s, e)" for n s e
    using InsertID_same_node [of L n r] that by simp
  then show ?thesis unfolding client_node_id_def Some option.case by (simp add: same_node_def split: sum.split prod.split)
qed

lemma AddCluster_same_node: "reg_RegNode s = reg_RegNode r \<Longrightarrow> oall (same_node r) (AddCluster L c s)"
  unfolding AddCluster_def cluster_insert_def Let_def
  by (simp add: same_node_def split: sum.split option.split prod.split)

lemma create_new_same_node: "oall (same_node r) (create_new L nm a z e r h)"
  unfolding create_new_def Let_def
  by (rule same_node_obind [OF InsertUniqueNodeID_same_node])
    (auto simp: new_cluster_def same_node_def split: option.split sum.split intro!: same_node_obind AddCluster_same_node)

lemma handlers_same_node:
  "oall (same_node r) (doClientMsg L r h)" "oall (same_node r) (doCreateMsg L r h)"
  "oall (same_node r) (doJoinMsg L r h)" "oall (same_node r) (doGetMsg L r h)"
  "oall (same_node r) (doByeMsg r h)" "oall (same_node r) (badCombo r h)"
proof -
  show "oall (same_node r) (doClientMsg L r h)" unfolding doClientMsg_def Let_def
    by (auto split: sum.split option.split intro!: same_node_obind client_node_id_same_node simp: same_node_def)
  show "oall (same_node r) (doCreateMsg L r h)" unfolding doCreateMsg_def create_existing_def Let_def
    using create_new_same_node by (auto split: sum.split option.split prod.split simp: same_node_def)
  show "oall (same_node r) (doJoinMsg L r h)" unfolding doJoinMsg_def Let_def
    by (auto split: option.split prod.split intro!: oall_obindI simp: same_node_def put_cluster_def)
  show "oall (same_node r) (doGetMsg L r h)" unfolding doGetMsg_def Let_def
    by (auto split: sum.split option.split prod.split hval.split simp: same_node_def)
qed (simp_all add: doByeMsg_def badCombo_def same_node_def)

lemma handle_message_same_node:
  assumes "handle_message L m r h = Ret (s, j)"
  shows "reg_RegNode s = reg_RegNode r"
proof -
  obtain i where i: "dispatch L (op2tag (GetOp (Some m))) r (h\<lparr>ih_msgIn := Some m\<rparr>) = Ret (s, i)"
    using assms by (rule handle_message_dispatch)
  then obtain f where f: "index2 (msgHandlers L) (ih_entryState h) (op2tag (GetOp (Some m))) = Some f"
      "f r (h\<lparr>ih_msgIn := Some m\<rparr>) = Ret (s, i)"
    by (auto simp: dispatch_def simp del: msg_getters split: option.splits)
  have "oall (same_node r) (f r (h\<lparr>ih_msgIn := Some m\<rparr>))"
    using index2_msgHandlers [OF f(1)] handlers_same_node [of r] by auto
  then show ?thesis using f(2) by (simp add: same_node_def)
qed

text \<open>What a turn of the loop does, case by case.\<close>

lemma loop_turn_cases:
  assumes "loop_turn L r h cnx = Ret (s, k, cnx', x)"
  obtains (eof) data cnx1 e where "ReadData cnx = (data, Some e, cnx1)" and "s = r" and "k = h" and "cnx' = cnx1" and "x = Some (Some e)"
  | (bad) data cnx1 e where "ReadData cnx = (data, None, cnx1)" and "DecryptUnpadDecode L (ih_Session h) (slice_of data) = Inl e"
      and "s = r" and "k = h" and "cnx' = cnx1" and "x = Some (Some e)"
  | (turn) data cnx1 m j w err where "ReadData cnx = (data, None, cnx1)" and "DecryptUnpadDecode L (ih_Session h) (slice_of data) = Inr m"
      and "handle_message L m r h = Ret (s, j)" and "send_reply L j cnx1 = (j\<lparr>ih_Session := w\<rparr>, cnx', err)"
      and "k = j\<lparr>ih_Session := w, ih_entryState := ih_exitState j\<rparr>" and "x = (if ih_exitState j = IN_CLOSED then Some err else None)"
proof -
  obtain data err cnx1 where rd: "ReadData cnx = (data, err, cnx1)" by (metis prod_cases3)
  note run = assms [unfolded loop_turn_def rd prod.case]
  show ?thesis
  proof (cases err)
    case (Some e)
    then show ?thesis using run rd by (intro eof) auto
  next
    case None
    show ?thesis
    proof (cases "DecryptUnpadDecode L (ih_Session h) (slice_of data)")
      case (Inl e)
      then show ?thesis using run rd None by (intro bad) auto
    next
      case (Inr m)
      then obtain s' j where hm: "handle_message L m r h = Ret (s', j)" using run None by (cases "handle_message L m r h") auto
      obtain j2 cnx2 e2 where sr: "send_reply L j cnx1 = (j2, cnx2, e2)" by (metis prod_cases3)
      obtain w where j2: "j2 = j\<lparr>ih_Session := w\<rparr>" using sr by (rule send_reply_handler)
      show ?thesis using run rd None Inr hm sr j2 by (intro turn) (auto simp: Let_def)
    qed
  qed
qed

lemma conn_step_same_node:
  assumes "conn_step L version u r l = Ret (s, k)"
  shows "reg_RegNode s = reg_RegNode r"
proof -
  obtain h cnx ph where l: "l = (h, cnx, ph)" by (metis prod_cases3)
  show ?thesis
  proof (cases ph)
    case Looping
    then obtain s' k' cnx' x where t: "loop_turn L r h cnx = Ret (s', k', cnx', x)" "s = s'"
      using assms by (auto simp: conn_step_def l obind_Ret_iff split: option.splits)
    from t(1) show ?thesis
      by (cases rule: loop_turn_cases) (use handle_message_same_node t(2) in auto)
  qed (use assms in \<open>auto simp: conn_step_def l split: prod.splits option.splits\<close>)
qed


section \<open>The log of a session\<close>

text \<open>The sessions that follow from one by encrypting.\<close>

inductive descends :: "('h, 'v, 'b, 's, 'z) serverlib_scheme \<Rightarrow> 's \<Rightarrow> 's \<Rightarrow> bool" for L s0 where
  same: "descends L s0 s0"
| encrypted: "descends L s0 s \<Longrightarrow> aes_Encrypt L s p = (t, r) \<Longrightarrow> descends L s0 t"

lemma descends_encode:
  assumes "descends L s0 s" and "EncodePadEncrypt L s m = (t, r)"
  shows "descends L s0 t"
  using assms
  by (auto simp: EncodePadEncrypt_def intro: descends.encrypted split: sum.splits prod.splits)

text \<open>
  An entry of the log: the packet that was read, the message in it, the reply, the packet it was sent
  in, and the state and the client of the session after it. The newest entry comes first.
\<close>

record entry =
  en_in :: bytes
  en_msg :: XLRegMsg
  en_reply :: XLRegMsg
  en_out :: bytes
  en_state :: nat
  en_client :: "ClientInfo option"

definition log_state :: "entry list \<Rightarrow> nat" where
  "log_state log = (case log of [] \<Rightarrow> HELLO_RCVD | e # _ \<Rightarrow> en_state e)"

definition log_client :: "entry list \<Rightarrow> ClientInfo option" where
  "log_client log = (case log of [] \<Rightarrow> None | e # _ \<Rightarrow> en_client e)"

text \<open>What the registry holds after a client's description, a Create, and a Join, that was not refused.\<close>

definition enrolled :: "('h, hval, 'b, 'z) reglib_scheme \<Rightarrow> ('h, 'b) Registry \<Rightarrow> XLRegMsg_Token option \<Rightarrow> ClientInfo option \<Rightarrow> bool" where
  "enrolled L r specs client \<longleftrightarrow> (\<exists>m. client = Some m \<and> ci_GetName m = Token_GetName specs \<and> known L r (ci_ID m)
     \<and> (\<forall>b. Token_GetID specs = Some b \<longrightarrow> ci_ID m = b))"

definition created :: "('h, 'b) Registry \<Rightarrow> string \<Rightarrow> XLRegMsg \<Rightarrow> bool" where
  "created r nm reply \<longleftrightarrow> (\<exists>cl i a e. cl \<in> set (reg_Clusters r) \<and> cl < length (reg_heap r) \<and> rc_Name (get_cluster r cl) = nm
     \<and> rc_ID (get_cluster r cl) = Some i \<and> valid_id i \<and> reply = create_reply i (rc_maxSize (get_cluster r cl)) a e)"

definition joined :: "('h, 'b) Registry \<Rightarrow> bytes \<Rightarrow> ClientInfo option \<Rightarrow> XLRegMsg \<Rightarrow> bool" where
  "joined r b client reply \<longleftrightarrow> (\<exists>cl m. cl < length (reg_heap r) \<and> rc_ID (get_cluster r cl) = Some b \<and> client = Some m
     \<and> m \<in> set (rc_Members (get_cluster r cl)) \<and> GetClusterMaxSize (Some reply) = rc_maxSize (get_cluster r cl)
     \<and> GetEndPointCount (Some reply) = rc_epCount (get_cluster r cl))"

definition entry_effect :: "('h, hval, 'b, 'z) reglib_scheme \<Rightarrow> ('h, 'b) Registry \<Rightarrow> entry list \<Rightarrow> entry \<Rightarrow> bool" where
  "entry_effect L r log e \<longleftrightarrow>
     (log_state log = HELLO_RCVD \<and> msg_Op (en_msg e) = Some XLRegMsg_Member \<longrightarrow>
        en_state e = CLIENT_DETAILS_RCVD \<and> enrolled L r (GetMemberSpecs (Some (en_msg e))) (en_client e))
     \<and> (log_state log = CLIENT_DETAILS_RCVD \<and> msg_Op (en_msg e) = Some XLRegMsg_Create \<and> GetClusterName (Some (en_msg e)) \<noteq> [] \<longrightarrow>
          created r (GetClusterName (Some (en_msg e))) (en_reply e))
     \<and> (\<forall>b. log_state log = CLIENT_DETAILS_RCVD \<and> msg_Op (en_msg e) = Some XLRegMsg_Join \<and> GetClusterID (Some (en_msg e)) = Some b \<longrightarrow>
          joined r b (log_client log) (en_reply e) \<and> en_client e = log_client log)"

fun log_ok :: "('h, hval, 'b, 's, 'z) serverlib_scheme \<Rightarrow> ('h, 'b) Registry \<Rightarrow> 's \<Rightarrow> entry list \<Rightarrow> bool" where
  "log_ok L r s0 [] = True"
| "log_ok L r s0 (e # log) \<longleftrightarrow>
     (\<exists>t. descends L s0 t \<and> DecryptUnpadDecode L t (en_in e) = Inr (en_msg e))
     \<and> (\<exists>t u. descends L s0 t \<and> EncodePadEncrypt L t (en_reply e) = (u, Inr (en_out e)))
     \<and> log_state log \<noteq> IN_CLOSED \<and> (en_state e \<noteq> IN_CLOSED \<longrightarrow> entry_effect L r log e) \<and> log_ok L r s0 log"

lemma cluster_grows:
  assumes "reg_le L r s" and "cl < length (reg_heap r)"
  shows "cl < length (reg_heap s)" "rc_Name (get_cluster s cl) = rc_Name (get_cluster r cl)"
    "rc_ID (get_cluster s cl) = rc_ID (get_cluster r cl)" "rc_maxSize (get_cluster s cl) = rc_maxSize (get_cluster r cl)"
    "rc_epCount (get_cluster s cl) = rc_epCount (get_cluster r cl)"
    "set (rc_Members (get_cluster r cl)) \<subseteq> set (rc_Members (get_cluster s cl))"
    "set (reg_Clusters r) \<subseteq> set (reg_Clusters s)"
  using assms by (auto simp: reg_le_def cluster_le_def)

lemma created_mono:
  assumes "reg_le L r s" and "created r nm reply"
  shows "created s nm reply"
proof -
  obtain cl i a e where c: "cl \<in> set (reg_Clusters r)" "cl < length (reg_heap r)" "rc_Name (get_cluster r cl) = nm"
      "rc_ID (get_cluster r cl) = Some i" "valid_id i" "reply = create_reply i (rc_maxSize (get_cluster r cl)) a e"
    using assms(2) by (auto simp: created_def)
  note g = cluster_grows [OF assms(1) c(2)]
  from g(7) c(1) have "cl \<in> set (reg_Clusters s)" by blast
  with g(1-4) c have "cl \<in> set (reg_Clusters s) \<and> cl < length (reg_heap s) \<and> rc_Name (get_cluster s cl) = nm
     \<and> rc_ID (get_cluster s cl) = Some i \<and> valid_id i \<and> reply = create_reply i (rc_maxSize (get_cluster s cl)) a e" by simp
  then show ?thesis unfolding created_def by blast
qed

lemma joined_mono:
  assumes "reg_le L r s" and "joined r b c reply"
  shows "joined s b c reply"
proof -
  obtain cl m where c: "cl < length (reg_heap r)" "rc_ID (get_cluster r cl) = Some b" "c = Some m"
      "m \<in> set (rc_Members (get_cluster r cl))" "GetClusterMaxSize (Some reply) = rc_maxSize (get_cluster r cl)"
      "GetEndPointCount (Some reply) = rc_epCount (get_cluster r cl)"
    using assms(2) by (auto simp: joined_def simp del: msg_getters)
  note g = cluster_grows [OF assms(1) c(1)]
  from g(6) c(4) have "m \<in> set (rc_Members (get_cluster s cl))" by blast
  with g(1,3-5) c show ?thesis unfolding joined_def by (metis (no_types))
qed

lemma enrolled_mono: "reg_le L r s \<Longrightarrow> enrolled L r specs c \<Longrightarrow> enrolled L s specs c"
  by (auto simp: enrolled_def reg_le_def known_def)

lemma log_ok_mono: "reg_le L r s \<Longrightarrow> log_ok L r s0 log \<Longrightarrow> log_ok L s s0 log"
proof (induction log)
  case (Cons e log)
  have "entry_effect L s log e" if "entry_effect L r log e"
    using that enrolled_mono [OF Cons.prems(1)] created_mono [OF Cons.prems(1)] joined_mono [OF Cons.prems(1)] unfolding entry_effect_def by blast
  with Cons show ?case by auto
qed simp

text \<open>What a message that was not refused did.\<close>

lemma member_effect:
  assumes "libs_ok L" and "srv_inv L r" and "ih_entryState h = HELLO_RCVD" and "msg_Op m = Some XLRegMsg_Member"
    and "handle_message L m r h = Ret (s, j)" and "ih_exitState j \<noteq> IN_CLOSED"
  shows "ih_exitState j = CLIENT_DETAILS_RCVD \<and> enrolled L s (GetMemberSpecs (Some m)) (ih_thisClient j)"
proof -
  have t: "op2tag (GetOp (Some m)) = 0" using assms(4) by (simp add: request_tags)
  have d: "doClientMsg L r (h\<lparr>ih_msgIn := Some m\<rparr>) = Ret (s, j)" "ih_errOut j = None"
    using handled_by [OF entries(1) assms(3) t assms(5,6)] by simp_all
  let ?specs = "GetMemberSpecs (Some m)"
  obtain n ck sk err cm where a: "client_node_id L (Token_GetID ?specs) r = Ret (s, Some n, err)" "err = None \<or> err = Some IDAlreadyInUse"
      "NewClientInfo L (Token_GetName ?specs) (Some n) (Some ck) (Some sk) (Token_GetAttrs ?specs) (Token_GetMyEnds ?specs) = Inr cm"
      "ih_thisClient j = Some cm"
    by (rule doClientMsg_accepted [OF d]) (simp del: msg_getters token_getters)
  have L: "basenodes_ok L" "nodeids_ok L" using assms(1) by (simp_all add: libs_ok_def)
  from NewClientInfo_Inr [OF L(1) a(3)] have c: "ci_GetName cm = Token_GetName ?specs" "ci_ID cm = Value n"
    by (auto simp: ci_GetName_def ci_ID_def simp del: msg_getters token_getters)
  have "known L s (Value n)" using client_node_id_step(3) [OF assms(1,2) a(1,2)] by simp
  moreover have "Value n = b" if "Token_GetID ?specs = Some b" for b
  proof -
    have "xi_New L b = Inr n" using a(1) that
      by (auto simp: client_node_id_def ext_def simp del: msg_getters token_getters split: sum.splits if_splits prod.splits)
    then show ?thesis using nodeids_okD(2) [OF L(2)] by fastforce
  qed
  moreover have "ih_exitState j = CLIENT_DETAILS_RCVD"
    using oallD [OF doClientMsg_answers d(1)] d(2) by (simp add: answers_def)
  ultimately show ?thesis using a(4) c unfolding enrolled_def by auto
qed

lemma create_effect:
  assumes "libs_ok L" and "srv_inv L r" and "sess_inv L r h" and "ih_entryState h = CLIENT_DETAILS_RCVD"
    and "msg_Op m = Some XLRegMsg_Create" and "GetClusterName (Some m) \<noteq> []"
    and "handle_message L m r h = Ret (s, j)" and "ih_exitState j \<noteq> IN_CLOSED" and "ih_msgOut j = Some reply"
  shows "created s (GetClusterName (Some m)) reply"
proof -
  have t: "op2tag (GetOp (Some m)) = 1" using assms(5) by (simp add: request_tags)
  have d: "doCreateMsg L r (h\<lparr>ih_msgIn := Some m\<rparr>) = Ret (s, j)" "ih_errOut j = None"
    using handled_by [OF entries(2) assms(4) t assms(7,8)] by simp_all
  have refs: "sess_refs L r (h\<lparr>ih_msgIn := Some m\<rparr>)" using assms(3) by (simp add: sess_inv_def)
  have nm: "GetClusterName (ih_msgIn (h\<lparr>ih_msgIn := Some m\<rparr>)) = GetClusterName (Some m)" by simp
  obtain cl i a e where cl: "reg_ClustersByName s (GetClusterName (Some m)) = Some cl" "valid_id i"
      "rc_ID (get_cluster s cl) = Some i" "ih_msgOut j = Some (create_reply i (rc_maxSize (get_cluster s cl)) a e)"
    by (rule doCreateMsg_agrees [OF assms(1,2) refs _ d, unfolded nm]) (use assms(6) in auto)
  have "srv_inv L s" using doCreateMsg_keeps [OF assms(1,2) refs d(1)] by (simp add: keeps_def)
  then have "cl \<in> set (reg_Clusters s)" "cl < length (reg_heap s)" "rc_Name (get_cluster s cl) = GetClusterName (Some m)"
    using cl(1) by (auto simp: srv_inv_def reg_inv_def reg_index_inv_def reg_names_inv_def reg_name_def)
  with cl(2-4) assms(9) show ?thesis by (auto simp: created_def)
qed

lemma join_effect:
  assumes "libs_ok L" and "srv_inv L r" and "sess_inv L r h" and "ih_entryState h = CLIENT_DETAILS_RCVD"
    and "msg_Op m = Some XLRegMsg_Join" and "GetClusterID (Some m) = Some b"
    and "handle_message L m r h = Ret (s, j)" and "ih_exitState j \<noteq> IN_CLOSED" and "ih_msgOut j = Some reply"
  shows "joined s b (ih_thisClient h) reply \<and> ih_thisClient j = ih_thisClient h"
proof -
  have t: "op2tag (GetOp (Some m)) = 2" using assms(5) by (simp add: request_tags)
  have d: "doJoinMsg L r (h\<lparr>ih_msgIn := Some m\<rparr>) = Ret (s, j)" "ih_errOut j = None"
    using handled_by [OF entries(3) assms(4) t assms(7,8)] by simp_all
  have refs: "sess_refs L r (h\<lparr>ih_msgIn := Some m\<rparr>)" using assms(3) by (simp add: sess_inv_def)
  obtain cl c where cl: "ih_thisClient h = Some c" "cl < length (reg_heap r)" "rc_ID (get_cluster r cl) = Some b"
      "rc_Members (get_cluster s cl) = rc_Members (get_cluster r cl) @ [c]" "ih_msgOut j = Some (join_reply (get_cluster r cl))"
    using doJoinMsg_joins [OF assms(1,2) refs d] assms(6) by auto
  have "oall (\<lambda>(s, k). ih_thisClient k = ih_thisClient h) (doJoinMsg L r (h\<lparr>ih_msgIn := Some m\<rparr>))"
    unfolding doJoinMsg_def Let_def by (auto split: prod.split option.split intro!: oall_obindI)
  then have "ih_thisClient j = ih_thisClient h" using d(1) by simp
  moreover have "message_turn L m r h = Ret (s, j\<lparr>ih_entryState := ih_exitState j\<rparr>)" using assms(7) by (simp add: message_turn_def)
  then have "reg_le L r s" using message_turn_keeps [OF assms(1-3)] by blast
  note g = cluster_grows [OF this cl(2)]
  have "joined s b (ih_thisClient h) reply"
    unfolding joined_def
    by (rule exI [of _ cl], rule exI [of _ c]) (use g(1,3-5) cl assms(9) in \<open>auto simp: join_reply_def\<close>)
  ultimately show ?thesis by blast
qed

lemma message_effect:
  assumes "libs_ok L" and "srv_inv L r" and "sess_inv L r h" and "handle_message L m r h = Ret (s, j)" and "ih_exitState j \<noteq> IN_CLOSED"
    and "ih_msgOut j = Some reply" and "log_state log = ih_entryState h" and "log_client log = ih_thisClient h"
  shows "entry_effect L s log \<lparr>en_in = p, en_msg = m, en_reply = reply, en_out = d, en_state = ih_exitState j, en_client = ih_thisClient j\<rparr>"
  using member_effect [OF assms(1,2) _ _ assms(4,5)] create_effect [OF assms(1-3) _ _ _ assms(4-6)] join_effect [OF assms(1-3) _ _ _ assms(4-6)] assms(7,8)
  unfolding entry_effect_def entry.simps by metis


section \<open>A connection whose packets arrive\<close>

definition packets :: "bytes list \<Rightarrow> (bytes \<times> gerror option) list" where
  "packets ps = map (\<lambda>p. (p, None)) ps"

text \<open>Packets that fit into the buffer.\<close>

definition fits :: "bytes list \<Rightarrow> bool" where
  "fits ps \<longleftrightarrow> (\<forall>p \<in> set ps. p \<noteq> [] \<and> length p \<le> MSG_BUF_LEN)"

lemma ReadData_packets:
  assumes "fits ps" and "cx_in c = packets ps"
  shows "ReadData c = (case ps of [] \<Rightarrow> (None, Some IoEOF, c) | p # qs \<Rightarrow> (Some p, None, c\<lparr>cx_in := packets qs\<rparr>))"
  using assms by (cases ps) (auto simp: packets_def fits_def ReadData_def Cnx_Read_def)

lemma fits_drop: "fits ps \<Longrightarrow> fits (drop n ps)"
  by (auto simp: fits_def dest: in_set_dropD)

lemma send_reply_open:
  assumes "send_reply L j c = (j', c', err)" and "cx_writes c = []"
  obtains (nothing) "cx_in c' = cx_in c" and "cx_writes c' = []" and "cx_out c' = cx_out c"
  | (sent) reply d where "cx_in c' = cx_in c" and "cx_writes c' = []" and "ih_msgOut j = Some reply"
      and "EncodePadEncrypt L (ih_Session j) reply = (ih_Session j', Inr d)" and "cx_out c' = cx_out c @ [d]"
  using assms by (auto simp: send_reply_def WriteData_def Cnx_Write_def split: option.splits sum.splits prod.splits)

section \<open>The log and the connection\<close>

text \<open>
  While the server has answered every packet that it has read, the log has them all; once it has not,
  there are fewer replies than packets. \<open>ps\<close> is everything that the client sends.
\<close>

definition hello_log ::
  "('h, hval, 'b, 's, 'z) serverlib_scheme \<Rightarrow> u32 \<Rightarrow> rsa_priv \<Rightarrow> bytes list \<Rightarrow> bytes list \<Rightarrow> ('h, 'b) Registry \<Rightarrow> 's \<Rightarrow> entry list \<Rightarrow> bool" where
  "hello_log L version priv ps out r s0 log \<longleftrightarrow>
     (\<exists>p sOneShot v d0. ServerDecryptHello L p priv = Inr (sOneShot, v) \<and> ServerEncryptHelloReply L sOneShot version = Inr (s0, d0)
        \<and> log_ok L r s0 log \<and> ps = p # map en_in (rev log) \<and> out = d0 # map en_out (rev log))"

definition log_inv ::
  "('h, hval, 'b, 's, 'z) serverlib_scheme \<Rightarrow> u32 \<Rightarrow> rsa_priv \<Rightarrow> bytes list \<Rightarrow> ('h, 'b) Registry \<Rightarrow>
   's SessionHandler \<times> TcpConnection \<times> phase \<Rightarrow> bool" where
  "log_inv L version priv ps r l \<longleftrightarrow>
     (case l of (h, cnx, ph) \<Rightarrow> rn_ckPriv (reg_RegNode r) = priv \<and> cx_writes cnx = [] \<and>
        (\<exists>k \<le> length ps. cx_in cnx = packets (drop k ps) \<and>
          (ph = Starting \<and> k = 0 \<and> cx_out cnx = [] \<and> h = new_handler L
           \<or> ph \<noteq> Starting \<and> length (cx_out cnx) < k
           \<or> (\<exists>e. ph = Ended e) \<and> k = 0 \<and> cx_out cnx = []
           \<or> ph \<noteq> Starting \<and> (\<exists>s0 log. hello_log L version priv (take k ps) (cx_out cnx) r s0 log
               \<and> (ph = Looping \<longrightarrow> descends L s0 (ih_Session h) \<and> log_state log = ih_entryState h
                    \<and> log_client log = ih_thisClient h \<and> ih_entryState h \<noteq> IN_CLOSED)))))"

lemma hello_log_length: "hello_log L version priv ps out r s0 log \<Longrightarrow> length out = length ps"
  by (auto simp: hello_log_def)

lemma hello_log_mono: "reg_le L r s \<Longrightarrow> hello_log L version priv ps out r s0 log \<Longrightarrow> hello_log L version priv ps out s s0 log"
  unfolding hello_log_def by (elim exE conjE, intro exI conjI) (assumption | erule (1) log_ok_mono)+

lemma log_inv_mono:
  assumes "reg_le L r s" and "reg_RegNode s = reg_RegNode r" and "log_inv L version priv ps r l"
  shows "log_inv L version priv ps s l"
proof -
  obtain h cnx ph where l: "l = (h, cnx, ph)" by (metis prod_cases3)
  note m = hello_log_mono [OF assms(1), of version priv]
  obtain k where k: "k \<le> length ps" "cx_in cnx = packets (drop k ps)"
      "ph = Starting \<and> k = 0 \<and> cx_out cnx = [] \<and> h = new_handler L
       \<or> ph \<noteq> Starting \<and> length (cx_out cnx) < k
       \<or> (\<exists>e. ph = Ended e) \<and> k = 0 \<and> cx_out cnx = []
       \<or> ph \<noteq> Starting \<and> (\<exists>s0 log. hello_log L version priv (take k ps) (cx_out cnx) r s0 log
           \<and> (ph = Looping \<longrightarrow> descends L s0 (ih_Session h) \<and> log_state log = ih_entryState h
                \<and> log_client log = ih_thisClient h \<and> ih_entryState h \<noteq> IN_CLOSED))"
    using assms(3) unfolding log_inv_def l prod.case by blast
  have w: "rn_ckPriv (reg_RegNode s) = priv" "cx_writes cnx = []" using assms(2,3) by (simp_all add: log_inv_def l)
  show ?thesis unfolding log_inv_def l prod.case
    by (intro conjI w exI [of _ k] k(1,2)) (use k(3) m in blast)
qed

lemma log_inv_hello:
  assumes "fits ps" and "log_inv L version priv ps r (h, cnx, Starting)" and "conn_step L version u r (h, cnx, Starting) = Ret (s, l)"
  shows "log_inv L version priv ps s l"
proof -
  have i: "rn_ckPriv (reg_RegNode r) = priv" "cx_writes cnx = []" "cx_in cnx = packets ps" "cx_out cnx = []" "h = new_handler L"
    using assms(2) by (auto simp: log_inv_def)
  show ?thesis
  proof (cases ps)
    case Nil
    have "ReadData cnx = (None, Some IoEOF, cnx)" using ReadData_packets [OF assms(1) i(3)] Nil by simp
    then have "s = r" "l = (h, Cnx_Close (Cnx_Close cnx), Ended (Some IoEOF))" using assms(3) by (auto simp: conn_step_def handleHello_def)
    with i Nil show ?thesis by (auto simp: log_inv_def Cnx_Close_def)
  next
    case (Cons p qs)
    have rd: "ReadData cnx = (Some p, None, cnx\<lparr>cx_in := packets qs\<rparr>)" using ReadData_packets [OF assms(1) i(3)] Cons by simp
    show ?thesis
    proof (cases "ServerDecryptHello L p priv")
      case (Inl e)
      then have l: "s = r" "l = (h, Cnx_Close (Cnx_Close (cnx\<lparr>cx_in := packets qs\<rparr>)), Ended (Some (Ext e)))"
        using assms(3) rd i(1) by (simp_all add: conn_step_def handleHello_def ext_def)
      show ?thesis unfolding log_inv_def l prod.case
        by (intro conjI exI [of _ 1]) (use i Cons in \<open>simp_all add: Cnx_Close_def\<close>)
    next
      case (Inr x)
      obtain o' v where x: "x = (o', v)" by fastforce
      show ?thesis
      proof (cases "ServerEncryptHelloReply L o' version")
        case (Inl e)
        then have l: "s = r" "l = (h, cnx\<lparr>cx_in := packets qs\<rparr>, Looping)"
          using assms(3) rd i(1) Inr x by (simp_all add: conn_step_def handleHello_def ext_def)
        show ?thesis unfolding log_inv_def l prod.case
          by (intro conjI exI [of _ 1]) (use i Cons in simp_all)
      next
        case (Inr y)
        obtain s0 d0 where y: "y = (s0, d0)" by fastforce
        have l: "s = r" "l = (h\<lparr>ih_Session := s0, ih_version := version\<rparr>, cnx\<lparr>cx_in := packets qs, cx_out := [d0]\<rparr>, Looping)"
          using assms(3) rd i \<open>ServerDecryptHello L p priv = Inr x\<close> x Inr y
          by (simp_all add: conn_step_def handleHello_def ext_def WriteData_def Cnx_Write_def Let_def)
        have "hello_log L version priv [p] [d0] r s0 []"
          using \<open>ServerDecryptHello L p priv = Inr x\<close> x Inr y by (simp add: hello_log_def)
        then have "\<exists>s0 log. hello_log L version priv (take 1 ps) [d0] r s0 log \<and> descends L s0 s0' \<and> log_state log = HELLO_RCVD \<and> log_client log = None"
          if "s0' = s0" for s0'
          using Cons that by (intro exI [of _ s0] exI [of _ "[]"]) (simp add: log_state_def log_client_def descends.same)
        then show ?thesis unfolding log_inv_def l prod.case
          by (intro conjI exI [of _ 1] disjI2) (use i Cons in \<open>simp_all add: new_handler_def\<close>)
      qed
    qed
  qed
qed


text \<open>A turn adds an entry to the log, or leaves a packet without a reply.\<close>

lemma hello_log_entry:
  assumes "hello_log L version priv ps out r s0 log" and "log_ok L s s0 (e # log)" and "reg_le L r s"
  shows "hello_log L version priv (ps @ [en_in e]) (out @ [en_out e]) s s0 (e # log)"
proof -
  obtain p sOneShot v d0 where "ServerDecryptHello L p priv = Inr (sOneShot, v)" "ServerEncryptHelloReply L sOneShot version = Inr (s0, d0)"
      "ps = p # map en_in (rev log)" "out = d0 # map en_out (rev log)"
    using assms(1) by (auto simp: hello_log_def)
  with assms(2) show ?thesis unfolding hello_log_def by (intro exI conjI) (assumption | simp)+
qed

lemma drop_ConsD:
  assumes "drop k ps = p # qs"
  shows "k < length ps" "ps ! k = p" "drop (Suc k) ps = qs"
proof -
  show k: "k < length ps" using assms by (cases "k < length ps") simp_all
  with assms show "ps ! k = p" "drop (Suc k) ps = qs" using Cons_nth_drop_Suc [OF k] by simp_all
qed

text \<open>A message that was read and answered is a new entry.\<close>

lemma logged_reply:
  fixes h j :: "'s SessionHandler"
  assumes "libs_ok L" and "srv_inv L r" and "sess_inv L r h" and "reg_le L r s" and "k < length ps"
    and "hello_log L version priv (take k ps) out r s0 log" and "descends L s0 (ih_Session h)"
    and "log_state log = ih_entryState h" and "log_client log = ih_thisClient h" and "ih_entryState h \<noteq> IN_CLOSED"
    and "DecryptUnpadDecode L (ih_Session h) (ps ! k) = Inr m" and "handle_message L m r h = Ret (s, j)"
    and "ih_msgOut j = Some reply" and "EncodePadEncrypt L (ih_Session j) reply = (w, Inr b)"
  shows "\<exists>log'. hello_log L version priv (take (Suc k) ps) (out @ [b]) s s0 log' \<and> descends L s0 w
     \<and> log_state log' = ih_exitState j \<and> log_client log' = ih_thisClient j"
proof -
  let ?e = "\<lparr>en_in = ps ! k, en_msg = m, en_reply = reply, en_out = b, en_state = ih_exitState j, en_client = ih_thisClient j\<rparr>"
  have ses: "ih_Session j = ih_Session h" using handle_message_session [OF assms(12)] .
  have "entry_effect L s log ?e" if "ih_exitState j \<noteq> IN_CLOSED"
    using message_effect [OF assms(1-3,12) that assms(13,8,9)] .
  moreover have "log_ok L r s0 log" using assms(6) by (auto simp: hello_log_def)
  then have "log_ok L s s0 log" using log_ok_mono [OF assms(4)] by blast
  ultimately have "log_ok L s s0 (?e # log)" using assms(7,8,10,11,14) ses by auto
  from hello_log_entry [OF assms(6) this assms(4)] have "hello_log L version priv (take (Suc k) ps) (out @ [b]) s s0 (?e # log)"
    using assms(5) by (simp add: take_Suc_conv_app_nth)
  moreover have "descends L s0 w" using descends_encode [OF assms(7)] assms(14) ses by simp
  ultimately show ?thesis by (intro exI [of _ "?e # log"]) (simp add: log_state_def log_client_def)
qed

lemma log_inv_turn:
  assumes "libs_ok L" and "srv_inv L r" and "sess_inv L r h" and "fits ps" and "k \<le> length ps" and "cx_in cnx = packets (drop k ps)"
    and "cx_writes cnx = []" and "hello_log L version priv (take k ps) (cx_out cnx) r s0 log" and "descends L s0 (ih_Session h)"
    and "log_state log = ih_entryState h" and "log_client log = ih_thisClient h" and "ih_entryState h \<noteq> IN_CLOSED"
    and "loop_turn L r h cnx = Ret (s, k', cnx', x)"
  shows "cx_writes cnx' = [] \<and> (\<exists>n \<le> length ps. cx_in cnx' = packets (drop n ps) \<and>
     (length (cx_out cnx') < n \<or>
      (\<exists>s0 log. hello_log L version priv (take n ps) (cx_out cnx') s s0 log
         \<and> (x = None \<longrightarrow> descends L s0 (ih_Session k') \<and> log_state log = ih_entryState k'
              \<and> log_client log = ih_thisClient k' \<and> ih_entryState k' \<noteq> IN_CLOSED))))"
proof -
  have le: "reg_le L r s" using loop_turn_keeps [OF assms(1-3,13)] by blast
  have len: "length (cx_out cnx) = k" using hello_log_length [OF assms(8)] assms(5) by simp
  note rd = ReadData_packets [OF fits_drop [OF assms(4)] assms(6)]
  show ?thesis
  proof (cases "drop k ps")
    case Nil
    then have "s = r" "cnx' = cnx" "x = Some (Some IoEOF)" using assms(13) rd by (simp_all add: loop_turn_def)
    with assms(5-8) show ?thesis by (intro conjI exI [of _ k] disjI2 exI [of _ s0] exI [of _ log]) simp_all
  next
    case (Cons p qs)
    note k = drop_ConsD [OF Cons]
    from rd Cons have rd: "ReadData cnx = (Some p, None, cnx\<lparr>cx_in := packets qs\<rparr>)" by simp
    from assms(13) show ?thesis
    proof (cases rule: loop_turn_cases)
      case (eof data cnx1 e)
      with rd show ?thesis by simp
    next
      case (bad data cnx1 e)
      with rd k assms(7) len show ?thesis by (auto intro!: exI [of _ "Suc k"])
    next
      case (turn data cnx1 m j w err)
      with rd have d: "DecryptUnpadDecode L (ih_Session h) p = Inr m" and c1: "cnx1 = cnx\<lparr>cx_in := packets qs\<rparr>" by simp_all
      have w1: "cx_writes cnx1 = []" using assms(7) c1 by simp
      from turn(4) w1 show ?thesis
      proof (cases rule: send_reply_open)
        case nothing
        with c1 k len show ?thesis by (auto intro!: exI [of _ "Suc k"])
      next
        case (sent reply b)
        have enc: "EncodePadEncrypt L (ih_Session j) reply = (w, Inr b)" using sent(4) by simp
        obtain log' where l: "hello_log L version priv (take (Suc k) ps) (cx_out cnx @ [b]) s s0 log'" "descends L s0 w"
            "log_state log' = ih_exitState j" "log_client log' = ih_thisClient j"
          using logged_reply [OF assms(1-3) le k(1) assms(8-12) d [folded k(2)] turn(3) sent(3) enc] by blast
        then show ?thesis using turn(5,6) sent(1,2,5) c1 k
          by (intro conjI exI [of _ "Suc k"] disjI2 exI [of _ s0] exI [of _ log']) auto
      qed
    qed
  qed
qed

text \<open>Once there are fewer replies than packets, this stays so.\<close>

lemma log_inv_behind:
  assumes "fits ps" and "k \<le> length ps" and "cx_in cnx = packets (drop k ps)" and "cx_writes cnx = []" and "length (cx_out cnx) < k"
    and "loop_turn L r h cnx = Ret (s, k', cnx', x)"
  shows "cx_writes cnx' = [] \<and> (\<exists>n \<le> length ps. cx_in cnx' = packets (drop n ps) \<and> length (cx_out cnx') < n)"
proof -
  note rd = ReadData_packets [OF fits_drop [OF assms(1)] assms(3)]
  show ?thesis
  proof (cases "drop k ps")
    case Nil
    then have "cnx' = cnx" using assms(6) rd by (simp add: loop_turn_def)
    with assms show ?thesis by blast
  next
    case (Cons p qs)
    note k = drop_ConsD [OF Cons]
    from rd Cons have rd: "ReadData cnx = (Some p, None, cnx\<lparr>cx_in := packets qs\<rparr>)" by simp
    from assms(6) show ?thesis
    proof (cases rule: loop_turn_cases)
      case (eof data cnx1 e)
      with rd show ?thesis by simp
    next
      case (bad data cnx1 e)
      with rd k assms(4,5) show ?thesis by (auto intro!: exI [of _ "Suc k"])
    next
      case (turn data cnx1 m j w err)
      with rd assms(4) have c1: "cnx1 = cnx\<lparr>cx_in := packets qs\<rparr>" "cx_writes cnx1 = []" by simp_all
      from turn(4) c1(2) show ?thesis
        by (cases rule: send_reply_open) (use c1(1) k assms(5) in \<open>auto intro!: exI [of _ "Suc k"]\<close>)
    qed
  qed
qed

lemma log_inv_step:
  assumes "libs_ok L" and "srv_inv L r" and "conn_inv L r l" and "fits ps" and "log_inv L version priv ps r l"
    and "conn_step L version u r l = Ret (s, l')"
  shows "log_inv L version priv ps s l'"
proof -
  obtain h cnx ph where l: "l = (h, cnx, ph)" by (metis prod_cases3)
  have node: "reg_RegNode s = reg_RegNode r" using assms(6) by (rule conn_step_same_node)
  show ?thesis
  proof (cases ph)
    case Starting
    with log_inv_hello [OF assms(4)] assms(5,6) l show ?thesis by simp
  next
    case (Ended e)
    with assms(5,6) l show ?thesis by (simp add: conn_step_def)
  next
    case Looping
    then obtain s1 k1 c1 x where t: "loop_turn L r h cnx = Ret (s1, k1, c1, x)"
        and l': "s1 = s" "l' = (case x of None \<Rightarrow> (k1, c1, Looping) | Some e \<Rightarrow> (k1, Cnx_Close c1, Ended e))"
      using assms(6) by (auto simp: conn_step_def l obind_Ret_iff split: option.splits)
    have h: "sess_inv L r h" using assms(3) l by (simp add: conn_inv_def)
    have key: "rn_ckPriv (reg_RegNode s) = priv" "cx_writes cnx = []" using assms(5) node by (simp_all add: log_inv_def l)
    obtain k where k: "k \<le> length ps" "cx_in cnx = packets (drop k ps)"
        "length (cx_out cnx) < k \<or> (\<exists>s0 log. hello_log L version priv (take k ps) (cx_out cnx) r s0 log
           \<and> descends L s0 (ih_Session h) \<and> log_state log = ih_entryState h \<and> log_client log = ih_thisClient h \<and> ih_entryState h \<noteq> IN_CLOSED)"
      using assms(5) Looping unfolding log_inv_def l prod.case by auto
    have "cx_writes c1 = [] \<and> (\<exists>n \<le> length ps. cx_in c1 = packets (drop n ps) \<and>
       (length (cx_out c1) < n \<or>
        (\<exists>s0 log. hello_log L version priv (take n ps) (cx_out c1) s s0 log
           \<and> (x = None \<longrightarrow> descends L s0 (ih_Session k1) \<and> log_state log = ih_entryState k1
                \<and> log_client log = ih_thisClient k1 \<and> ih_entryState k1 \<noteq> IN_CLOSED))))"
      using k(3)
    proof (elim disjE exE conjE)
      assume "length (cx_out cnx) < k"
      from log_inv_behind [OF assms(4) k(1,2) key(2) this t] show ?thesis by blast
    next
      fix s0 log
      assume "hello_log L version priv (take k ps) (cx_out cnx) r s0 log" "descends L s0 (ih_Session h)"
        "log_state log = ih_entryState h" "log_client log = ih_thisClient h" "ih_entryState h \<noteq> IN_CLOSED"
      from log_inv_turn [OF assms(1,2) h assms(4) k(1,2) key(2) this t] l'(1) show ?thesis by simp
    qed
    then show ?thesis unfolding log_inv_def l'(2) using key(1)
      by (cases x) (simp_all add: Cnx_Close_def, blast+)
  qed
qed

section \<open>The log in every run\<close>

definition reg_grows :: "('h, hval, 'b, 'z) reglib_scheme \<Rightarrow> ('h, 'b) Registry \<Rightarrow> ('h, 'b) Registry \<Rightarrow> bool" where
  "reg_grows L r s \<longleftrightarrow> reg_le L r s \<and> reg_RegNode s = reg_RegNode r"

interpretation logged: tracked_session "conn_step L version" "fresh_conn L"
    "\<lambda>reg. libs_ok L \<and> srv_inv L reg" "conn_inv L" "reg_grows L" "\<lambda>reg l. fits ps \<and> log_inv L version priv ps reg l"
  for L :: "('h, hval, 'b, 's, 'z) serverlib_scheme" and version priv ps
proof
  fix g g' g'' :: "('h, 'b) Registry" and l l' :: "'s SessionHandler \<times> TcpConnection \<times> phase" and i
  show "libs_ok L \<and> srv_inv L g \<Longrightarrow> conn_inv L g l \<Longrightarrow> conn_step L version i g l = Ret (g', l') \<Longrightarrow>
      (libs_ok L \<and> srv_inv L g') \<and> conn_inv L g' l' \<and> reg_grows L g g'"
    using conn_step_keeps conn_step_same_node unfolding reg_grows_def by blast
  show "libs_ok L \<and> srv_inv L g \<Longrightarrow> fresh_conn L l \<Longrightarrow> conn_inv L g l"
    by (rule server.fresh_linv)
  show "reg_grows L g g' \<Longrightarrow> conn_inv L g l \<Longrightarrow> conn_inv L g' l"
    unfolding reg_grows_def by (blast intro: server.linv_mono)
  show "reg_grows L g g" by (simp add: reg_grows_def)
  show "reg_grows L g g' \<Longrightarrow> reg_grows L g' g'' \<Longrightarrow> reg_grows L g g''"
    using reg_le_trans by (auto simp: reg_grows_def)
  show "libs_ok L \<and> srv_inv L g \<Longrightarrow> conn_inv L g l \<Longrightarrow> fits ps \<and> log_inv L version priv ps g l \<Longrightarrow>
      conn_step L version i g l = Ret (g', l') \<Longrightarrow> fits ps \<and> log_inv L version priv ps g' l'"
    using log_inv_step by blast
  show "reg_grows L g g' \<Longrightarrow> fits ps \<and> log_inv L version priv ps g l \<Longrightarrow> fits ps \<and> log_inv L version priv ps g' l"
    unfolding reg_grows_def by (blast intro: log_inv_mono)
qed

text \<open>
  In every run of the server, a connection that has as many replies as packets were sent has a log of
  all of them.
\<close>

lemma answered_log:
  assumes "libs_ok L" and "srv_inv L r0" and "\<forall>l \<in> set ls0. conn_inv L r0 l" and "server_reaches L version (a0, r0, ls0) (a, r, ls)"
    and "n < length ls0" and "ls0 ! n = (new_handler L, sc, Starting)" and "cx_in sc = packets ps" and "cx_out sc = []" and "cx_writes sc = []"
    and "fits ps" and "ls ! n = (h, sc', ph)" and "ps \<noteq> []" and "length ps \<le> length (cx_out sc')"
  obtains s0 log where "hello_log L version (rn_ckPriv (reg_RegNode r0)) ps (cx_out sc') r s0 log" and "srv_inv L r"
proof -
  let ?priv = "rn_ckPriv (reg_RegNode r0)"
  have il: "interleaved (conn_step L version) (fresh_conn L) (r0, ls0) (r, ls)"
    using server_reaches_interleaved [OF assms(4)] by blast
  have "log_inv L version ?priv ps r0 (ls0 ! n)" using assms(6-9) by (simp add: log_inv_def)
  with logged.tracked [OF il _ assms(3,5), of ps ?priv] assms(1,2,10,11)
  have inv: "log_inv L version ?priv ps r (h, sc', ph)" by auto
  then obtain k where k: "k \<le> length ps" "ph = Starting \<and> k = 0 \<and> cx_out sc' = [] \<or> length (cx_out sc') < k \<or> k = 0 \<and> cx_out sc' = []
      \<or> (\<exists>s0 log. hello_log L version ?priv (take k ps) (cx_out sc') r s0 log)"
    unfolding log_inv_def prod.case by blast
  with assms(12,13) obtain s0 log where hl: "hello_log L version ?priv (take k ps) (cx_out sc') r s0 log" by auto
  from hello_log_length [OF this] assms(13) k(1) have "take k ps = ps" by simp
  with hl that server.interleaved_safe [OF il] assms(1-3) show ?thesis by auto
qed

end
