(* ===== verification/Runs.thy ===== *)
theory Runs
  imports SessionLog
begin

text \<open>
  Whole runs: a client's program at one end of a connection and the server at the other, with any
  other connections in between. The input of each end is the output of the other. A client whose
  program ends without an error has read as many packets as it has sent, so the server has answered
  all of them, and its log tells what the registry holds for the client.
\<close>

section \<open>The client's end\<close>

text \<open>A connection on which every write succeeds, with packets to read.\<close>

definition pending :: "bytes list \<Rightarrow> TcpConnection \<Rightarrow> bool" where
  "pending ds c \<longleftrightarrow> cx_in c = packets ds \<and> fits ds \<and> cx_writes c = []"

lemma writeMsg_pending:
  assumes "writeMsg L m mm c = (mm', err, c')" and "pending ds c"
  obtains (failed) e s where "err = Some e" and "c' = c" and "mm' = mm\<lparr>mm_Session := s\<rparr>" and "descends L (mm_Session mm) s"
  | (sent) s p where "err = None" and "EncodePadEncrypt L (mm_Session mm) m = (s, Inr p)" and "pending ds c'"
      and "cx_out c' = cx_out c @ [p]" and "mm' = mm\<lparr>mm_Session := s\<rparr>" and "descends L (mm_Session mm) s"
proof -
  obtain s x where e: "EncodePadEncrypt L (mm_Session mm) m = (s, x)" by fastforce
  have d: "descends L (mm_Session mm) s" using descends_encode [OF descends.same e] .
  show ?thesis
  proof (cases x)
    case (Inl b)
    with assms(1) e d show ?thesis by (intro failed) (auto simp: writeMsg_def)
  next
    case (Inr p)
    with assms e d show ?thesis by (intro sent) (auto simp: writeMsg_def WriteData_def Cnx_Write_def pending_def)
  qed
qed

lemma readMsg_pending:
  assumes "pending ds c"
  shows "readMsg L mm c = (case ds of [] \<Rightarrow> (None, Some IoEOF, c)
     | d # ds' \<Rightarrow> (case DecryptUnpadDecode L (mm_Session mm) d of
         Inl e \<Rightarrow> (None, Some e, c\<lparr>cx_in := packets ds'\<rparr>)
       | Inr m \<Rightarrow> (Some m, None, c\<lparr>cx_in := packets ds'\<rparr>)))"
  using ReadData_packets [of ds c] assms by (cases ds) (simp_all add: readMsg_def pending_def)

lemma readMsg_ok:
  assumes "pending ds c" and "readMsg L mm c = (response, None, c')"
  obtains d ds' m where "ds = d # ds'" and "DecryptUnpadDecode L (mm_Session mm) d = Inr m" and "response = Some m"
    and "pending ds' c'" and "cx_out c' = cx_out c"
  using assms by (auto simp: readMsg_pending [OF assms(1)] pending_def fits_def split: list.splits sum.splits)

lemma decrypt_error: "DecryptUnpadDecode L s d = Inl e \<Longrightarrow> e \<noteq> IoEOF"
  by (auto simp: DecryptUnpadDecode_def DecodePacket_def ext_def split: sum.splits)

lemma setup_traffic:
  assumes "SessionSetup L v0 mm = Ret (mm', Some c', v, None)" and "pe_ctors (mm_RegPeer mm) = ctor # cs" and "Connect L ctor = Inr c"
    and "pending ds c"
  obtains one p d ds' s where "ClientEncryptHello L v0 (bn_ck (mm_RegPeer mm)) = Inr (one, p)" and "ds = d # ds'"
    and "ClientDecryptHelloReply L one d = Inr (s, v)" and "mm' = mm\<lparr>mm_Session := s\<rparr>" and "pending ds' c'" and "cx_out c' = cx_out c @ [p]"
proof -
  let ?mm = "mm\<lparr>mm_Session := AesSession_zero L\<rparr>"
  have run: "client_hello L v0 ?mm c = (mm', c', v, None)"
    using assms(1-3) by (auto simp: SessionSetup_def NewCnxHandler_def split: prod.splits)
  obtain one p where h: "ClientEncryptHello L v0 (bn_ck (mm_RegPeer mm)) = Inr (one, p)"
    using run by (auto simp: client_hello_def split: sum.splits)
  have w: "WriteData p c = (None, c\<lparr>cx_out := cx_out c @ [p]\<rparr>)" using assms(4) by (simp add: WriteData_def Cnx_Write_def pending_def)
  have rd: "ReadData (c\<lparr>cx_out := cx_out c @ [p]\<rparr>) = (case ds of [] \<Rightarrow> (None, Some IoEOF, c\<lparr>cx_out := cx_out c @ [p]\<rparr>)
      | d # ds' \<Rightarrow> (Some d, None, c\<lparr>cx_out := cx_out c @ [p], cx_in := packets ds'\<rparr>))"
    using ReadData_packets [of ds "c\<lparr>cx_out := cx_out c @ [p]\<rparr>"] assms(4) by (simp add: pending_def)
  show ?thesis
  proof (cases ds)
    case Nil
    with run h w rd show ?thesis by (simp add: client_hello_def)
  next
    case (Cons d ds')
    then have "d \<noteq> []" using assms(4) by (simp add: pending_def fits_def)
    then obtain s where "ClientDecryptHelloReply L one d = Inr (s, v)" "mm' = mm\<lparr>mm_Session := s\<rparr>"
        "c' = c\<lparr>cx_out := cx_out c @ [p], cx_in := packets ds'\<rparr>"
      using run h w rd Cons by (auto simp: client_hello_def split: sum.splits)
    with that h Cons assms(4) show ?thesis by (simp add: pending_def fits_def)
  qed
qed

lemma member_traffic:
  assumes "MemberAndOK L mm c = (mm', None, c')" and "pending ds c"
  obtains d ds' s a w where "ds = d # ds'" and "pending ds' c'" and "cx_out c' = cx_out c @ w" and "length w \<le> 1"
    and "mm' = mm\<lparr>mm_Session := s, mm_Attrs := a\<rparr>" and "descends L (mm_Session mm) s"
    and "\<forall>p. w = [p] \<longrightarrow> (\<exists>m u. member_request L (mm_Node mm) (mm_ProposedAttrs mm) = Inr m \<and> EncodePadEncrypt L (mm_Session mm) m = (u, Inr p))"
proof (cases "member_request L (mm_Node mm) (mm_ProposedAttrs mm)")
  case (Inl e)
  obtain m where "readMsg L mm c = (m, None, c')" "mm' = mm\<lparr>mm_Attrs := GetMemberAttrs m\<rparr>"
    using assms(1) Inl by (auto simp: MemberAndOK_def split: prod.splits option.splits)
  then have mm: "mm' = mm\<lparr>mm_Session := mm_Session mm, mm_Attrs := GetMemberAttrs m\<rparr>" and r: "readMsg L mm c = (m, None, c')"
    by simp_all
  obtain d ds' where "ds = d # ds'" "pending ds' c'" "cx_out c' = cx_out c" by (rule readMsg_ok [OF assms(2) r])
  with that [of d ds' "[]" "GetMemberAttrs m" "mm_Session mm"] mm show ?thesis by (simp add: descends.same)
next
  case (Inr q)
  obtain mm1 e c1 where w: "writeMsg L q mm c = (mm1, e, c1)" by (metis prod_cases3)
  obtain m where r: "readMsg L mm1 c1 = (m, None, c')" "mm' = mm1\<lparr>mm_Attrs := GetMemberAttrs m\<rparr>"
    using assms(1) Inr w by (auto simp: MemberAndOK_def split: prod.splits option.splits)
  from w assms(2) show ?thesis
  proof (cases rule: writeMsg_pending)
    case (failed e s)
    obtain d ds' where "ds = d # ds'" "pending ds' c'" "cx_out c' = cx_out c" by (rule readMsg_ok [OF assms(2) r(1) [unfolded failed(2)]])
    with that [of d ds' "[]" "GetMemberAttrs m" s] r(2) failed show ?thesis by simp
  next
    case (sent s p)
    obtain d ds' where "ds = d # ds'" "pending ds' c'" "cx_out c' = cx_out c1" by (rule readMsg_ok [OF sent(3) r(1)])
    with that [of d ds' "[p]" "GetMemberAttrs m" s] r(2) sent Inr show ?thesis by simp
  qed
qed

lemma create_traffic:
  assumes "CreateAndReply L mm c = (mm', None, c')" and "pending ds c" and "ds \<noteq> []"
  obtains p s d ds' m n where "EncodePadEncrypt L (mm_Session mm) (create_request mm) = (s, Inr p)" and "descends L (mm_Session mm) s" and "ds = d # ds'"
    and "DecryptUnpadDecode L s d = Inr m" and "pending ds' c'" and "cx_out c' = cx_out c @ [p]" and "mm_Session mm' = s"
    and "mm_ClusterID mm' = Some n" and "mm_ClusterMaxSize mm' = GetClusterMaxSize (Some m)" and "xi_New_or_random L (mm_draws mm) (GetClusterID (Some m)) = Inr n"
proof -
  obtain mm1 e c1 where w: "writeMsg L (create_request mm) mm c = (mm1, e, c1)" by (metis prod_cases3)
  obtain d ds' where ds: "ds = d # ds'" using assms(3) by (cases ds) auto
  from w assms(2) show ?thesis
  proof (cases rule: writeMsg_pending)
    case (failed e s)
    with assms(1) w show ?thesis by (simp add: CreateAndReply_def)
  next
    case (sent s p)
    note rd = readMsg_pending [OF sent(3), of L mm1, unfolded ds list.case]
    show ?thesis
    proof (cases "DecryptUnpadDecode L (mm_Session mm1) d")
      case (Inl b)
      with assms(1) w rd sent(1) decrypt_error [OF Inl] show ?thesis by (simp add: CreateAndReply_def)
    next
      case (Inr m)
      have run: "xi_New_or_random L (mm_draws mm) (GetClusterID (Some m)) = Inr n \<and> mm_ClusterID mm' = Some n
          \<and> mm_ClusterMaxSize mm' = GetClusterMaxSize (Some m) \<and> mm_Session mm' = s \<and> c' = c1\<lparr>cx_in := packets ds'\<rparr>"
        if "xi_New_or_random L (mm_draws mm) (GetClusterID (Some m)) = Inr n" for n
        using assms(1) w rd sent(1,5) Inr that by (auto simp: CreateAndReply_def Let_def ext_def simp del: msg_getters)
      obtain n where n: "xi_New_or_random L (mm_draws mm) (GetClusterID (Some m)) = Inr n"
        using assms(1) w rd sent(1,5) Inr
        by (cases "xi_New_or_random L (mm_draws mm) (GetClusterID (Some m))") (auto simp: CreateAndReply_def Let_def ext_def simp del: msg_getters)
      from run [OF n] that [of s p d ds' m n] sent ds Inr show ?thesis by (auto simp: pending_def fits_def)
    qed
  qed
qed

lemma create_eof:
  assumes "CreateAndReply L mm c = (mm', None, c')" and "pending [] c"
  shows "pending [] c'"
proof -
  obtain mm1 e c1 where w: "writeMsg L (create_request mm) mm c = (mm1, e, c1)" by (metis prod_cases3)
  from w assms(2) show ?thesis
  proof (cases rule: writeMsg_pending)
    case (failed e s)
    with assms(1) w show ?thesis by (simp add: CreateAndReply_def)
  next
    case (sent s p)
    with assms(1) w readMsg_pending [OF sent(3), of L mm1] have "c' = c1"
      by (auto simp: CreateAndReply_def Let_def split: sum.splits)
    with sent(3) show ?thesis by simp
  qed
qed

lemma bye_traffic:
  assumes "ByeAndAck L mm c = (mm', None, c')" and "pending ds c"
  obtains p d ds' where "ds = d # ds'" and "cx_out c' = cx_out c @ [p]" and "\<exists>s. mm' = mm\<lparr>mm_Session := s\<rparr>"
proof -
  obtain mm1 e c1 where w: "writeMsg L (zeroMsg\<lparr>msg_Op := Some XLRegMsg_Bye\<rparr>) mm c = (mm1, e, c1)" by (metis prod_cases3)
  from w assms(2) show ?thesis
  proof (cases rule: writeMsg_pending)
    case (failed e s)
    with assms(1) w show ?thesis by (simp add: ByeAndAck_def)
  next
    case (sent s p)
    then obtain m where m: "readMsg L mm1 c1 = (m, None, c')" "mm' = mm1" using assms(1) w by (auto simp: ByeAndAck_def split: prod.splits)
    obtain d ds' where "ds = d # ds'" "cx_out c' = cx_out c1" by (rule readMsg_ok [OF sent(3) m(1)])
    with that [of d ds' p] sent m(2) show ?thesis by auto
  qed
qed


section \<open>Both ends\<close>

text \<open>
  What the hello gives: if each end could read what the other sent, they share keys; sessions that share
  keys read each other's packets, and encrypting does not change the keys. \<open>R\<close> is the relation of
  sessions that share keys.
\<close>

definition shared_keys :: "('h, 'v, 'b, 's, 'f, 'z) nodelib_scheme \<Rightarrow> rsa_priv \<Rightarrow> ('s \<Rightarrow> 's \<Rightarrow> bool) \<Rightarrow> bool" where
  "shared_keys L priv R \<longleftrightarrow>
     (\<forall>v0 one p sOneShot v version t d s v2. ClientEncryptHello L v0 (Some (rsa_pub_of priv)) = Inr (one, p)
        \<and> ServerDecryptHello L p priv = Inr (sOneShot, v) \<and> ServerEncryptHelloReply L sOneShot version = Inr (t, d)
        \<and> ClientDecryptHelloReply L one d = Inr (s, v2) \<longrightarrow> R s t)
     \<and> (\<forall>s t. R s t \<longrightarrow> sessions_match L s t \<and> sessions_match L t s)
     \<and> (\<forall>s t p u x. R s t \<longrightarrow> (aes_Encrypt L s p = (u, x) \<longrightarrow> R u t) \<and> (aes_Encrypt L t p = (u, x) \<longrightarrow> R s u))"

lemma shared_hello:
  assumes "shared_keys L priv R" and "ClientEncryptHello L v0 (Some (rsa_pub_of priv)) = Inr (one, p)"
    and "ServerDecryptHello L p priv = Inr (sOneShot, v)" and "ServerEncryptHelloReply L sOneShot version = Inr (t, d)"
    and "ClientDecryptHelloReply L one d = Inr (s, v2)"
  shows "R s t"
  using assms(1) [unfolded shared_keys_def, THEN conjunct1, rule_format, OF conjI [OF assms(2) conjI [OF assms(3) conjI [OF assms(4,5)]]]] .

lemma shared_encrypt:
  assumes "shared_keys L priv R" and "R s t"
  shows "aes_Encrypt L s p = (u, x) \<Longrightarrow> R u t" "aes_Encrypt L t p = (u, x) \<Longrightarrow> R s u"
  using assms(1) [unfolded shared_keys_def, THEN conjunct2, THEN conjunct2, rule_format, OF assms(2)] by blast+

lemma shared_descends:
  assumes "shared_keys L priv R" and "R s t" and "descends L s s'" and "descends L t t'"
  shows "sessions_match L s' t'" "sessions_match L t' s'"
proof -
  from assms(3) have c: "R s' t" by induction (auto intro: assms(2) shared_encrypt(1) [OF assms(1)])
  from assms(4) have "R s' t'" by induction (auto intro: c shared_encrypt(2) [OF assms(1)])
  then have "sessions_match L s' t' \<and> sessions_match L t' s'"
    by (rule assms(1) [unfolded shared_keys_def, THEN conjunct2, THEN conjunct1, rule_format])
  then show "sessions_match L s' t'" "sessions_match L t' s'" by simp_all
qed

text \<open>Each end reads what the other wrote, from the first packet on.\<close>

definition linked :: "TcpConnection \<Rightarrow> TcpConnection \<Rightarrow> TcpConnection \<Rightarrow> TcpConnection \<Rightarrow> bool" where
  "linked c c' sc sc' \<longleftrightarrow> pending (cx_out sc') c \<and> pending (cx_out c') sc \<and> cx_out c = [] \<and> cx_out sc = []"

text \<open>The hello and the first messages in the log of a session that was answered to the end.\<close>

lemma log_prefix:
  assumes "hello_log L version priv (p0 # ps @ qs) out r t log" and "qs \<noteq> []"
  obtains sOneShot v d0 es outs where "ServerDecryptHello L p0 priv = Inr (sOneShot, v)"
    and "ServerEncryptHelloReply L sOneShot version = Inr (t, d0)" and "out = d0 # map en_out es @ outs"
    and "ps = map en_in es" and "log_ok L r t (rev es)" and "log_state (rev es) \<noteq> IN_CLOSED"
proof -
  obtain sOneShot v d0 where h: "ServerDecryptHello L p0 priv = Inr (sOneShot, v)" "ServerEncryptHelloReply L sOneShot version = Inr (t, d0)"
      "log_ok L r t log" "ps @ qs = map en_in (rev log)" "out = d0 # map en_out (rev log)"
    using assms(1) by (auto simp: hello_log_def)
  from h(4) [symmetric] obtain es fs where es: "rev log = es @ fs" "ps = map en_in es" "qs = map en_in fs"
    by (auto simp: map_eq_append_conv)
  from es(1) have log: "log = rev fs @ rev es" by (simp add: rev_swap)
  have "log_ok L r t (xs @ ys) \<Longrightarrow> log_ok L r t ys \<and> (xs \<noteq> [] \<longrightarrow> log_state ys \<noteq> IN_CLOSED)" for xs ys
    by (induction xs) auto
  from this [of "rev fs" "rev es"] h(3) log es(3) assms(2) have "log_ok L r t (rev es)" "log_state (rev es) \<noteq> IN_CLOSED" by auto
  with that h es show ?thesis by simp
qed

text \<open>The first message of a client that goes on.\<close>

lemma first_message:
  assumes "\<And>m. wire_ok L m" and "shared_keys L priv R" and "hello_log L version priv (p0 # p1 # ps) (d0 # ds) r t log" and "ps \<noteq> []"
    and "ClientEncryptHello L v0 (Some (rsa_pub_of priv)) = Inr (one, p0)" and "ClientDecryptHelloReply L one d0 = Inr (s, v)"
    and "EncodePadEncrypt L s m1 = (u1, Inr p1)"
  obtains e1 where "en_msg e1 = m1" and "entry_effect L r [] e1"
proof -
  have "hello_log L version priv (p0 # [p1] @ ps) (d0 # ds) r t log" using assms(3) by simp
  then obtain sOneShot v1 b0 es outs where l: "ServerDecryptHello L p0 priv = Inr (sOneShot, v1)"
      "ServerEncryptHelloReply L sOneShot version = Inr (t, b0)" "d0 # ds = b0 # map en_out es @ outs"
      "[p1] = map en_in es" "log_ok L r t (rev es)" "log_state (rev es) \<noteq> IN_CLOSED"
    by (rule log_prefix [OF _ assms(4)])
  obtain e1 where e1: "es = [e1]" "en_in e1 = p1" using l(4) by (cases es) auto
  have "ServerEncryptHelloReply L sOneShot version = Inr (t, d0)" using l(2,3) by simp
  then have R: "R s t" by (rule shared_hello [OF assms(2,5) l(1) _ assms(6)])
  obtain t1 where t: "descends L t t1" "DecryptUnpadDecode L t1 p1 = Inr (en_msg e1)" using l(5) e1 by auto
  have "DecryptUnpadDecode L t1 p1 = Inr m1"
    using decode_encoded [OF assms(1) _ assms(7)] shared_descends(1) [OF assms(2) R descends.same t(1)] by blast
  moreover have "entry_effect L r [] e1" using l(5,6) e1(1) by (auto simp: log_state_def)
  ultimately show ?thesis using that t(2) by simp
qed

text \<open>What the first two messages of a client were, and what the second reply was.\<close>

lemma first_messages:
  assumes "\<And>m. wire_ok L m" and "shared_keys L priv R" and "hello_log L version priv (p0 # p1 # p2 # ps) (d0 # d1 # d2 # ds) r t log" and "ps \<noteq> []"
    and "ClientEncryptHello L v0 (Some (rsa_pub_of priv)) = Inr (one, p0)" and "ClientDecryptHelloReply L one d0 = Inr (s, v)"
    and "EncodePadEncrypt L s m1 = (u1, Inr p1)" and "descends L s s2" and "EncodePadEncrypt L s2 m2 = (s3, Inr p2)"
    and "DecryptUnpadDecode L s3 d2 = Inr reply" and "msg_Op m1 = Some XLRegMsg_Member"
  obtains e1 e2 where "en_msg e1 = m1" and "en_msg e2 = m2" and "en_reply e2 = reply" and "en_state e1 = CLIENT_DETAILS_RCVD"
    and "entry_effect L r [] e1" and "entry_effect L r [e1] e2"
proof -
  have "hello_log L version priv (p0 # [p1, p2] @ ps) (d0 # d1 # d2 # ds) r t log" using assms(3) by simp
  then obtain sOneShot v1 b0 es outs where l0: "ServerDecryptHello L p0 priv = Inr (sOneShot, v1)"
      "ServerEncryptHelloReply L sOneShot version = Inr (t, b0)" "d0 # d1 # d2 # ds = b0 # map en_out es @ outs"
      "[p1, p2] = map en_in es" "log_ok L r t (rev es)" "log_state (rev es) \<noteq> IN_CLOSED"
    by (rule log_prefix [OF _ assms(4)])
  from l0(4) obtain e1 e2 where "es = [e1, e2]" "en_in e1 = p1" "en_in e2 = p2" by (auto simp: Cons_eq_map_conv)
  with l0 have l: "ServerDecryptHello L p0 priv = Inr (sOneShot, v1)"
      "ServerEncryptHelloReply L sOneShot version = Inr (t, b0)" "d0 # d1 # d2 # ds = b0 # en_out e1 # en_out e2 # outs"
      "en_in e1 = p1" "en_in e2 = p2" "log_ok L r t [e2, e1]" "en_state e2 \<noteq> IN_CLOSED"
    by (simp_all add: log_state_def)
  then have "ServerEncryptHelloReply L sOneShot version = Inr (t, d0)" by simp
  then have R: "R s t" by (rule shared_hello [OF assms(2,5) l(1) _ assms(6)])
  have s3: "descends L s s3" using descends_encode [OF assms(8,9)] .
  obtain t1 t2 t3 u where t: "descends L t t1" "DecryptUnpadDecode L t1 p1 = Inr (en_msg e1)" "descends L t t2" "DecryptUnpadDecode L t2 p2 = Inr (en_msg e2)"
      "descends L t t3" "EncodePadEncrypt L t3 (en_reply e2) = (u, Inr (en_out e2))"
    using l(4-6) by auto
  have "DecryptUnpadDecode L t1 p1 = Inr m1"
    using decode_encoded [OF assms(1) _ assms(7)] shared_descends(1) [OF assms(2) R descends.same t(1)] by blast
  moreover have "DecryptUnpadDecode L t2 p2 = Inr m2"
    using decode_encoded [OF assms(1) _ assms(9)] shared_descends(1) [OF assms(2) R assms(8) t(3)] by blast
  moreover have "DecryptUnpadDecode L s3 (en_out e2) = Inr (en_reply e2)"
    using decode_encoded [OF assms(1) _ t(6)] shared_descends(2) [OF assms(2) R s3 t(5)] by blast
  ultimately have m: "en_msg e1 = m1" "en_msg e2 = m2" "en_reply e2 = reply" using t(2,4) assms(10) l(3) by simp_all
  have e: "entry_effect L r [] e1" "entry_effect L r [e1] e2" using l(6,7) by (auto simp: log_state_def)
  have "en_state e1 = CLIENT_DETAILS_RCVD" using e(1) m(1) assms(11) by (simp add: entry_effect_def log_state_def)
  with that m e show ?thesis by blast
qed

lemma close_cnx_ok: "close_cnx m = Ret (mm', err, Some c') \<longleftrightarrow> (\<exists>c. m = Ret (mm', err, Some c) \<and> c' = Cnx_Close c)"
  by (cases m) (auto simp: close_cnx_def)

lemma and_then_ok: "and_then m k = Ret (mm', None, c') \<longleftrightarrow> (\<exists>mm c. m = Ret (mm, None, c) \<and> k mm c = Ret (mm', None, c'))"
  by (cases m) (auto simp: and_then_def split: option.splits)

lemma in_session_ok:
  assumes "in_session L mm k = Ret (mm', None, Some c')"
  obtains mm1 c1 v where "SessionSetup L 0 mm = Ret (mm1, Some c1, v, None)" and "k mm1 c1 = Ret (mm', None, c')"
proof -
  obtain mm1 cnx v err where s: "SessionSetup L 0 mm = Ret (mm1, cnx, v, err)"
      "(case (cnx, err) of (Some c, None) \<Rightarrow> obind (k mm1 c) (\<lambda>(mm, err, c). Ret (mm, err, Some c)) | _ \<Rightarrow> Ret (mm1, err, cnx)) = Ret (mm', None, Some c')"
    using assms by (auto simp: in_session_def obind_Ret_iff)
  show ?thesis
  proof (cases "k mm1 (the cnx)")
    case (Ret x)
    obtain mm2 err2 c2 where "x = (mm2, err2, c2)" by (metis prod_cases3)
    with Ret s that show ?thesis by (cases cnx; cases err) auto
  qed (use s in \<open>cases cnx; cases err; simp\<close>)+
qed

lemma in_session_iff:
  "in_session L mm k = Ret (mm', None, Some c') \<longleftrightarrow>
     (\<exists>mm1 c1 v. SessionSetup L 0 mm = Ret (mm1, Some c1, v, None) \<and> k mm1 c1 = Ret (mm', None, c'))"
proof
  assume "in_session L mm k = Ret (mm', None, Some c')"
  then obtain mm1 c1 v where "SessionSetup L 0 mm = Ret (mm1, Some c1, v, None)" "k mm1 c1 = Ret (mm', None, c')" by (rule in_session_ok)
  then show "\<exists>mm1 c1 v. SessionSetup L 0 mm = Ret (mm1, Some c1, v, None) \<and> k mm1 c1 = Ret (mm', None, c')" by blast
qed (auto simp: in_session_def)

section \<open>The administrator\<close>

text \<open>What an administrator's run that reports no error has sent and read.\<close>

lemma admin_traffic:
  assumes "AdminClient_Start L mm = Ret (mm', None, Some c')" and "pe_ctors (mm_RegPeer mm) = ctor # cs" and "Connect L ctor = Inr c"
    and "pending ds c" and "cx_out c = []"
  obtains one p0 s v w s2 s3 p2 p3 d0 d1 d2 d3 ds' reply i where "ClientEncryptHello L 0 (bn_ck (mm_RegPeer mm)) = Inr (one, p0)"
    and "ClientDecryptHelloReply L one d0 = Inr (s, v)" and "cx_out c' = p0 # w @ [p2, p3]" and "length w \<le> 1" and "ds = d0 # d1 # d2 # d3 # ds'"
    and "\<forall>p. w = [p] \<longrightarrow> (\<exists>m u. member_request L (mm_Node mm) (mm_ProposedAttrs mm) = Inr m \<and> EncodePadEncrypt L s m = (u, Inr p))"
    and "descends L s s2" and "EncodePadEncrypt L s2 (create_request mm) = (s3, Inr p2)" and "DecryptUnpadDecode L s3 d2 = Inr reply"
    and "mm_ClusterID mm' = Some i" and "mm_ClusterMaxSize mm' = GetClusterMaxSize (Some reply)"
    and "xi_New_or_random L (mm_draws mm) (GetClusterID (Some reply)) = Inr i"
proof -
  obtain c4 where run: "in_session L mm (\<lambda>mm cnx. and_then (Ret (MemberAndOK L mm cnx)) (\<lambda>mm cnx.
       and_then (Ret (CreateAndReply L mm cnx)) (\<lambda>mm cnx. Ret (ByeAndAck L mm cnx)))) = Ret (mm', None, Some c4)" "c' = Cnx_Close c4"
    using assms(1) by (auto simp: AdminClient_Start_def close_cnx_ok)
  obtain mm1 c1 v where s: "SessionSetup L 0 mm = Ret (mm1, Some c1, v, None)"
      "and_then (Ret (MemberAndOK L mm1 c1)) (\<lambda>mm cnx. and_then (Ret (CreateAndReply L mm cnx)) (\<lambda>mm cnx. Ret (ByeAndAck L mm cnx))) = Ret (mm', None, c4)"
    by (rule in_session_ok [OF run(1)])
  obtain mm2 c2 mm3 c3 where x: "MemberAndOK L mm1 c1 = (mm2, None, c2)" "CreateAndReply L mm2 c2 = (mm3, None, c3)" "ByeAndAck L mm3 c3 = (mm', None, c4)"
    using s(2) by (auto simp: and_then_ok)
  obtain one p0 d0 ds1 s where h: "ClientEncryptHello L 0 (bn_ck (mm_RegPeer mm)) = Inr (one, p0)" "ds = d0 # ds1"
      "ClientDecryptHelloReply L one d0 = Inr (s, v)" "mm1 = mm\<lparr>mm_Session := s\<rparr>" "pending ds1 c1" "cx_out c1 = cx_out c @ [p0]"
    by (rule setup_traffic [OF s(1) assms(2-4)])
  obtain d1 ds2 s2 a w where m: "ds1 = d1 # ds2" "pending ds2 c2" "cx_out c2 = cx_out c1 @ w" "length w \<le> 1"
      "mm2 = mm1\<lparr>mm_Session := s2, mm_Attrs := a\<rparr>" "descends L (mm_Session mm1) s2"
      "\<forall>p. w = [p] \<longrightarrow> (\<exists>m u. member_request L (mm_Node mm1) (mm_ProposedAttrs mm1) = Inr m \<and> EncodePadEncrypt L (mm_Session mm1) m = (u, Inr p))"
    by (rule member_traffic [OF x(1) h(5)])
  have "ds2 \<noteq> []"
  proof
    assume "ds2 = []"
    then have "pending [] c3" using create_eof [OF x(2)] m(2) by simp
    with x(3) show False by (rule bye_traffic) simp
  qed
  obtain p2 s3 d2 ds3 reply i where k: "EncodePadEncrypt L (mm_Session mm2) (create_request mm2) = (s3, Inr p2)" "ds2 = d2 # ds3"
      "DecryptUnpadDecode L s3 d2 = Inr reply" "pending ds3 c3" "cx_out c3 = cx_out c2 @ [p2]" 
      "mm_ClusterID mm3 = Some i" "mm_ClusterMaxSize mm3 = GetClusterMaxSize (Some reply)" "xi_New_or_random L (mm_draws mm2) (GetClusterID (Some reply)) = Inr i"
    by (rule create_traffic [OF x(2) m(2) \<open>ds2 \<noteq> []\<close>])
  obtain p3 d3 ds4 where b: "ds3 = d3 # ds4" "cx_out c4 = cx_out c3 @ [p3]" "\<exists>s. mm' = mm3\<lparr>mm_Session := s\<rparr>"
    by (rule bye_traffic [OF x(3) k(4)])
  have "create_request mm2 = create_request mm" by (simp add: create_request_def m(5) h(4))
  then show ?thesis
    using that [of one p0 d0 s v w p2 p3 d1 d2 d3 ds4] h m k b run(2) assms(5) by (auto simp: Cnx_Close_def)
qed


text \<open>C1. The whole run of an administrator's client against the server, with any other connections in
  between: each end reads what the other wrote, and the client knows the server's key. If the run
  reports no error, the registry has a cluster under the name that was asked for, and the client has its
  ID and its size. (The client does not look at the operation of a reply. It is the last exchange that
  fails if an earlier one was refused.)\<close>

theorem admin_run_agrees:
  fixes L :: "('h, hval, 'b, 's, 'f, 'z) nodelib_scheme"
  assumes "libs_ok L" and "\<And>m. wire_ok L m" and "shared_keys L (rn_ckPriv (reg_RegNode r0)) R"
    and "srv_inv L r0" and "\<forall>l \<in> set ls0. conn_inv L r0 l" and "server_reaches L version (a0, r0, ls0) (a, r, ls)"
    and "n < length ls0" and "ls0 ! n = (new_handler L, sc, Starting)" and "ls ! n = (h, sc', ph)"
    and "AdminClient_Start L mm = Ret (mm', None, Some c')" and "pe_ctors (mm_RegPeer mm) = ctor # cs" and "Connect L ctor = Inr c"
    and "bn_ck (mm_RegPeer mm) = Some (rsa_pub_of (rn_ckPriv (reg_RegNode r0)))" and "linked c c' sc sc'" and "mm_ClusterName mm \<noteq> []"
  shows "\<exists>cl i. reg_ClustersByName r (mm_ClusterName mm) = Some cl \<and> mm_ClusterID mm' = Some i
     \<and> rc_ID (get_cluster r cl) = Some (Value i) \<and> rc_maxSize (get_cluster r cl) = mm_ClusterMaxSize mm'"
proof -
  let ?priv = "rn_ckPriv (reg_RegNode r0)" and ?ps = "cx_out c'" and ?ds = "cx_out sc'"
  have link: "pending ?ds c" "cx_out c = []" "cx_in sc = packets ?ps" "fits ?ps" "cx_writes sc = []" "cx_out sc = []"
    using assms(14) by (simp_all add: linked_def pending_def)
  obtain one p0 d0 s v w p2 p3 d1 d2 d3 ds' s2 s3 reply i where t: "ClientEncryptHello L 0 (bn_ck (mm_RegPeer mm)) = Inr (one, p0)"
      "ClientDecryptHelloReply L one d0 = Inr (s, v)" "?ps = p0 # w @ [p2, p3]" "length w \<le> 1" "?ds = d0 # d1 # d2 # d3 # ds'"
      "\<forall>p. w = [p] \<longrightarrow> (\<exists>m u. member_request L (mm_Node mm) (mm_ProposedAttrs mm) = Inr m \<and> EncodePadEncrypt L s m = (u, Inr p))"
      "descends L s s2" "EncodePadEncrypt L s2 (create_request mm) = (s3, Inr p2)" "DecryptUnpadDecode L s3 d2 = Inr reply"
      "mm_ClusterID mm' = Some i" "mm_ClusterMaxSize mm' = GetClusterMaxSize (Some reply)"
      "xi_New_or_random L (mm_draws mm) (GetClusterID (Some reply)) = Inr i"
    by (rule admin_traffic [OF assms(10-12) link(1,2)])
  have ne: "?ps \<noteq> []" "length ?ps \<le> length ?ds" using t(3-5) by simp_all
  obtain t0 log where l: "hello_log L version ?priv ?ps ?ds r t0 log" "srv_inv L r"
    by (rule answered_log [OF assms(1,4-8) link(3,6,5,4) assms(9) ne])
  from hello_log_length [OF l(1)] t(3-5) obtain p1 where w: "w = [p1]" by (cases w) auto
  then obtain m u where m: "member_request L (mm_Node mm) (mm_ProposedAttrs mm) = Inr m" "EncodePadEncrypt L s m = (u, Inr p1)"
    using t(6) by blast
  have ps: "?ps = p0 # p1 # p2 # [p3]" using t(3) w by simp
  obtain e1 e2 where e: "en_msg e2 = create_request mm" "en_reply e2 = reply" "en_state e1 = CLIENT_DETAILS_RCVD" "entry_effect L r [e1] e2"
    by (rule first_messages [OF assms(2,3) l(1) [unfolded ps t(5)] _ t(1) [unfolded assms(13)] t(2) m(2) t(7-9) member_request_fields(1) [OF m(1)]]) simp_all
  then have "created r (mm_ClusterName mm) reply"
    using assms(15) by (simp add: entry_effect_def log_state_def create_request_def)
  then obtain cl b x y where cl: "cl \<in> set (reg_Clusters r)" "rc_Name (get_cluster r cl) = mm_ClusterName mm"
      "rc_ID (get_cluster r cl) = Some b" "valid_id b" "reply = create_reply b (rc_maxSize (get_cluster r cl)) x y"
    by (auto simp: created_def)
  have "reg_ClustersByName r (mm_ClusterName mm) = Some cl"
    using l(2) cl(1,2) by (auto simp: srv_inv_def reg_inv_def reg_index_inv_def reg_names_inv_def reg_name_def)
  moreover have "nodeids_ok L" using assms(1) by (simp add: libs_ok_def)
  from nodeids_okD(1) [OF this cl(4)] t(12) cl(5) have "i = NodeID b"
    by (simp add: create_reply_def xi_New_or_random_def)
  ultimately show ?thesis using t(10,11) cl(3,5) by (simp add: create_reply_def)
qed


section \<open>The user\<close>

lemma join_traffic:
  assumes "JoinAndReply L mm c = Ret (mm', None, c')" and "pending ds c"
  obtains n p s d ds' m where "mm_ClusterID mm = Some n"
    and "EncodePadEncrypt L (mm_Session mm) (zeroMsg\<lparr>msg_Op := Some XLRegMsg_Join, msg_ClusterID := Some (Value n)\<rparr>) = (s, Inr p)"
    and "ds = d # ds'" and "DecryptUnpadDecode L s d = Inr m" and "pending ds' c'" and "cx_out c' = cx_out c @ [p]"
    and "mm_ClusterMaxSize mm' = GetClusterMaxSize (Some m)" and "mm_EPCount mm' = GetEndPointCount (Some m)"
proof -
  obtain n where n: "mm_ClusterID mm = Some n" using assms(1) by (cases "mm_ClusterID mm") (simp_all add: JoinAndReply_def)
  obtain mm1 e c1 where w: "writeMsg L (zeroMsg\<lparr>msg_Op := Some XLRegMsg_Join, msg_ClusterID := Some (Value n)\<rparr>) mm c = (mm1, e, c1)" by (metis prod_cases3)
  from w assms(2) show ?thesis
  proof (cases rule: writeMsg_pending)
    case (failed e s)
    with assms(1) n w show ?thesis by (simp add: JoinAndReply_def)
  next
    case (sent s p)
    obtain x e2 c2 where rd: "readMsg L mm1 c1 = (x, e2, c2)" by (metis prod_cases3)
    with assms(1) n w sent(1) have "e2 = None" by (cases e2) (simp_all add: JoinAndReply_def)
    with rd have rd': "readMsg L mm1 c1 = (x, None, c2)" by simp
    obtain d ds' m where r: "ds = d # ds'" "DecryptUnpadDecode L (mm_Session mm1) d = Inr m" "x = Some m" "pending ds' c2" "cx_out c2 = cx_out c1"
      by (rule readMsg_ok [OF sent(3) rd'])
    have "c' = c2" "mm_ClusterMaxSize mm' = GetClusterMaxSize x" "mm_EPCount mm' = GetEndPointCount x"
      using assms(1) n w sent(1) rd' by (auto simp: JoinAndReply_def Let_def simp del: msg_getters)
    with that [of n s p d ds' m] n sent r show ?thesis by simp
  qed
qed

text \<open>The rounds of a Get send and read a packet each.\<close>

definition traffic :: "bytes list \<Rightarrow> TcpConnection \<Rightarrow> TcpConnection \<Rightarrow> bool" where
  "traffic ds c c' \<longleftrightarrow> (\<exists>w. cx_out c' = cx_out c @ w \<and> length w \<le> length ds \<and> pending (drop (length w) ds) c')"

lemma traffic_step:
  assumes "traffic ds c1 c'" and "cx_out c1 = cx_out c @ [p]"
  shows "traffic (d # ds) c c'"
  using assms by (auto simp: traffic_def intro: exI [of _ "p # w" for w])

lemma round_traffic:
  assumes "writeMsg L m mm c = (mm1, None, c1)" and "readMsg L mm1 c1 = (x, None, c2)" and "pending ds c"
  obtains d ds' p s where "ds = d # ds'" and "pending ds' c2" and "cx_out c2 = cx_out c @ [p]" and "mm1 = mm\<lparr>mm_Session := s\<rparr>"
  using assms(1,3)
proof (cases rule: writeMsg_pending)
  case (sent s p)
  obtain d ds' where "ds = d # ds'" "pending ds' c2" "cx_out c2 = cx_out c1" by (rule readMsg_ok [OF sent(3) assms(2)])
  with that [of d ds' p s] sent show ?thesis by simp
qed simp

lemma get_rounds_traffic:
  "get_rounds L count mm c ms still err = Ret (mm', None, c') \<Longrightarrow> pending ds c \<Longrightarrow>
     traffic ds c c' \<and> mm_ClusterMaxSize mm' = mm_ClusterMaxSize mm \<and> mm_EPCount mm' = mm_EPCount mm"
proof (induction count arbitrary: mm c ms still err ds)
  case 0
  then show ?case by (auto simp: traffic_def)
next
  case (Suc count)
  let ?idxs = "[0..<unat (mm_ClusterMaxSize mm)]"
  show ?case
  proof (cases "bm_Any L still")
    case False
    with Suc.prems show ?thesis by (auto simp: traffic_def)
  next
    case True
    obtain st where st: "clear_known L ms ?idxs still = Ret st"
      using Suc.prems(1) True by (cases "clear_known L ms ?idxs still") (auto simp: Let_def)
    obtain n where n: "mm_ClusterID mm = Some n" using Suc.prems(1) True st by (cases "mm_ClusterID mm") (auto simp: Let_def)
    let ?m = "zeroMsg\<lparr>msg_Op := Some XLRegMsg_GetCluster, msg_ClusterID := Some (Value n), msg_Which := Some st\<rparr>"
    obtain mm1 e c1 where w: "writeMsg L ?m mm c = (mm1, e, c1)" by (metis prod_cases3)
    have e: "e = None" using Suc.prems(1) True st n w by (cases e) (auto simp: Let_def)
    obtain x e2 c2 where rd: "readMsg L mm1 c1 = (x, e2, c2)" by (metis prod_cases3)
    have e2: "e2 = None" using Suc.prems(1) True st n w e rd by (cases e2) (auto simp: Let_def)
    obtain d ds' p s where t: "ds = d # ds'" "pending ds' c2" "cx_out c2 = cx_out c @ [p]" "mm1 = mm\<lparr>mm_Session := s\<rparr>"
      by (rule round_traffic [OF w [unfolded e] rd [unfolded e2] Suc.prems(2)])
    have here: "traffic ds c c2"
      using t(1-3) by (auto simp: traffic_def intro!: exI [of _ "[p]"])
    define y where "y = (if bm_Any L (GetWhich x) then collect_loop L (GetWhich x) (slice_of (GetTokens x)) ?idxs 0 (mm_draws mm1) ms st None
      else Ret (ms, st, None, mm_draws mm1))"
    have run: "obind y (\<lambda>(ms, st, err, draws). if bm_None L st then Ret (mm1\<lparr>mm_draws := draws, mm_Members := Some ms\<rparr>, err, c2)
        else get_rounds L count (mm1\<lparr>mm_draws := draws\<rparr>) c2 ms st err) = Ret (mm', None, c')"
      using Suc.prems(1) True st n w e rd e2 by (simp add: Let_def y_def del: msg_getters)
    then obtain ms2 st2 err2 draws where "y = Ret (ms2, st2, err2, draws)" by (cases y) auto
    with run have rest: "(if bm_None L st2 then Ret (mm1\<lparr>mm_draws := draws, mm_Members := Some ms2\<rparr>, err2, c2)
        else get_rounds L count (mm1\<lparr>mm_draws := draws\<rparr>) c2 ms2 st2 err2) = Ret (mm', None, c')" by simp
    show ?thesis
    proof (cases "bm_None L st2")
      case True
      with rest here t(4) show ?thesis by auto
    next
      case False
      with rest have "get_rounds L count (mm1\<lparr>mm_draws := draws\<rparr>) c2 ms2 st2 err2 = Ret (mm', None, c')" by simp
      from Suc.IH [OF this t(2)] t(1,3,4) show ?thesis by (auto intro: traffic_step)
    qed
  qed
qed

lemma get_traffic:
  assumes "GetAndMembers L mm c = Ret (mm', None, c')" and "pending ds c"
  shows "traffic ds c c' \<and> mm_ClusterMaxSize mm' = mm_ClusterMaxSize mm \<and> mm_EPCount mm' = mm_EPCount mm"
proof -
  obtain ms mm1 where r: "get_rounds L MAX_GET mm c ms (bm_LowNMap L (unat (mm_ClusterMaxSize mm))) None = Ret (mm1, None, c')"
      "mm_ClusterMaxSize mm' = mm_ClusterMaxSize mm1" "mm_EPCount mm' = mm_EPCount mm1"
    using assms(1) by (auto simp: GetAndMembers_def Let_def obind_Ret_iff split: if_splits option.splits)
  from get_rounds_traffic [OF r(1) assms(2)] r(2,3) show ?thesis by simp
qed

text \<open>
  The exchanges of a client that joins a cluster: of a user's client in one run, and of a bootstrapper
  in two calls.
\<close>

abbreviation joining :: "('h, 'v, 'b, 's, 'f, 'z) nodelib_scheme \<Rightarrow> 's MemberMaker \<Rightarrow> TcpConnection \<Rightarrow>
    ('s MemberMaker \<times> gerror option \<times> TcpConnection) outcome" where
  "joining L \<equiv> (\<lambda>mn cnx. and_then (Ret (MemberAndOK L mn cnx)) (\<lambda>mn cnx. and_then (JoinAndReply L mn cnx) (\<lambda>mn cnx.
     and_then (GetAndMembers L mn cnx) (\<lambda>mn cnx. Ret (ByeAndAck L mn cnx)))))"

text \<open>What such a client has sent and read when no error was reported.\<close>

lemma joining_traffic:
  assumes "in_session L mn (joining L) = Ret (mn', None, Some c5)" and "pe_ctors (mm_RegPeer mn) = ctor # cs" and "Connect L ctor = Inr c"
    and "pending ds c" and "cx_out c = []"
  obtains n one p0 s v w s2 s3 p2 g p3 d0 d1 d2 ds' reply where "mm_ClusterID mn = Some n" and "ClientEncryptHello L 0 (bn_ck (mm_RegPeer mn)) = Inr (one, p0)"
    and "ClientDecryptHelloReply L one d0 = Inr (s, v)" and "cx_out c5 = p0 # w @ p2 # g @ [p3]" and "length w \<le> 1" and "ds = d0 # d1 # d2 # ds'"
    and "length g < length ds'"
    and "\<forall>p. w = [p] \<longrightarrow> (\<exists>m u. member_request L (mm_Node mn) (mm_ProposedAttrs mn) = Inr m \<and> EncodePadEncrypt L s m = (u, Inr p))"
    and "descends L s s2" and "EncodePadEncrypt L s2 (zeroMsg\<lparr>msg_Op := Some XLRegMsg_Join, msg_ClusterID := Some (Value n)\<rparr>) = (s3, Inr p2)"
    and "DecryptUnpadDecode L s3 d2 = Inr reply"
    and "mm_ClusterMaxSize mn' = GetClusterMaxSize (Some reply)" and "mm_EPCount mn' = GetEndPointCount (Some reply)"
proof -
  obtain m1 c1 v where s: "SessionSetup L 0 mn = Ret (m1, Some c1, v, None)"
      "and_then (Ret (MemberAndOK L m1 c1)) (\<lambda>mn cnx. and_then (JoinAndReply L mn cnx) (\<lambda>mn cnx.
        and_then (GetAndMembers L mn cnx) (\<lambda>mn cnx. Ret (ByeAndAck L mn cnx)))) = Ret (mn', None, c5)"
    by (rule in_session_ok [OF assms(1)])
  obtain m2 c2 m3 c3 m4 c4 where y: "MemberAndOK L m1 c1 = (m2, None, c2)" "JoinAndReply L m2 c2 = Ret (m3, None, c3)"
      "GetAndMembers L m3 c3 = Ret (m4, None, c4)" "ByeAndAck L m4 c4 = (mn', None, c5)"
    using s(2) by (auto simp: and_then_ok)
  obtain one p0 d0 ds1 s where h: "ClientEncryptHello L 0 (bn_ck (mm_RegPeer mn)) = Inr (one, p0)" "ds = d0 # ds1"
      "ClientDecryptHelloReply L one d0 = Inr (s, v)" "m1 = mn\<lparr>mm_Session := s\<rparr>" "pending ds1 c1" "cx_out c1 = cx_out c @ [p0]"
    by (rule setup_traffic [OF s(1) assms(2-4)])
  obtain d1 ds2 s2 a w where m: "ds1 = d1 # ds2" "pending ds2 c2" "cx_out c2 = cx_out c1 @ w" "length w \<le> 1"
      "m2 = m1\<lparr>mm_Session := s2, mm_Attrs := a\<rparr>" "descends L (mm_Session m1) s2"
      "\<forall>p. w = [p] \<longrightarrow> (\<exists>m u. member_request L (mm_Node m1) (mm_ProposedAttrs m1) = Inr m \<and> EncodePadEncrypt L (mm_Session m1) m = (u, Inr p))"
    by (rule member_traffic [OF y(1) h(5)])
  obtain n p2 s3 d2 ds3 reply where j: "mm_ClusterID m2 = Some n"
      "EncodePadEncrypt L (mm_Session m2) (zeroMsg\<lparr>msg_Op := Some XLRegMsg_Join, msg_ClusterID := Some (Value n)\<rparr>) = (s3, Inr p2)"
      "ds2 = d2 # ds3" "DecryptUnpadDecode L s3 d2 = Inr reply" "pending ds3 c3" "cx_out c3 = cx_out c2 @ [p2]"
      "mm_ClusterMaxSize m3 = GetClusterMaxSize (Some reply)" "mm_EPCount m3 = GetEndPointCount (Some reply)"
    by (rule join_traffic [OF y(2) m(2)])
  obtain g where g: "cx_out c4 = cx_out c3 @ g" "length g \<le> length ds3" "pending (drop (length g) ds3) c4"
      "mm_ClusterMaxSize m4 = mm_ClusterMaxSize m3" "mm_EPCount m4 = mm_EPCount m3"
    using get_traffic [OF y(3) j(5)] by (auto simp: traffic_def)
  obtain p3 d3 ds4 where b: "drop (length g) ds3 = d3 # ds4" "cx_out c5 = cx_out c4 @ [p3]" "\<exists>s. mn' = m4\<lparr>mm_Session := s\<rparr>"
    by (rule bye_traffic [OF y(4) g(3)])
  have "length g < length ds3" using drop_ConsD(1) [OF b(1)] .
  with that [of n one p0 d0 s v w p2 g p3 d1 d2 ds3] h m j g b assms(5) show ?thesis by (auto simp del: msg_getters)
qed

lemma joining_run:
  fixes L :: "('h, hval, 'b, 's, 'f, 'z) nodelib_scheme"
  assumes "libs_ok L" and "\<And>m. wire_ok L m" and "shared_keys L (rn_ckPriv (reg_RegNode r0)) R"
    and "srv_inv L r0" and "\<forall>l \<in> set ls0. conn_inv L r0 l" and "server_reaches L version (a0, r0, ls0) (a, r, ls)"
    and "n < length ls0" and "ls0 ! n = (new_handler L, sc, Starting)" and "ls ! n = (h, sc', ph)"
    and "in_session L mn (joining L) = Ret (mn', None, Some c5)" and "pe_ctors (mm_RegPeer mn) = ctor # cs" and "Connect L ctor = Inr c"
    and "bn_ck (mm_RegPeer mn) = Some (rsa_pub_of (rn_ckPriv (reg_RegNode r0)))" and "linked c c5 sc sc'"
  shows "\<exists>i cl m. mm_ClusterID mn = Some i \<and> cl < length (reg_heap r) \<and> rc_ID (get_cluster r cl) = Some (Value i)
     \<and> m \<in> set (rc_Members (get_cluster r cl)) \<and> ci_GetName m = nd_name (mm_Node mn)
     \<and> (\<forall>k. nd_id (mm_Node mn) = Some k \<longrightarrow> ci_ID m = Value k)
     \<and> mm_ClusterMaxSize mn' = rc_maxSize (get_cluster r cl) \<and> mm_EPCount mn' = rc_epCount (get_cluster r cl)"
proof -
  let ?priv = "rn_ckPriv (reg_RegNode r0)" and ?ps = "cx_out c5" and ?ds = "cx_out sc'"
  have link: "pending ?ds c" "cx_out c = []" "cx_in sc = packets ?ps" "fits ?ps" "cx_writes sc = []" "cx_out sc = []"
    using assms(14) by (simp_all add: linked_def pending_def)
  obtain i one p0 d0 s v w p2 g p3 d1 d2 ds' s2 s3 reply where t: "mm_ClusterID mn = Some i" "ClientEncryptHello L 0 (bn_ck (mm_RegPeer mn)) = Inr (one, p0)"
      "ClientDecryptHelloReply L one d0 = Inr (s, v)" "?ps = p0 # w @ p2 # g @ [p3]" "length w \<le> 1" "?ds = d0 # d1 # d2 # ds'" "length g < length ds'"
      "\<forall>p. w = [p] \<longrightarrow> (\<exists>m u. member_request L (mm_Node mn) (mm_ProposedAttrs mn) = Inr m \<and> EncodePadEncrypt L s m = (u, Inr p))"
      "descends L s s2" "EncodePadEncrypt L s2 (zeroMsg\<lparr>msg_Op := Some XLRegMsg_Join, msg_ClusterID := Some (Value i)\<rparr>) = (s3, Inr p2)"
      "DecryptUnpadDecode L s3 d2 = Inr reply"
      "mm_ClusterMaxSize mn' = GetClusterMaxSize (Some reply)" "mm_EPCount mn' = GetEndPointCount (Some reply)"
    by (rule joining_traffic [OF assms(10-12) link(1,2)])
  have ne: "?ps \<noteq> []" "length ?ps \<le> length ?ds" using t(4-7) by simp_all
  obtain t0 log where l: "hello_log L version ?priv ?ps ?ds r t0 log" "srv_inv L r"
    by (rule answered_log [OF assms(1,4-8) link(3,6,5,4) assms(9) ne])
  from hello_log_length [OF l(1)] t(4-7) obtain p1 where w: "w = [p1]" by (cases w) auto
  then obtain q u where q: "member_request L (mm_Node mn) (mm_ProposedAttrs mn) = Inr q" "EncodePadEncrypt L s q = (u, Inr p1)"
    using t(8) by blast
  have ps: "?ps = p0 # p1 # p2 # (g @ [p3])" using t(4) w by simp
  obtain e1 e2 where e: "en_msg e1 = q" "en_msg e2 = zeroMsg\<lparr>msg_Op := Some XLRegMsg_Join, msg_ClusterID := Some (Value i)\<rparr>" "en_reply e2 = reply"
      "en_state e1 = CLIENT_DETAILS_RCVD" "entry_effect L r [] e1" "entry_effect L r [e1] e2"
    by (rule first_messages [OF assms(2,3) l(1) [unfolded ps t(6)] _ t(2) [unfolded assms(13)] t(3) q(2) t(9-11) member_request_fields(1) [OF q(1)]]) simp_all
  obtain m where m: "en_client e1 = Some m" "ci_GetName m = nd_name (mm_Node mn)" "\<forall>k. nd_id (mm_Node mn) = Some k \<longrightarrow> ci_ID m = Value k"
    using e(1,5) member_request_fields(1,2,4) [OF q(1)] by (auto simp: entry_effect_def log_state_def enrolled_def simp del: msg_getters token_getters)
  have "joined r (Value i) (Some m) reply"
    using e(2-4,6) m(1) by (simp add: entry_effect_def log_state_def log_client_def)
  with t(1,12,13) m(2,3) show ?thesis by (auto simp: joined_def simp del: msg_getters)
qed

lemma linked_close: "linked c (Cnx_Close c') sc sc' \<longleftrightarrow> linked c c' sc sc'"
  by (simp add: linked_def Cnx_Close_def)

text \<open>C2. The whole run of a user's client against the server, with any other connections in between. If
  the run reports no error, the client is a member of the cluster whose ID it was given, under its own
  name and ID, and it knows that cluster's size and number of end points.\<close>

theorem user_run_joined:
  fixes L :: "('h, hval, 'b, 's, 'f, 'z) nodelib_scheme"
  assumes "libs_ok L" and "\<And>m. wire_ok L m" and "shared_keys L (rn_ckPriv (reg_RegNode r0)) R"
    and "srv_inv L r0" and "\<forall>l \<in> set ls0. conn_inv L r0 l" and "server_reaches L version (a0, r0, ls0) (a, r, ls)"
    and "n < length ls0" and "ls0 ! n = (new_handler L, sc, Starting)" and "ls ! n = (h, sc', ph)"
    and "UserMember_Start L mn = Ret (mn', None, Some c')" and "pe_ctors (mm_RegPeer mn) = ctor # cs" and "Connect L ctor = Inr c"
    and "bn_ck (mm_RegPeer mn) = Some (rsa_pub_of (rn_ckPriv (reg_RegNode r0)))" and "linked c c' sc sc'"
    and "Node_OpenAcc L (mm_Node mn) = (node, x)"
  shows "\<exists>i cl m. mm_ClusterID mn = Some i \<and> cl < length (reg_heap r) \<and> rc_ID (get_cluster r cl) = Some (Value i)
     \<and> m \<in> set (rc_Members (get_cluster r cl)) \<and> ci_GetName m = nd_name node \<and> (\<forall>k. nd_id node = Some k \<longrightarrow> ci_ID m = Value k)
     \<and> mm_ClusterMaxSize mn' = rc_maxSize (get_cluster r cl) \<and> mm_EPCount mn' = rc_epCount (get_cluster r cl)"
proof -
  let ?mn = "mn\<lparr>mm_Node := node\<rparr>"
  have "x = None" using assms(10,15) by (cases x) (auto simp: UserMember_Start_def)
  then obtain c5 where run: "in_session L ?mn (joining L) = Ret (mn', None, Some c5)" "c' = Cnx_Close c5"
    using assms(10,15) by (auto simp: UserMember_Start_def close_cnx_ok)
  have p: "pe_ctors (mm_RegPeer ?mn) = ctor # cs" "bn_ck (mm_RegPeer ?mn) = Some (rsa_pub_of (rn_ckPriv (reg_RegNode r0)))"
      "linked c c5 sc sc'"
    using assms(11,13,14) run(2) by (simp_all add: linked_close)
  show ?thesis using joining_run [OF assms(1-9) run(1) p(1) assms(12) p(2,3)] by simp
qed

section \<open>The bootstrapper\<close>

lemma bootstrap_start_ok:
  "Bootstrapper_Start L mn (Some c1) = Ret (mn', None, Some c') \<longleftrightarrow> (\<exists>c. ByeAndAck L mn c1 = (mn', None, c) \<and> c' = Cnx_Close c)"
  by (cases "ByeAndAck L mn c1") (auto simp: Bootstrapper_Start_def close_cnx_ok)

lemma bootstrap_joining:
  "(\<exists>mn1 c1. Bootstrapper_JoinCluster L mn = Ret (mn1, None, Some c1) \<and> Bootstrapper_Start L mn1 (Some c1) = Ret (mn', None, Some c'))
     \<longleftrightarrow> close_cnx (in_session L mn (joining L)) = Ret (mn', None, Some c')"
  unfolding Bootstrapper_JoinCluster_def bootstrap_start_ok close_cnx_ok in_session_iff and_then_ok by auto

text \<open>C3. A bootstrapper joins and says goodbye in two calls. If neither reports an error, whatever other
  connections do meanwhile, the bootstrapper is a member of the cluster whose ID it was given, under its
  own name and ID, and it knows that cluster's size and number of end points.\<close>

theorem bootstrap_run_joined:
  fixes L :: "('h, hval, 'b, 's, 'f, 'z) nodelib_scheme"
  assumes "libs_ok L" and "\<And>m. wire_ok L m" and "shared_keys L (rn_ckPriv (reg_RegNode r0)) R"
    and "srv_inv L r0" and "\<forall>l \<in> set ls0. conn_inv L r0 l" and "server_reaches L version (a0, r0, ls0) (a, r, ls)"
    and "n < length ls0" and "ls0 ! n = (new_handler L, sc, Starting)" and "ls ! n = (h, sc', ph)"
    and "Bootstrapper_JoinCluster L mn = Ret (mn1, None, Some c1)" and "Bootstrapper_Start L mn1 (Some c1) = Ret (mn', None, Some c')"
    and "pe_ctors (mm_RegPeer mn) = ctor # cs" and "Connect L ctor = Inr c"
    and "bn_ck (mm_RegPeer mn) = Some (rsa_pub_of (rn_ckPriv (reg_RegNode r0)))" and "linked c c' sc sc'"
  shows "\<exists>i cl m. mm_ClusterID mn = Some i \<and> cl < length (reg_heap r) \<and> rc_ID (get_cluster r cl) = Some (Value i)
     \<and> m \<in> set (rc_Members (get_cluster r cl)) \<and> ci_GetName m = nd_name (mm_Node mn)
     \<and> (\<forall>k. nd_id (mm_Node mn) = Some k \<longrightarrow> ci_ID m = Value k)
     \<and> mm_ClusterMaxSize mn' = rc_maxSize (get_cluster r cl) \<and> mm_EPCount mn' = rc_epCount (get_cluster r cl)"
proof -
  have "close_cnx (in_session L mn (joining L)) = Ret (mn', None, Some c')" using bootstrap_joining assms(10,11) by blast
  then obtain c5 where run: "in_session L mn (joining L) = Ret (mn', None, Some c5)" "c' = Cnx_Close c5" by (auto simp: close_cnx_ok)
  have "linked c c5 sc sc'" using assms(15) run(2) by (simp add: linked_close)
  then show ?thesis by (rule joining_run [OF assms(1-9) run(1) assms(12-14)])
qed

section \<open>The solitary client\<close>

lemma solo_traffic:
  assumes "in_session L mm (\<lambda>mm cnx. and_then (Ret (MemberAndOK L mm cnx)) (\<lambda>mm cnx. Ret (ByeAndAck L mm cnx))) = Ret (mm', None, Some c')"
    and "pe_ctors (mm_RegPeer mm) = ctor # cs" and "Connect L ctor = Inr c" and "pending ds c" and "cx_out c = []"
  obtains one p0 d0 s v w p2 d1 d2 ds' where "ClientEncryptHello L 0 (bn_ck (mm_RegPeer mm)) = Inr (one, p0)"
    and "ClientDecryptHelloReply L one d0 = Inr (s, v)" and "cx_out c' = p0 # w @ [p2]" and "length w \<le> 1" and "ds = d0 # d1 # d2 # ds'"
    and "\<forall>p. w = [p] \<longrightarrow> (\<exists>m u. member_request L (mm_Node mm) (mm_ProposedAttrs mm) = Inr m \<and> EncodePadEncrypt L s m = (u, Inr p))"
    and "mm_Node mm' = mm_Node mm"
proof -
  obtain mm1 c1 v where s: "SessionSetup L 0 mm = Ret (mm1, Some c1, v, None)"
      "and_then (Ret (MemberAndOK L mm1 c1)) (\<lambda>mm cnx. Ret (ByeAndAck L mm cnx)) = Ret (mm', None, c')"
    by (rule in_session_ok [OF assms(1)])
  obtain mm2 c2 where x: "MemberAndOK L mm1 c1 = (mm2, None, c2)" "ByeAndAck L mm2 c2 = (mm', None, c')"
    using s(2) by (auto simp: and_then_ok)
  obtain one p0 d0 ds1 s where h: "ClientEncryptHello L 0 (bn_ck (mm_RegPeer mm)) = Inr (one, p0)" "ds = d0 # ds1"
      "ClientDecryptHelloReply L one d0 = Inr (s, v)" "mm1 = mm\<lparr>mm_Session := s\<rparr>" "pending ds1 c1" "cx_out c1 = cx_out c @ [p0]"
    by (rule setup_traffic [OF s(1) assms(2-4)])
  obtain d1 ds2 s2 a w where m: "ds1 = d1 # ds2" "pending ds2 c2" "cx_out c2 = cx_out c1 @ w" "length w \<le> 1"
      "mm2 = mm1\<lparr>mm_Session := s2, mm_Attrs := a\<rparr>"
      "\<forall>p. w = [p] \<longrightarrow> (\<exists>m u. member_request L (mm_Node mm1) (mm_ProposedAttrs mm1) = Inr m \<and> EncodePadEncrypt L (mm_Session mm1) m = (u, Inr p))"
    by (rule member_traffic [OF x(1) h(5)])
  obtain p2 d2 ds3 where b: "ds2 = d2 # ds3" "cx_out c' = cx_out c2 @ [p2]" "\<exists>s. mm' = mm2\<lparr>mm_Session := s\<rparr>"
    by (rule bye_traffic [OF x(2) m(2)])
  from b(3) m(5) h(4) have "mm_Node mm' = mm_Node mm" by auto
  with that [of one p0 d0 s v w p2 d1 d2 ds3] h m b assms(5) show ?thesis by simp
qed

lemma PersistNode_writes:
  assumes "PersistNode L fs mm = (fs', None)"
  obtains fs1 where "fs_WriteFile L fs1 (path_Join (path_Join (nd_lfs (mm_Node mm)) ''.xlattice'') ''node.config'') (Node_String L (mm_Node mm)) = (fs', None)"
  using assms by (auto simp: PersistNode_def Let_def split: prod.splits option.splits sum.splits if_splits)

lemma solo_start_ok:
  assumes "SoloMember_Start L fs mm = Ret (fs', mm', None, Some c')"
  obtains c fs1 where "in_session L mm (\<lambda>mm cnx. and_then (Ret (MemberAndOK L mm cnx)) (\<lambda>mm cnx. Ret (ByeAndAck L mm cnx))) = Ret (mm', None, Some c)"
    and "c' = Cnx_Close c" and "PersistNode L fs1 mm' = (fs', None)"
proof -
  obtain fs1 x where o: "fs_OpenFile L fs ''junk.soloClient.log'' = (fs1, x)" by fastforce
  have "x = None" using assms o by (cases x) (simp_all add: SoloMember_Start_def)
  with assms o obtain cn err cnx where run: "close_cnx (in_session L mm (\<lambda>mm cnx. and_then (Ret (MemberAndOK L mm cnx)) (\<lambda>mm cnx. Ret (ByeAndAck L mm cnx)))) = Ret (cn, err, cnx)"
      "(case err of Some e \<Rightarrow> Ret (fs1, cn, Some e, cnx) | None \<Rightarrow> (case PersistNode L fs1 cn of (fs, err) \<Rightarrow> Ret (fs, cn, err, cnx))) = Ret (fs', mm', None, Some c')"
    by (auto simp: SoloMember_Start_def obind_Ret_iff)
  from run(2) have "err = None" "cn = mm'" "cnx = Some c'" "PersistNode L fs1 mm' = (fs', None)" by (auto split: option.splits prod.splits)
  with that run(1) show ?thesis by (auto simp: close_cnx_ok)
qed

text \<open>C4. The whole run of a solitary client against the server, with any other connections in between. If
  the run reports no error, the ID of the client's node is registered, and the node has been written to
  its configuration file.\<close>

theorem solo_run_registered:
  fixes L :: "('h, hval, 'b, 's, 'f, 'z) memberlib_scheme"
  assumes "libs_ok L" and "\<And>m. wire_ok L m" and "shared_keys L (rn_ckPriv (reg_RegNode r0)) R"
    and "srv_inv L r0" and "\<forall>l \<in> set ls0. conn_inv L r0 l" and "server_reaches L version (a0, r0, ls0) (a, r, ls)"
    and "n < length ls0" and "ls0 ! n = (new_handler L, sc, Starting)" and "ls ! n = (h, sc', ph)"
    and "SoloMember_Start L fs mm = Ret (fs', mm', None, Some c')" and "pe_ctors (mm_RegPeer mm) = ctor # cs" and "Connect L ctor = Inr c"
    and "bn_ck (mm_RegPeer mm) = Some (rsa_pub_of (rn_ckPriv (reg_RegNode r0)))" and "linked c c' sc sc'" and "nd_id (mm_Node mm) = Some i"
  shows "known L r (Value i)
     \<and> (\<exists>fs1. fs_WriteFile L fs1 (path_Join (path_Join (nd_lfs (mm_Node mm)) ''.xlattice'') ''node.config'') (Node_String L (mm_Node mm)) = (fs', None))"
proof -
  let ?priv = "rn_ckPriv (reg_RegNode r0)" and ?ps = "cx_out c'" and ?ds = "cx_out sc'"
  have link: "pending ?ds c" "cx_out c = []" "cx_in sc = packets ?ps" "fits ?ps" "cx_writes sc = []" "cx_out sc = []"
    using assms(14) by (simp_all add: linked_def pending_def)
  obtain c4 fs1 where run: "in_session L mm (\<lambda>mm cnx. and_then (Ret (MemberAndOK L mm cnx)) (\<lambda>mm cnx. Ret (ByeAndAck L mm cnx))) = Ret (mm', None, Some c4)"
      "c' = Cnx_Close c4" "PersistNode L fs1 mm' = (fs', None)"
    by (rule solo_start_ok [OF assms(10)])
  obtain one p0 d0 s v w p2 d1 d2 ds' where t: "ClientEncryptHello L 0 (bn_ck (mm_RegPeer mm)) = Inr (one, p0)"
      "ClientDecryptHelloReply L one d0 = Inr (s, v)" "cx_out c4 = p0 # w @ [p2]" "length w \<le> 1" "?ds = d0 # d1 # d2 # ds'"
      "\<forall>p. w = [p] \<longrightarrow> (\<exists>m u. member_request L (mm_Node mm) (mm_ProposedAttrs mm) = Inr m \<and> EncodePadEncrypt L s m = (u, Inr p))"
      "mm_Node mm' = mm_Node mm"
    by (rule solo_traffic [OF run(1) assms(11,12) link(1,2)])
  have out: "?ps = p0 # w @ [p2]" using run(2) t(3) by (simp add: Cnx_Close_def)
  have ne: "?ps \<noteq> []" "length ?ps \<le> length ?ds" using out t(4,5) by simp_all
  obtain t0 log where l: "hello_log L version ?priv ?ps ?ds r t0 log" by (rule answered_log [OF assms(1,4-8) link(3,6,5,4) assms(9) ne])
  from hello_log_length [OF l] t(4,5) out obtain p1 where w: "w = [p1]" by (cases w) auto
  then obtain q u where q: "member_request L (mm_Node mm) (mm_ProposedAttrs mm) = Inr q" "EncodePadEncrypt L s q = (u, Inr p1)" using t(6) by blast
  have ps: "?ps = p0 # p1 # [p2]" using out w by simp
  obtain e1 where e: "en_msg e1 = q" "entry_effect L r [] e1"
    by (rule first_message [OF assms(2,3) l [unfolded ps t(5)] _ t(1) [unfolded assms(13)] t(2) q(2)]) simp_all
  have "known L r (Value i)"
    using e member_request_fields(1,4) [OF q(1)] assms(15) by (auto simp: entry_effect_def log_state_def enrolled_def simp del: msg_getters token_getters)
  with PersistNode_writes [OF run(3)] t(7) show ?thesis by metis
qed

section \<open>A sample run\<close>

text \<open>Messages that differ in their operation, each known by its position, and packets of one message.\<close>

definition packet :: "u32 \<Rightarrow> nat \<Rightarrow> bytes" where
  "packet s i = [ucast s, word_of_nat i]"

lemma ref_index_at:
  assumes "distinct (map msg_Op ms)" and "i < length ms"
  shows "ref_index ms (ms ! i) = Some i"
proof -
  have "distinct ms" using assms(1) by (simp add: distinct_map)
  then have "takeWhile (\<lambda>x. x \<noteq> ms ! i) ms = take i ms"
    using assms(2) by (intro takeWhile_eq_take_P_nth) (auto simp: nth_eq_iff_index_eq)
  with assms(2) show ?thesis by (simp add: ref_index_def)
qed

lemma sample_encode:
  assumes "distinct (map msg_Op ms)" and "i < length ms"
  shows "EncodePadEncrypt (xlib ms c z) s (ms ! i) = (s + 1, Inr (packet s i))"
  using ref_index_at [OF assms] by (simp add: EncodePadEncrypt_def EncodePacket_def packet_def)

lemma sample_decode:
  assumes "i < length ms" and "length ms \<le> 256"
  shows "DecryptUnpadDecode (xlib ms c z) s (packet x i) = Inr (ms ! i)"
  using assms by (simp add: DecryptUnpadDecode_def DecodePacket_def packet_def unat_of_nat)

lemma sample_turn:
  assumes "distinct (map msg_Op ms)" and "length ms \<le> 256" and "i < length ms" and "k < length ms"
    and "cx_in sc = packets (packet x i # ps)" and "cx_writes sc = []" and "handle_message (xlib ms c z) (ms ! i) r h = Ret (s, j)"
    and "ih_msgOut j = Some (ms ! k)" and "ih_exitState j \<noteq> IN_CLOSED"
  shows "conn_step (xlib ms c z) version () r (h, sc, Looping) =
     Ret (s, j\<lparr>ih_Session := ih_Session j + 1, ih_entryState := ih_exitState j\<rparr>,
       sc\<lparr>cx_in := packets ps, cx_out := cx_out sc @ [packet (ih_Session j) k]\<rparr>, Looping)"
proof -
  have "ReadData sc = (Some (packet x i), None, sc\<lparr>cx_in := packets ps\<rparr>)"
    using assms(5) by (simp add: packets_def packet_def ReadData_def Cnx_Read_def MSG_BUF_LEN_def)
  with assms(6-9) sample_decode [OF assms(3,2), where z = z] sample_encode [OF assms(1,4), where z = z] show ?thesis
    by (simp add: conn_step_def loop_turn_def send_reply_def WriteData_def Cnx_Write_def Let_def)
qed

lemma sample_write:
  assumes "distinct (map msg_Op ms)" and "i < length ms" and "cx_writes c = []"
  shows "writeMsg (xlib ms c0 z) (ms ! i) mm c = (mm\<lparr>mm_Session := mm_Session mm + 1\<rparr>, None, c\<lparr>cx_out := cx_out c @ [packet (mm_Session mm) i]\<rparr>)"
  using assms(3) sample_encode [OF assms(1,2), where z = z] by (simp add: writeMsg_def WriteData_def Cnx_Write_def)

lemma sample_read:
  assumes "i < length ms" and "length ms \<le> 256" and "cx_in c = packets (packet x i # ps)"
  shows "readMsg (xlib ms c0 z) mm c = (Some (ms ! i), None, c\<lparr>cx_in := packets ps\<rparr>)"
proof -
  have "ReadData c = (Some (packet x i), None, c\<lparr>cx_in := packets ps\<rparr>)"
    using assms(3) by (simp add: packets_def packet_def ReadData_def Cnx_Read_def MSG_BUF_LEN_def)
  with sample_decode [OF assms(1,2), where z = z] show ?thesis by (simp add: readMsg_def)
qed

lemma sample_shared: "shared_keys (xlib ms c z) priv (\<lambda>s t. True)"
  by (auto simp: shared_keys_def sessions_match_def)

lemma reaches_turn:
  "server_reaches L version x (a, r, [l]) \<Longrightarrow> conn_step L version () r l = Ret (r', l') \<Longrightarrow> server_reaches L version x (a, r', [l'])"
  using server_reaches.step [OF _ server_step.turn, of L version x a r "[l]" 0 r' l'] by simp

text \<open>The handlers on the sample registry.\<close>

definition member_reply :: XLRegMsg where
  "member_reply = zeroMsg\<lparr>msg_Op := Some XLRegMsg_MemberOK, msg_MemberID := Some (ref_id 1), msg_MemberAttrs := Some 0\<rparr>"

definition sample_client :: ClientInfo where
  "sample_client = \<lparr>ci_Attrs = 0, ci_MyEnds = None, ci_BaseNode = ref_bn ''al'' 1\<rparr>"

lemma sample_member_handled:
  assumes "ih_entryState h = HELLO_RCVD" and "ref_id 1 \<in> set (reg_idFilter r)"
  shows "handle_message (xlib ms c z) member_msg r h =
    Ret (r, h\<lparr>ih_msgIn := Some member_msg, ih_thisClient := Some sample_client, ih_msgOut := Some member_reply,
      ih_exitState := CLIENT_DETAILS_RCVD, ih_errOut := None\<rparr>)"
proof -
  let ?L = "xlib ms c z"
  have q: "member_request ?L ref_member 0 = Inr member_msg" by (rule sample_member_request)
  have f: "msg_Op member_msg = Some XLRegMsg_Member" "Token_GetName (GetMemberSpecs (Some member_msg)) = ''al''"
      "Token_GetAttrs (GetMemberSpecs (Some member_msg)) = 0" "Token_GetID (GetMemberSpecs (Some member_msg)) = Some (ref_id 1)"
      "Token_GetMyEnds (GetMemberSpecs (Some member_msg)) = None"
    using member_request_fields [OF q] by (simp_all add: ref_member_def)
  have k: "client_keys ?L (GetMemberSpecs (Some member_msg)) = Inr (ref_pub, ref_pub)"
    using member_request_keys [OF nlib_keys q] by (simp add: ref_member_def ref_priv_def)
  have i: "client_node_id ?L (Some (ref_id 1)) r = Ret (r, Some (NodeID (ref_id 1)), None)"
    using assms(2) by (simp add: client_node_id_def ContainsID_def)
  have t: "op2tag (GetOp (Some member_msg)) = 0" using f(1) by (simp add: request_tags)
  have d: "doClientMsg ?L r (h\<lparr>ih_msgIn := Some member_msg\<rparr>) = Ret (r,
      h\<lparr>ih_msgIn := Some member_msg, ih_thisClient := Some sample_client, ih_msgOut := Some member_reply, ih_exitState := CLIENT_DETAILS_RCVD, ih_errOut := None\<rparr>)"
    by (simp add: doClientMsg_def f k i NewClientInfo_def ref_bn_def Let_def member_reply_def sample_client_def del: msg_getters token_getters)
  show ?thesis by (rule sample_handled [OF entries(1) assms(1) t _ _ d]) simp_all
qed

lemma sample_create_handled:
  assumes "ih_entryState h = CLIENT_DETAILS_RCVD"
  shows "handle_message (xlib ms c z) (create_request club_maker) ref_registry3 h =
    Ret (ref_registry3, h\<lparr>ih_msgIn := Some (create_request club_maker), ih_msgOut := Some (create_reply (ref_id 9) 2 5 1),
      ih_exitState := CREATE_REQUEST_RCVD, ih_errOut := None\<rparr>)"
proof -
  have t: "op2tag (GetOp (Some (create_request club_maker))) = 1" by (simp add: create_request_def request_tags)
  show ?thesis
    by (rule sample_handled [OF entries(2) assms t])
      (simp_all add: doCreateMsg_def create_request_def club_maker_def ref_maker_def sample_cluster create_existing_def ref_cluster_def
        xi_New_or_random_def Let_def)
qed

lemma sample_bye_handled:
  assumes "ih_entryState h = CREATE_REQUEST_RCVD \<or> ih_entryState h = JOIN_RCVD \<or> ih_entryState h = CLIENT_DETAILS_RCVD"
  shows "handle_message (xlib ms c z) byeMsg r h = Ret (r, h\<lparr>ih_msgIn := Some byeMsg, ih_msgOut := Some ackMsg, ih_exitState := BYE_RCVD, ih_errOut := None\<rparr>)"
proof -
  have t: "op2tag (GetOp (Some byeMsg)) = 4" by (simp add: byeMsg_def op2tag_def go_div_def)
  have "index2 (msgHandlers (xlib ms c z)) (ih_entryState h) 4 = Some doByeMsg" using assms by (auto simp: index2_def msgHandlers_def)
  from sample_handled [OF this _ t, of h] show ?thesis by (simp add: doByeMsg_def ackMsg_def)
qed


lemma sample_member_op: "msg_Op member_msg = Some XLRegMsg_Member"
  by (rule member_request_fields(1) [OF sample_member_request [of "[]" no_cnx]])

text \<open>The hello of the sample library.\<close>

lemma nlib_hello [simp]:
  "ServerDecryptHello (xlib ms c z) = (\<lambda>c k. if c = [] then Inl ''too short'' else Inr (0, 1))"
  "ServerEncryptHelloReply (xlib ms c z) = (\<lambda>s v. Inr (s + 1, [ucast v]))"
  by (simp_all add: xlib_def clib_def serverlib.defs clientlib.defs nodelib.defs)

lemma sample_hello:
  assumes "cx_in sc = packets ([1] # ps)" and "cx_writes sc = []"
  shows "conn_step (xlib ms c z) version () r (new_handler (xlib ms c z), sc, Starting) =
     Ret (r, (new_handler (xlib ms c z))\<lparr>ih_Session := 1, ih_version := version\<rparr>,
       sc\<lparr>cx_in := packets ps, cx_out := cx_out sc @ [[ucast version]]\<rparr>, Looping)"
  using assms
  by (simp add: conn_step_def handleHello_def packets_def ReadData_def Cnx_Read_def MSG_BUF_LEN_def WriteData_def Cnx_Write_def ext_def Let_def)

lemma sample_setup:
  assumes "pe_ctors (mm_RegPeer mm) = ctor # cs" and "cx_in c = packets ([v] # ds)" and "cx_writes c = []"
  shows "SessionSetup (xlib ms c z) 0 mm = Ret (mm\<lparr>mm_Session := 1\<rparr>, Some (c\<lparr>cx_in := packets ds, cx_out := cx_out c @ [[1]]\<rparr>), ucast v, None)"
  using assms
  by (simp add: SessionSetup_def NewCnxHandler_def client_hello_def packets_def ReadData_def Cnx_Read_def MSG_BUF_LEN_def WriteData_def Cnx_Write_def)

lemma sample_member:
  assumes "distinct (map msg_Op ms)" and "length ms \<le> 256" and "i < length ms" and "ms ! i = member_msg" and "k < length ms" and "ms ! k = member_reply"
    and "member_request (xlib ms c0 z) (mm_Node mm) (mm_ProposedAttrs mm) = Inr member_msg"
    and "cx_in c = packets (packet x k # ds)" and "cx_writes c = []"
  shows "MemberAndOK (xlib ms c0 z) mm c = (mm\<lparr>mm_Session := mm_Session mm + 1, mm_Attrs := 0\<rparr>, None,
     c\<lparr>cx_in := packets ds, cx_out := cx_out c @ [packet (mm_Session mm) i]\<rparr>)"
  using sample_write [OF assms(1,3,9), of c0 z mm] assms(4,6,7)
    sample_read [OF assms(5,2), of "c\<lparr>cx_out := cx_out c @ [packet (mm_Session mm) i]\<rparr>" x ds c0 z] assms(8)
  by (simp add: MemberAndOK_def member_reply_def)

lemma sample_bye:
  assumes "distinct (map msg_Op ms)" and "length ms \<le> 256" and "i < length ms" and "ms ! i = byeMsg" and "k < length ms"
    and "cx_in c = packets (packet x k # ds)" and "cx_writes c = []"
  shows "ByeAndAck (xlib ms c0 z) mm c = (mm\<lparr>mm_Session := mm_Session mm + 1\<rparr>, None,
     c\<lparr>cx_in := packets ds, cx_out := cx_out c @ [packet (mm_Session mm) i]\<rparr>)"
  using sample_write [OF assms(1,3,7), of c0 z mm] assms(4)
    sample_read [OF assms(5,2), of "c\<lparr>cx_out := cx_out c @ [packet (mm_Session mm) i]\<rparr>" x ds c0 z] assms(6)
  by (simp add: ByeAndAck_def byeMsg_def)

text \<open>The ends of the sample connections, and what the sample client knows of the server.\<close>

lemma ref_cnx_packets: "cx_in (ref_cnx ps) = packets ps" "cx_writes (ref_cnx ps) = []" "cx_out (ref_cnx ps) = []"
  by (simp_all add: ref_cnx_def packets_def)

lemma sample_linked:
  "cx_out c' = ps \<Longrightarrow> cx_out sc' = ds \<Longrightarrow> fits ps \<Longrightarrow> fits ds \<Longrightarrow> linked (ref_cnx ds) c' (ref_cnx ps) sc'"
  by (simp add: linked_def pending_def ref_cnx_packets)

lemma fits_packets: "fits []" "fits ([b] # ps) \<longleftrightarrow> fits ps" "fits (packet s i # ps) \<longleftrightarrow> fits ps"
  by (auto simp: fits_def packet_def MSG_BUF_LEN_def)

lemma sample_fresh: "libs_ok L \<Longrightarrow> srv_inv L r \<Longrightarrow> \<forall>l \<in> set [(new_handler L, ref_cnx ps, Starting)]. conn_inv L r l"
  using server.fresh_linv [of L r "(new_handler L, ref_cnx ps, Starting)"] by (simp add: fresh_conn_def)

lemma club_peer:
  "pe_ctors (mm_RegPeer club_maker) = [Connector (EndPoint ''127.0.0.1:55''), Connector (EndPoint ''127.0.0.1:56'')]"
  "bn_ck (mm_RegPeer club_maker) = Some (rsa_pub_of (rn_ckPriv ref_node))" "mm_Node club_maker = ref_member"
  by (simp_all add: club_maker_def ref_maker_def ref_info_def ref_node_def)

lemma ref_registry3_node: "reg_RegNode ref_registry3 = ref_node"
  by (simp add: ref_registry3_def ref_registry1_def ref_registry_def)

definition admin_msgs :: "XLRegMsg list" where
  "admin_msgs = [member_msg, member_reply, create_request club_maker, create_reply (ref_id 9) 2 5 1, byeMsg, ackMsg]"

definition admin_sent :: "bytes list" where
  "admin_sent = [[1], packet 1 0, packet 2 2, packet 3 4]"

definition admin_read :: "bytes list" where
  "admin_read = [[7], packet 1 1, packet 2 3, packet 3 5]"

lemma admin_msgs_ok: "distinct (map msg_Op admin_msgs)" "length admin_msgs = 6"
  by (simp_all add: admin_msgs_def sample_member_op member_reply_def create_request_def create_reply_def byeMsg_def ackMsg_def)

lemma admin_msgs_at:
  "admin_msgs ! 0 = member_msg" "admin_msgs ! 1 = member_reply" "admin_msgs ! 2 = create_request club_maker"
  "admin_msgs ! 3 = create_reply (ref_id 9) 2 5 1" "admin_msgs ! 4 = byeMsg" "admin_msgs ! 5 = ackMsg"
  by (simp_all add: admin_msgs_def)

abbreviation "admin_lib \<equiv> nlib admin_msgs (ref_cnx admin_read)"

lemma admin_client_run:
  "\<exists>mm' c'. AdminClient_Start admin_lib club_maker = Ret (mm', None, Some c') \<and> cx_out c' = admin_sent"
proof -
  let ?mm = "club_maker\<lparr>mm_Session := 1\<rparr>" and ?c = "(ref_cnx admin_read)\<lparr>cx_in := packets [packet 1 1, packet 2 3, packet 3 5], cx_out := [[1]]\<rparr>"
  have s: "SessionSetup admin_lib 0 club_maker = Ret (?mm, Some ?c, 7, None)"
    using sample_setup [where z = "()", of club_maker _ _ "ref_cnx admin_read" 7 "[packet 1 1, packet 2 3, packet 3 5]" admin_msgs]
    by (simp add: club_maker_def ref_maker_def ref_info_def ref_cnx_packets admin_read_def)
  let ?c2 = "?c\<lparr>cx_in := packets [packet 2 3, packet 3 5], cx_out := [[1], packet 1 0]\<rparr>" and ?mm2 = "?mm\<lparr>mm_Session := 2, mm_Attrs := 0\<rparr>"
  have q: "member_request admin_lib (mm_Node ?mm) (mm_ProposedAttrs ?mm) = Inr member_msg"
    using sample_member_request by (simp add: club_maker_def ref_maker_def)
  have m: "MemberAndOK admin_lib ?mm ?c = (?mm2, None, ?c2)"
    using sample_member [where z = "()", OF admin_msgs_ok(1) _ _ admin_msgs_at(1) _ admin_msgs_at(2) q, of ?c 1 "[packet 2 3, packet 3 5]"]
    by (simp add: admin_msgs_ok ref_cnx_packets)
  let ?c3 = "?c2\<lparr>cx_in := packets [packet 3 5], cx_out := [[1], packet 1 0, packet 2 2]\<rparr>"
  have w: "writeMsg admin_lib (create_request ?mm2) ?mm2 ?c2 = (?mm2\<lparr>mm_Session := 3\<rparr>, None, ?c2\<lparr>cx_out := [[1], packet 1 0, packet 2 2]\<rparr>)"
    using sample_write [where z = "()", OF admin_msgs_ok(1), of 2 ?c2 "ref_cnx admin_read" ?mm2] admin_msgs_at(3)
    by (simp add: admin_msgs_ok ref_cnx_packets) (simp add: create_request_def)
  have r: "readMsg admin_lib (?mm2\<lparr>mm_Session := 3\<rparr>) (?c2\<lparr>cx_out := [[1], packet 1 0, packet 2 2]\<rparr>) = (Some (create_reply (ref_id 9) 2 5 1), None, ?c3)"
    using sample_read [where z = "()", of 3 admin_msgs "?c2\<lparr>cx_out := [[1], packet 1 0, packet 2 2]\<rparr>" 2 "[packet 3 5]"] admin_msgs_at(4)
    by (simp add: admin_msgs_ok)
  obtain mm3 where k: "CreateAndReply admin_lib ?mm2 ?c2 = (mm3, None, ?c3)" and s3: "mm_Session mm3 = 3"
    using w r by (simp add: CreateAndReply_def create_reply_def xi_New_or_random_def Let_def)
  obtain mm4 c4 where b: "ByeAndAck admin_lib mm3 ?c3 = (mm4, None, c4)" and o: "cx_out c4 = admin_sent"
    using sample_bye [where z = "()", OF admin_msgs_ok(1) _ _ admin_msgs_at(5), of 5 ?c3 3 "[]" "ref_cnx admin_read" mm3] s3
    by (simp add: admin_msgs_ok ref_cnx_packets admin_sent_def)
  show ?thesis
    using s m k b o by (simp add: AdminClient_Start_def close_cnx_def in_session_def and_then_def Cnx_Close_def)
qed

lemma admin_server_run:
  "\<exists>h sc'. server_reaches admin_lib 7 (Listening [], ref_registry3, [(new_handler admin_lib, ref_cnx admin_sent, Starting)])
     (Listening [], ref_registry3, [(h, sc', Looping)]) \<and> cx_out sc' = admin_read"
proof -
  let ?L = admin_lib
  let ?h1 = "(new_handler ?L)\<lparr>ih_Session := 1, ih_version := 7\<rparr>" and ?c1 = "(ref_cnx admin_sent)\<lparr>cx_in := packets [packet 1 0, packet 2 2, packet 3 4], cx_out := [[7]]\<rparr>"
  have s1: "conn_step ?L 7 () ref_registry3 (new_handler ?L, ref_cnx admin_sent, Starting) = Ret (ref_registry3, ?h1, ?c1, Looping)"
    using sample_hello [where z = "()", of "ref_cnx admin_sent" "[packet 1 0, packet 2 2, packet 3 4]" admin_msgs "ref_cnx admin_read" 7 ref_registry3]
    by (simp add: ref_cnx_packets admin_sent_def)
  have e1: "ih_entryState ?h1 = HELLO_RCVD" by (simp add: new_handler_def)
  have known1: "ref_id 1 \<in> set (reg_idFilter ref_registry3)" by (simp add: ref_registry3_def)
  obtain h2 where s2: "conn_step ?L 7 () ref_registry3 (?h1, ?c1, Looping) =
      Ret (ref_registry3, h2, ?c1\<lparr>cx_in := packets [packet 2 2, packet 3 4], cx_out := [[7], packet 1 1]\<rparr>, Looping)"
      and h2: "ih_entryState h2 = CLIENT_DETAILS_RCVD" "ih_Session h2 = 2"
    using sample_turn [where z = "()", OF admin_msgs_ok(1), of 0 1 ?c1 1 "[packet 2 2, packet 3 4]", unfolded admin_msgs_at, OF _ _ _ _ _ sample_member_handled [OF e1 known1]]
    by (simp add: admin_msgs_ok ref_cnx_packets)
  obtain h3 where s3: "conn_step ?L 7 () ref_registry3 (h2, ?c1\<lparr>cx_in := packets [packet 2 2, packet 3 4], cx_out := [[7], packet 1 1]\<rparr>, Looping) =
      Ret (ref_registry3, h3, ?c1\<lparr>cx_in := packets [packet 3 4], cx_out := [[7], packet 1 1, packet 2 3]\<rparr>, Looping)"
      and h3: "ih_entryState h3 = CREATE_REQUEST_RCVD" "ih_Session h3 = 3"
    using sample_turn [where z = "()", OF admin_msgs_ok(1), of 2 3 "?c1\<lparr>cx_in := packets [packet 2 2, packet 3 4], cx_out := [[7], packet 1 1]\<rparr>" 2 "[packet 3 4]",
        unfolded admin_msgs_at, OF _ _ _ _ _ sample_create_handled [OF h2(1)]] h2(2)
    by (simp add: admin_msgs_ok ref_cnx_packets)
  obtain h4 where s4: "conn_step ?L 7 () ref_registry3 (h3, ?c1\<lparr>cx_in := packets [packet 3 4], cx_out := [[7], packet 1 1, packet 2 3]\<rparr>, Looping) =
      Ret (ref_registry3, h4, ?c1\<lparr>cx_in := packets [], cx_out := admin_read\<rparr>, Looping)"
    using sample_turn [where z = "()", OF admin_msgs_ok(1), of 4 5 "?c1\<lparr>cx_in := packets [packet 3 4], cx_out := [[7], packet 1 1, packet 2 3]\<rparr>" 3 "[]",
        unfolded admin_msgs_at, OF _ _ _ _ _ sample_bye_handled [OF disjI1 [OF h3(1)]]] h3(2)
    by (simp add: admin_msgs_ok ref_cnx_packets admin_read_def)
  from reaches_turn [OF reaches_turn [OF reaches_turn [OF reaches_turn [OF server_reaches.refl s1] s2] s3] s4]
  show ?thesis by fastforce
qed

theorem admin_run_agrees_witness:
  "\<exists>mm' c'. AdminClient_Start admin_lib club_maker = Ret (mm', None, Some c') \<and> mm_ClusterID mm' = Some (NodeID (ref_id 9)) \<and> mm_ClusterMaxSize mm' = 2"
proof -
  let ?L = admin_lib and ?l = "(new_handler admin_lib, ref_cnx admin_sent, Starting)"
  obtain mm' c' where c: "AdminClient_Start ?L club_maker = Ret (mm', None, Some c')" "cx_out c' = admin_sent" using admin_client_run by blast
  obtain h sc' where s: "server_reaches ?L 7 (Listening [], ref_registry3, [?l]) (Listening [], ref_registry3, [(h, sc', Looping)])"
      "cx_out sc' = admin_read" using admin_server_run by blast
  have i: "srv_inv ?L ref_registry3" by (rule nlib_srv_inv [OF ref_registry3_inv])
  note l = sample_fresh [OF nlib_libs i]
  have "linked (ref_cnx admin_read) c' (ref_cnx admin_sent) sc'"
    by (rule sample_linked [OF c(2) s(2)]) (simp_all add: fits_packets admin_read_def admin_sent_def)
  from admin_run_agrees [OF nlib_libs nlib_wire sample_shared i l s(1) _ _ _ c(1) _ _ _ this]
  have "\<exists>cl i. reg_ClustersByName ref_registry3 ''club'' = Some cl \<and> mm_ClusterID mm' = Some i
     \<and> rc_ID (get_cluster ref_registry3 cl) = Some (Value i) \<and> rc_maxSize (get_cluster ref_registry3 cl) = mm_ClusterMaxSize mm'"
    by (simp add: admin_msgs_ok club_maker_def ref_maker_def ref_info_def ref_registry3_def ref_registry1_def ref_registry_def ref_node_def)
  then obtain i where "mm_ClusterID mm' = Some i" "Value i = ref_id 9" "mm_ClusterMaxSize mm' = 2" by (auto simp: sample_cluster ref_cluster_def)
  with c(1) show ?thesis by (cases i) auto
qed


section \<open>A sample run of a user\<close>

text \<open>The cluster has one member, and the user's client takes the last place.\<close>

abbreviation "bob \<equiv> ref_client ''bob'' 2"

definition user_registry :: "ClientInfo list \<Rightarrow> ((bytes \<times> hval) list, bytes list) Registry" where
  "user_registry ms = (put_cluster 0 (ref_cluster 9 ms) ref_registry3)\<lparr>reg_idFilter := [ref_id 2, ref_id 1, ref_id 9, ref_id 3]\<rparr>"

lemma user_registry_fields:
  "get_cluster (user_registry ms) 0 = ref_cluster 9 ms" "reg_ClustersByID (user_registry ms) = [(ref_id 9, HCluster 0)]"
  "reg_idFilter (user_registry ms) = [ref_id 2, ref_id 1, ref_id 9, ref_id 3]" "reg_RegNode (user_registry ms) = ref_node"
  "put_cluster 0 (ref_cluster 9 ns) (user_registry ms) = user_registry ns" "length (reg_heap (user_registry ms)) = 1"
  by (simp_all add: user_registry_def put_cluster_def get_cluster_def ref_registry3_def ref_registry1_def ref_registry_def ref_node_def)

definition join_msg :: XLRegMsg where
  "join_msg = zeroMsg\<lparr>msg_Op := Some XLRegMsg_Join, msg_ClusterID := Some (ref_id 9)\<rparr>"

lemma sample_join:
  assumes "ih_thisClient h = Some m" and "ih_msgIn h = Some join_msg" and "ci_GetName m \<notin> ci_GetName ` set ms" and "ci_ID m \<noteq> []"
    and "\<forall>x \<in> set ms. ci_ID x \<noteq> ref_id 9"
  shows "doJoinMsg (nlib tab c) (user_registry ms) h = Ret (user_registry (ms @ [m]),
     h\<lparr>ih_cluster := Some 0, ih_msgOut := Some (join_reply (ref_cluster 9 [])), ih_exitState := JOIN_RCVD, ih_errOut := None\<rparr>)"
proof -
  have "AddMember (nlib tab c) m (ref_cluster 9 ms) = AddMember hlib m (ref_cluster 9 ms)"
    by (simp only: AddMember_def member_id_check_def member_insert_def nlib_base)
  then have a: "AddMember (nlib tab c) m (ref_cluster 9 ms) = (ref_cluster 9 (ms @ [m]), None)"
    using ref_cluster_add [OF assms(3-5)] by simp
  have "join_reply (ref_cluster 9 (ms @ [m])) = join_reply (ref_cluster 9 [])" by (simp add: join_reply_def ref_cluster_def)
  with a assms(1,2) show ?thesis by (simp add: doJoinMsg_def join_cluster_def join_msg_def user_registry_fields Let_def)
qed

lemma user_registry_inv: "srv_inv (nlib ms c) (user_registry [bob])"
proof -
  let ?L = "nlib ms c" and ?h = "(sample_handler 1 (Some bob))\<lparr>ih_msgIn := Some join_msg\<rparr>"
  have "srv_inv ?L (user_registry [])"
    by (rule srv_inv_filter [OF nlib_srv_inv [OF ref_registry3_inv]])
      (simp_all add: user_registry_def put_cluster_def ref_registry3_def ref_registry1_def ref_registry_def known_def)
  moreover have "sess_refs ?L (user_registry []) ?h" by (simp add: sess_refs_def known_def user_registry_fields)
  moreover have "doJoinMsg ?L (user_registry []) ?h = Ret (user_registry [bob], ?h\<lparr>ih_cluster := Some 0, ih_msgOut := Some (join_reply (ref_cluster 9 [])),
      ih_exitState := JOIN_RCVD, ih_errOut := None\<rparr>)"
    using sample_join [of ?h bob "[]" ms c] by simp
  ultimately show ?thesis using doJoinMsg_keeps [of ?L "user_registry []" ?h] by (simp add: keeps_def)
qed

definition user_token :: XLRegMsg_Token where
  "user_token = \<lparr>tok_Name = Some ''al'', tok_Attrs = Some 0, tok_ID = Some (ref_id 1), tok_CommsKey = Some [33], tok_SigKey = Some [33],
     tok_MyEnds = None, tok_DigSig = None\<rparr>"

definition user_info :: MemberInfo where
  "user_info = \<lparr>mi_Attrs = 0, mi_Peer = \<lparr>bn_name = ''al'', bn_id = NodeID (ref_id 1), bn_ck = Some ref_pub, bn_sk = Some ref_pub, pe_ctors = []\<rparr>\<rparr>"

lemma user_tokens:
  "ci_Token (nlib ms c) sample_client = Inr user_token" "NewMemberInfoFromToken (nlib ms c) d (Some user_token) = Inr user_info"
  by (simp_all add: ci_Token_def NewMemberInfoFromToken_def sample_client_def user_token_def user_info_def ref_bn_def ref_ToWire_def ref_FromWire_def
      ref_pub_def ci_GetName_def ci_ID_def xi_New_or_random_def)

definition user_reply :: XLRegMsg where
  "user_reply = zeroMsg\<lparr>msg_Op := Some XLRegMsg_ClusterMembers, msg_ClusterID := Some (ref_id 9), msg_Which := Some (mask 2),
     msg_Tokens := Some [ref_token ''bob'' 2, user_token]\<rparr>"

lemma user_members: "get_members (nlib ms c) (ref_cluster 9 [bob, sample_client]) (mask 2) = (Some [ref_token ''bob'' 2, user_token], mask 2)"
  by (rule sample_members [OF sample_tokens(1) user_tokens(1)])

lemma sample_get_handled:
  assumes "ih_entryState h = JOIN_RCVD"
  shows "handle_message (nlib ms c) get_msg (user_registry [bob, sample_client]) h = Ret (user_registry [bob, sample_client],
    h\<lparr>ih_msgIn := Some get_msg, ih_msgOut := Some user_reply, ih_exitState := JOIN_RCVD, ih_errOut := None\<rparr>)"
proof -
  have t: "op2tag (GetOp (Some get_msg)) = 3" by (simp add: get_msg_def request_tags)
  show ?thesis
    by (rule sample_handled [OF entries(5) assms t])
      (simp_all add: doGetMsg_def user_registry_fields get_msg_def user_members user_reply_def Let_def)
qed

lemma sample_join_handled:
  assumes "ih_entryState h = CLIENT_DETAILS_RCVD" and "ih_thisClient h = Some sample_client"
  shows "handle_message (nlib ms c) join_msg (user_registry [bob]) h = Ret (user_registry [bob, sample_client],
    h\<lparr>ih_msgIn := Some join_msg, ih_cluster := Some 0, ih_msgOut := Some (join_reply (ref_cluster 9 [])), ih_exitState := JOIN_RCVD, ih_errOut := None\<rparr>)"
proof -
  have t: "op2tag (GetOp (Some join_msg)) = 2" by (simp add: join_msg_def request_tags)
  have f: "ci_GetName sample_client = ''al''" "ci_ID sample_client = ref_id 1"
    by (simp_all add: sample_client_def ci_GetName_def ci_ID_def ref_bn_def)
  show ?thesis
    by (rule sample_handled [OF entries(3) assms(1) t]) (use sample_join [of "h\<lparr>ih_msgIn := Some join_msg\<rparr>" sample_client "[bob]" ms c] assms(2) f in simp_all)
qed


definition user_msgs :: "XLRegMsg list" where
  "user_msgs = [member_msg, member_reply, join_msg, join_reply (ref_cluster 9 []), get_msg, user_reply, byeMsg, ackMsg]"

definition user_sent :: "bytes list" where
  "user_sent = [[1], packet 1 0, packet 2 2, packet 3 4, packet 4 6]"

definition user_read :: "bytes list" where
  "user_read = [[7], packet 1 1, packet 2 3, packet 3 5, packet 4 7]"

lemma user_msgs_ok: "distinct (map msg_Op user_msgs)" "length user_msgs = 8"
  by (simp_all add: user_msgs_def sample_member_op member_reply_def join_msg_def join_reply_def get_msg_def user_reply_def byeMsg_def ackMsg_def)

lemma user_msgs_at:
  "user_msgs ! 0 = member_msg" "user_msgs ! 1 = member_reply" "user_msgs ! 2 = join_msg" "user_msgs ! 3 = join_reply (ref_cluster 9 [])"
  "user_msgs ! 4 = get_msg" "user_msgs ! 5 = user_reply" "user_msgs ! 6 = byeMsg" "user_msgs ! 7 = ackMsg"
  by (simp_all add: user_msgs_def)

abbreviation "user_lib \<equiv> nlib user_msgs (ref_cnx user_read)"

abbreviation "open_node \<equiv> ref_member\<lparr>nd_acc := Some (Acceptor ''127.0.0.1:44'')\<rparr>"

lemma member_request_acc: "member_request L (n\<lparr>nd_acc := a\<rparr>) attrs = member_request L n attrs"
  by (simp add: member_request_def cong: sum.case_cong)

lemma user_client_run:
  "\<exists>mn' c'. UserMember_Start user_lib club_maker = Ret (mn', None, Some c') \<and> cx_out c' = user_sent"
proof -
  let ?mn = "club_maker\<lparr>mm_Node := open_node\<rparr>"
  let ?m1 = "?mn\<lparr>mm_Session := 1\<rparr>" and ?c1 = "(ref_cnx user_read)\<lparr>cx_in := packets [packet 1 1, packet 2 3, packet 3 5, packet 4 7], cx_out := [[1]]\<rparr>"
  have s: "SessionSetup user_lib 0 ?mn = Ret (?m1, Some ?c1, 7, None)"
    using sample_setup [where z = "()", of ?mn _ _ "ref_cnx user_read" 7 "[packet 1 1, packet 2 3, packet 3 5, packet 4 7]" user_msgs]
    by (simp add: club_maker_def ref_maker_def ref_info_def ref_cnx_packets user_read_def)
  let ?m2 = "?m1\<lparr>mm_Session := 2, mm_Attrs := 0\<rparr>" and ?c2 = "?c1\<lparr>cx_in := packets [packet 2 3, packet 3 5, packet 4 7], cx_out := [[1], packet 1 0]\<rparr>"
  have q: "member_request user_lib (mm_Node ?m1) (mm_ProposedAttrs ?m1) = Inr member_msg"
    using sample_member_request [of user_msgs "ref_cnx user_read"] by (simp add: club_maker_def ref_maker_def member_request_acc)
  have m: "MemberAndOK user_lib ?m1 ?c1 = (?m2, None, ?c2)"
    using sample_member [where z = "()", OF user_msgs_ok(1) _ _ user_msgs_at(1) _ user_msgs_at(2) q, of ?c1 1 "[packet 2 3, packet 3 5, packet 4 7]"]
    by (simp add: user_msgs_ok ref_cnx_packets)
  let ?o3 = "[[1], packet 1 0, packet 2 2]"
  let ?m3 = "?m2\<lparr>mm_Session := 3\<rparr>" and ?c3 = "?c2\<lparr>cx_in := packets [packet 3 5, packet 4 7], cx_out := ?o3\<rparr>"
  have w: "writeMsg user_lib join_msg ?m2 ?c2 = (?m3, None, ?c2\<lparr>cx_out := ?o3\<rparr>)"
    using sample_write [where z = "()", OF user_msgs_ok(1), of 2 ?c2 "ref_cnx user_read" ?m2] user_msgs_at(3) by (simp add: user_msgs_ok ref_cnx_packets)
  have r: "readMsg user_lib ?m3 (?c2\<lparr>cx_out := ?o3\<rparr>) = (Some (join_reply (ref_cluster 9 [])), None, ?c3)"
    using sample_read [where z = "()", of 3 user_msgs "?c2\<lparr>cx_out := ?o3\<rparr>" 2 "[packet 3 5, packet 4 7]"] user_msgs_at(4) by (simp add: user_msgs_ok)
  let ?m3' = "?m3\<lparr>mm_EPCount := 1\<rparr>"
  have j: "JoinAndReply user_lib ?m2 ?c2 = Ret (?m3', None, ?c3)"
    using w r by (simp add: JoinAndReply_def join_msg_def join_reply_def ref_cluster_def club_maker_def ref_maker_def Let_def)
  let ?o4 = "?o3 @ [packet 3 4]" and ?c4 = "?c3\<lparr>cx_in := packets [packet 4 7], cx_out := [[1], packet 1 0, packet 2 2, packet 3 4]\<rparr>"
  have w4: "writeMsg user_lib get_msg ?m3' ?c3 = (?m3'\<lparr>mm_Session := 4\<rparr>, None, ?c3\<lparr>cx_out := ?o4\<rparr>)"
    using sample_write [where z = "()", OF user_msgs_ok(1), of 4 ?c3 "ref_cnx user_read" ?m3'] user_msgs_at(5) by (simp add: user_msgs_ok ref_cnx_packets)
  have r4: "readMsg user_lib (?m3'\<lparr>mm_Session := 4\<rparr>) (?c3\<lparr>cx_out := ?o4\<rparr>) = (Some user_reply, None, ?c4)"
    using sample_read [where z = "()", of 5 user_msgs "?c3\<lparr>cx_out := ?o4\<rparr>" 3 "[packet 4 7]"] user_msgs_at(6) by (simp add: user_msgs_ok)
  let ?rc = "ref_cluster 9 [bob, sample_client]"
  let ?tok = "\<lambda>i. if i = 0 then ref_token ''bob'' 2 else user_token" and ?mi = "\<lambda>i. if i = (0 :: nat) then ref_info ''bob'' 2 else user_info"
  have k: "\<forall>i < 2. ci_Token user_lib (rc_Members ?rc ! i) = Inr (?tok i) \<and> NewMemberInfoFromToken user_lib (mm_draws ?m3') (Some (?tok i)) = Inr (?mi i)"
    by (auto simp: ref_cluster_def less_Suc_eq numeral_2_eq_2 sample_tokens user_tokens)
  have f: "mm_ClusterID ?m3' = Some (NodeID (ref_id 9))" "unat (mm_ClusterMaxSize ?m3') = 2" "mm_Members ?m3' = Some (replicate 2 None)"
      "nd_id (mm_Node ?m3') = Some (NodeID (ref_id 1))"
    by (simp_all add: club_maker_def ref_maker_def ref_member_def) (simp add: numeral_2_eq_2)
  have w4': "writeMsg user_lib (zeroMsg\<lparr>msg_Op := Some XLRegMsg_GetCluster, msg_ClusterID := Some (Value (NodeID (ref_id 9))),
      msg_Which := Some (bm_LowNMap user_lib 2)\<rparr>) ?m3' ?c3 = (?m3'\<lparr>mm_Session := 4\<rparr>, None, ?c3\<lparr>cx_out := ?o4\<rparr>)"
    using w4 by (simp add: get_msg_def)
  have gm: "get_members user_lib ?rc (bm_LowNMap user_lib 2) = (Some [ref_token ''bob'' 2, user_token], mask 2)" using user_members by simp
  obtain m4 where g: "GetAndMembers user_lib ?m3' ?c3 = Ret (m4, None, ?c4)" and s4: "mm_Session m4 = 4"
    using get_one_round [OF nlib_bits f(1,2) _ _ f(3) _ k f(4) w4' _ r4 gm] by (auto simp: ref_cluster_def user_reply_def)
  obtain m5 c5 where b: "ByeAndAck user_lib m4 ?c4 = (m5, None, c5)" and o: "cx_out c5 = user_sent"
    using sample_bye [where z = "()", OF user_msgs_ok(1) _ _ user_msgs_at(7), of 7 ?c4 4 "[]" "ref_cnx user_read" m4] s4
    by (simp add: user_msgs_ok ref_cnx_packets user_sent_def)
  have "Node_OpenAcc user_lib (mm_Node club_maker) = (open_node, None)" by (simp add: club_maker_def ref_maker_def)
  with s m j g b o show ?thesis
    by (simp add: UserMember_Start_def close_cnx_def in_session_def and_then_def Cnx_Close_def)
qed

lemma user_server_run:
  "\<exists>h sc'. server_reaches user_lib 7 (Listening [], user_registry [bob], [(new_handler user_lib, ref_cnx user_sent, Starting)])
     (Listening [], user_registry [bob, sample_client], [(h, sc', Looping)]) \<and> cx_out sc' = user_read"
proof -
  let ?L = user_lib and ?r = "user_registry [bob]" and ?s = "user_registry [bob, sample_client]"
  let ?p1 = "[packet 1 0, packet 2 2, packet 3 4, packet 4 6]" and ?p2 = "[packet 2 2, packet 3 4, packet 4 6]" and ?p3 = "[packet 3 4, packet 4 6]"
  let ?h1 = "(new_handler ?L)\<lparr>ih_Session := 1, ih_version := 7\<rparr>"
  let ?c1 = "(ref_cnx user_sent)\<lparr>cx_in := packets ?p1, cx_out := [[7]]\<rparr>"
  let ?c2 = "?c1\<lparr>cx_in := packets ?p2, cx_out := [[7], packet 1 1]\<rparr>"
  let ?c3 = "?c1\<lparr>cx_in := packets ?p3, cx_out := [[7], packet 1 1, packet 2 3]\<rparr>"
  let ?c4 = "?c1\<lparr>cx_in := packets [packet 4 6], cx_out := [[7], packet 1 1, packet 2 3, packet 3 5]\<rparr>"
  note turn = sample_turn [where z = "()", OF user_msgs_ok(1)]
  have s1: "conn_step ?L 7 () ?r (new_handler ?L, ref_cnx user_sent, Starting) = Ret (?r, ?h1, ?c1, Looping)"
    using sample_hello [where z = "()", of "ref_cnx user_sent" ?p1 user_msgs "ref_cnx user_read" 7 ?r] by (simp add: ref_cnx_packets user_sent_def)
  have e1: "ih_entryState ?h1 = HELLO_RCVD" by (simp add: new_handler_def)
  have known1: "ref_id 1 \<in> set (reg_idFilter ?r)" by (simp add: user_registry_fields)
  obtain h2 where s2: "conn_step ?L 7 () ?r (?h1, ?c1, Looping) = Ret (?r, h2, ?c2, Looping)"
      and h2: "ih_entryState h2 = CLIENT_DETAILS_RCVD" "ih_Session h2 = 2" "ih_thisClient h2 = Some sample_client"
    using turn [of 0 1 ?c1 1 ?p2, unfolded user_msgs_at, OF _ _ _ _ _ sample_member_handled [OF e1 known1]]
    by (simp add: user_msgs_ok ref_cnx_packets)
  obtain h3 where s3: "conn_step ?L 7 () ?r (h2, ?c2, Looping) = Ret (?s, h3, ?c3, Looping)"
      and h3: "ih_entryState h3 = JOIN_RCVD" "ih_Session h3 = 3"
    using turn [of 2 3 ?c2 2 ?p3, unfolded user_msgs_at, OF _ _ _ _ _ sample_join_handled [OF h2(1,3)]] h2(2)
    by (simp add: user_msgs_ok ref_cnx_packets)
  obtain h4 where s4: "conn_step ?L 7 () ?s (h3, ?c3, Looping) = Ret (?s, h4, ?c4, Looping)"
      and h4: "ih_entryState h4 = JOIN_RCVD" "ih_Session h4 = 4"
    using turn [of 4 5 ?c3 3 "[packet 4 6]", unfolded user_msgs_at, OF _ _ _ _ _ sample_get_handled [OF h3(1)]] h3(2)
    by (simp add: user_msgs_ok ref_cnx_packets)
  obtain h5 where s5: "conn_step ?L 7 () ?s (h4, ?c4, Looping) = Ret (?s, h5, ?c1\<lparr>cx_in := packets [], cx_out := user_read\<rparr>, Looping)"
    using turn [of 6 7 ?c4 4 "[]", unfolded user_msgs_at, OF _ _ _ _ _ sample_bye_handled [OF disjI2 [OF disjI1 [OF h4(1)]]]] h4(2)
    by (simp add: user_msgs_ok ref_cnx_packets user_read_def)
  from reaches_turn [OF reaches_turn [OF reaches_turn [OF reaches_turn [OF reaches_turn [OF server_reaches.refl s1] s2] s3] s4] s5]
  show ?thesis by fastforce
qed

theorem user_run_joined_witness:
  "\<exists>mn' c' m. UserMember_Start user_lib club_maker = Ret (mn', None, Some c') \<and> ci_GetName m = ''al''
     \<and> m \<in> set (rc_Members (get_cluster (user_registry [bob, sample_client]) 0)) \<and> mm_EPCount mn' = 1"
proof -
  let ?L = user_lib and ?l = "(new_handler user_lib, ref_cnx user_sent, Starting)" and ?r = "user_registry [bob]" and ?s = "user_registry [bob, sample_client]"
  obtain mn' c' where c: "UserMember_Start ?L club_maker = Ret (mn', None, Some c')" "cx_out c' = user_sent" using user_client_run by blast
  obtain h sc' where s: "server_reaches ?L 7 (Listening [], ?r, [?l]) (Listening [], ?s, [(h, sc', Looping)])" "cx_out sc' = user_read"
    using user_server_run by blast
  have i: "srv_inv ?L ?r" by (rule user_registry_inv)
  note l = sample_fresh [OF nlib_libs i]
  have k: "linked (ref_cnx user_read) c' (ref_cnx user_sent) sc'"
    by (rule sample_linked [OF c(2) s(2)]) (simp_all add: fits_packets user_read_def user_sent_def)
  have o: "Node_OpenAcc ?L (mm_Node club_maker) = (open_node, None)" by (simp add: club_maker_def ref_maker_def)
  let ?ctor = "Connector (EndPoint ''127.0.0.1:55'')"
  note p = club_peer(1)
  have n: "Connect ?L ?ctor = Inr (ref_cnx user_read)" by (simp add: user_msgs_ok)
  have b: "bn_ck (mm_RegPeer club_maker) = Some (rsa_pub_of (rn_ckPriv (reg_RegNode ?r)))"
    by (simp add: user_registry_fields club_peer)
  have w: "length user_msgs \<le> 256" by (simp add: user_msgs_ok)
  have "0 < length [?l]" "[?l] ! 0 = ?l" "[(h, sc', Looping)] ! 0 = (h, sc', Looping)" by simp_all
  from user_run_joined [OF nlib_libs nlib_wire [OF w] sample_shared i l s(1) this c(1) p n b k o]
  obtain cl m where m: "cl < length (reg_heap ?s)" "m \<in> set (rc_Members (get_cluster ?s cl))" "ci_GetName m = nd_name open_node"
      "mm_EPCount mn' = rc_epCount (get_cluster ?s cl)"
    by blast
  from m(1) have "cl = 0" by (simp add: user_registry_fields)
  with m(2-4) c(1) show ?thesis by (auto simp: user_registry_fields ref_cluster_def ref_member_def)
qed

text \<open>A bootstrapper whose node has an acceptor does what the user's client does once it has opened one.\<close>

theorem bootstrap_run_joined_witness:
  "\<exists>mn1 c1 mn' c' m. Bootstrapper_JoinCluster user_lib (club_maker\<lparr>mm_Node := open_node\<rparr>) = Ret (mn1, None, Some c1)
     \<and> Bootstrapper_Start user_lib mn1 (Some c1) = Ret (mn', None, Some c') \<and> mm_EPCount mn' = 1
     \<and> m \<in> set (rc_Members (get_cluster (user_registry [bob, sample_client]) 0)) \<and> ci_GetName m = ''al'' \<and> ci_ID m = ref_id 1"
proof -
  let ?L = user_lib and ?l = "(new_handler user_lib, ref_cnx user_sent, Starting)" and ?r = "user_registry [bob]" and ?s = "user_registry [bob, sample_client]"
  let ?mn = "club_maker\<lparr>mm_Node := open_node\<rparr>" and ?ctor = "Connector (EndPoint ''127.0.0.1:55'')"
  obtain mn' c' where u: "UserMember_Start ?L club_maker = Ret (mn', None, Some c')" "cx_out c' = user_sent" using user_client_run by blast
  have "Node_OpenAcc ?L (mm_Node club_maker) = (open_node, None)" by (simp add: club_maker_def ref_maker_def)
  with u(1) obtain mn1 c1 where c: "Bootstrapper_JoinCluster ?L ?mn = Ret (mn1, None, Some c1)" "Bootstrapper_Start ?L mn1 (Some c1) = Ret (mn', None, Some c')"
    using bootstrap_joining [of ?L ?mn mn' c'] by (auto simp: UserMember_Start_def)
  obtain h sc' where s: "server_reaches ?L 7 (Listening [], ?r, [?l]) (Listening [], ?s, [(h, sc', Looping)])" "cx_out sc' = user_read"
    using user_server_run by blast
  have i: "srv_inv ?L ?r" by (rule user_registry_inv)
  note l = sample_fresh [OF nlib_libs i]
  have k: "linked (ref_cnx user_read) c' (ref_cnx user_sent) sc'"
    by (rule sample_linked [OF u(2) s(2)]) (simp_all add: fits_packets user_read_def user_sent_def)
  have p: "pe_ctors (mm_RegPeer ?mn) = [?ctor, Connector (EndPoint ''127.0.0.1:56'')]" by (simp add: club_peer)
  have n: "Connect ?L ?ctor = Inr (ref_cnx user_read)" by simp
  have b: "bn_ck (mm_RegPeer ?mn) = Some (rsa_pub_of (rn_ckPriv (reg_RegNode ?r)))"
    by (simp add: user_registry_fields club_peer)
  have w: "length user_msgs \<le> 256" by (simp add: user_msgs_ok)
  have "0 < length [?l]" "[?l] ! 0 = ?l" "[(h, sc', Looping)] ! 0 = (h, sc', Looping)" by simp_all
  from bootstrap_run_joined [OF nlib_libs nlib_wire [OF w] sample_shared i l s(1) this c p n b k]
  obtain cl m where m: "cl < length (reg_heap ?s)" "m \<in> set (rc_Members (get_cluster ?s cl))" "ci_GetName m = nd_name (mm_Node ?mn)"
      "\<forall>k. nd_id (mm_Node ?mn) = Some k \<longrightarrow> ci_ID m = Value k" "mm_EPCount mn' = rc_epCount (get_cluster ?s cl)"
    by blast
  have cl: "cl = 0" using m(1) by (simp add: user_registry_fields)
  have "ci_GetName m = ''al''" "ci_ID m = ref_id 1" "mm_EPCount mn' = 1"
    using m(3-5) cl by (simp_all add: ref_member_def user_registry_fields ref_cluster_def)
  with c m(2) cl show ?thesis by blast
qed

section \<open>The solitary client's sample run\<close>

definition solo_msgs :: "XLRegMsg list" where
  "solo_msgs = [member_msg, member_reply, byeMsg, ackMsg]"

definition solo_sent :: "bytes list" where
  "solo_sent = [[1], packet 1 0, packet 2 2]"

definition solo_read :: "bytes list" where
  "solo_read = [[7], packet 1 1, packet 2 3]"

lemma solo_msgs_ok: "distinct (map msg_Op solo_msgs)" "length solo_msgs = 4"
  by (simp_all add: solo_msgs_def sample_member_op member_reply_def byeMsg_def ackMsg_def)

lemma solo_msgs_at: "solo_msgs ! 0 = member_msg" "solo_msgs ! 1 = member_reply" "solo_msgs ! 2 = byeMsg" "solo_msgs ! 3 = ackMsg"
  by (simp_all add: solo_msgs_def)

abbreviation "solo_lib \<equiv> mlib solo_msgs (ref_cnx solo_read)"

lemma solo_client_run:
  "\<exists>mm' c'. SoloMember_Start solo_lib [] club_maker = Ret ([(''.xlattice/node.config'', ''al'')], mm', None, Some c') \<and> cx_out c' = solo_sent"
proof -
  let ?mm = "club_maker\<lparr>mm_Session := 1\<rparr>" and ?c = "(ref_cnx solo_read)\<lparr>cx_in := packets [packet 1 1, packet 2 3], cx_out := [[1]]\<rparr>"
  have s: "SessionSetup solo_lib 0 club_maker = Ret (?mm, Some ?c, 7, None)"
    using sample_setup [where z = mfields, of club_maker _ _ "ref_cnx solo_read" 7 "[packet 1 1, packet 2 3]" solo_msgs]
    by (simp add: club_maker_def ref_maker_def ref_info_def ref_cnx_packets solo_read_def)
  let ?c2 = "?c\<lparr>cx_in := packets [packet 2 3], cx_out := [[1], packet 1 0]\<rparr>" and ?mm2 = "?mm\<lparr>mm_Session := 2, mm_Attrs := 0\<rparr>"
  have q: "member_request solo_lib (mm_Node ?mm) (mm_ProposedAttrs ?mm) = Inr member_msg"
    using sample_member_request [where z = mfields] by (simp add: club_maker_def ref_maker_def)
  have m: "MemberAndOK solo_lib ?mm ?c = (?mm2, None, ?c2)"
    using sample_member [OF solo_msgs_ok(1) _ _ solo_msgs_at(1) _ solo_msgs_at(2) q, of ?c 1 "[packet 2 3]"]
    by (simp add: solo_msgs_ok ref_cnx_packets)
  obtain c4 where b: "ByeAndAck solo_lib ?mm2 ?c2 = (?mm2\<lparr>mm_Session := 3\<rparr>, None, c4)" and o: "cx_out c4 = solo_sent"
    using sample_bye [where z = mfields, OF solo_msgs_ok(1) _ _ solo_msgs_at(3), of 3 ?c2 2 "[]" "ref_cnx solo_read" ?mm2]
    by (simp add: solo_msgs_ok ref_cnx_packets solo_sent_def)
  have n: "nd_lfs (mm_Node club_maker) = []" "nd_name (mm_Node club_maker) = ''al''" by (simp_all add: club_maker_def ref_maker_def ref_member_def)
  have path: "path_Join (path_Join [] ''.xlattice'') ''node.config'' = ''.xlattice/node.config''" by code_simp
  show ?thesis
    using s m b o n path by (simp add: SoloMember_Start_def close_cnx_def in_session_def and_then_def Cnx_Close_def PersistNode_def)
qed

lemma solo_server_run:
  "\<exists>h sc'. server_reaches solo_lib 7 (Listening [], ref_registry3, [(new_handler solo_lib, ref_cnx solo_sent, Starting)])
     (Listening [], ref_registry3, [(h, sc', Looping)]) \<and> cx_out sc' = solo_read"
proof -
  let ?L = solo_lib
  let ?h1 = "(new_handler ?L)\<lparr>ih_Session := 1, ih_version := 7\<rparr>" and ?c1 = "(ref_cnx solo_sent)\<lparr>cx_in := packets [packet 1 0, packet 2 2], cx_out := [[7]]\<rparr>"
  let ?c2 = "?c1\<lparr>cx_in := packets [packet 2 2], cx_out := [[7], packet 1 1]\<rparr>"
  note turn = sample_turn [where z = mfields, OF solo_msgs_ok(1)]
  have s1: "conn_step ?L 7 () ref_registry3 (new_handler ?L, ref_cnx solo_sent, Starting) = Ret (ref_registry3, ?h1, ?c1, Looping)"
    using sample_hello [where z = mfields, of "ref_cnx solo_sent" "[packet 1 0, packet 2 2]" solo_msgs "ref_cnx solo_read" 7 ref_registry3]
    by (simp add: ref_cnx_packets solo_sent_def)
  have e1: "ih_entryState ?h1 = HELLO_RCVD" by (simp add: new_handler_def)
  have known1: "ref_id 1 \<in> set (reg_idFilter ref_registry3)" by (simp add: ref_registry3_def)
  obtain h2 where s2: "conn_step ?L 7 () ref_registry3 (?h1, ?c1, Looping) = Ret (ref_registry3, h2, ?c2, Looping)"
      and h2: "ih_entryState h2 = CLIENT_DETAILS_RCVD" "ih_Session h2 = 2"
    using turn [of 0 1 ?c1 1 "[packet 2 2]", unfolded solo_msgs_at, OF _ _ _ _ _ sample_member_handled [OF e1 known1]]
    by (simp add: solo_msgs_ok ref_cnx_packets)
  obtain h3 where s3: "conn_step ?L 7 () ref_registry3 (h2, ?c2, Looping) = Ret (ref_registry3, h3, ?c1\<lparr>cx_in := packets [], cx_out := solo_read\<rparr>, Looping)"
    using turn [of 2 3 ?c2 2 "[]", unfolded solo_msgs_at, OF _ _ _ _ _ sample_bye_handled [OF disjI2 [OF disjI2 [OF h2(1)]]]] h2(2)
    by (simp add: solo_msgs_ok ref_cnx_packets solo_read_def)
  from reaches_turn [OF reaches_turn [OF reaches_turn [OF server_reaches.refl s1] s2] s3] show ?thesis by fastforce
qed

theorem solo_run_registered_witness:
  "\<exists>fs' mm' c'. SoloMember_Start solo_lib [] club_maker = Ret (fs', mm', None, Some c') \<and> known solo_lib ref_registry3 (ref_id 1)"
proof -
  let ?L = solo_lib and ?l = "(new_handler solo_lib, ref_cnx solo_sent, Starting)" and ?ctor = "Connector (EndPoint ''127.0.0.1:55'')"
  obtain fs' mm' c' where c: "SoloMember_Start ?L [] club_maker = Ret (fs', mm', None, Some c')" "cx_out c' = solo_sent" using solo_client_run by blast
  obtain h sc' where s: "server_reaches ?L 7 (Listening [], ref_registry3, [?l]) (Listening [], ref_registry3, [(h, sc', Looping)])"
      "cx_out sc' = solo_read" using solo_server_run by blast
  have i: "srv_inv ?L ref_registry3" by (rule nlib_srv_inv [OF ref_registry3_inv])
  note l = sample_fresh [OF nlib_libs i]
  have k: "linked (ref_cnx solo_read) c' (ref_cnx solo_sent) sc'"
    by (rule sample_linked [OF c(2) s(2)]) (simp_all add: fits_packets solo_read_def solo_sent_def)
  have p: "pe_ctors (mm_RegPeer club_maker) = [?ctor, Connector (EndPoint ''127.0.0.1:56'')]" "nd_id (mm_Node club_maker) = Some (NodeID (ref_id 1))"
    by (simp_all add: club_peer ref_member_def)
  have n: "Connect ?L ?ctor = Inr (ref_cnx solo_read)" by simp
  have b: "bn_ck (mm_RegPeer club_maker) = Some (rsa_pub_of (rn_ckPriv (reg_RegNode ref_registry3)))"
    by (simp add: club_peer ref_registry3_node)
  have w: "length solo_msgs \<le> 256" by (simp add: solo_msgs_ok)
  have "0 < length [?l]" "[?l] ! 0 = ?l" "[(h, sc', Looping)] ! 0 = (h, sc', Looping)" by simp_all
  from solo_run_registered [OF nlib_libs nlib_wire [OF w] sample_shared i l s(1) this c(1) p(1) n b k p(2)]
  have "known ?L ref_registry3 (ref_id 1)" by simp
  with c(1) show ?thesis by blast
qed

end
