(* ===== verification/Spec2Isabelle.thy ===== *)
theory Spec2Isabelle
  imports Race Command Runs
begin

text \<open>
  Verification of the xlReg cluster registry (package \<open>reg\<close>).

  \<^bold>\<open>The program.\<close> A registry keeps clusters of named members. A client connects, opens an encrypted
  session with a hello, describes itself in a signed message, creates or joins a cluster, asks for
  its members and says goodbye. The server runs one goroutine per connection; all of them share one
  \<open>Registry\<close>: a list of clusters with an index by name and a trie by ID, and a Bloom filter of all
  IDs in use. Clusters, clients, credentials and the registry's own node also have a text form. A
  command makes or reloads that node, makes the registry and serves; the clients are programs of their
  own that run a fixed sequence of exchanges.

  \<^bold>\<open>Theories and sources.\<close>
  \<^item> \<open>Prelude\<close>: machine types, the outcome of a Go call (\<open>Ret\<close>, \<open>Panic\<close>, \<open>Hang\<close>), nil-able slices,
    indexing with Go's checks.
  \<^item> \<open>Errors\<close> (\<open>xlreg_errors.go\<close>, \<open>xlreg_error_const.go\<close>, \<open>xlreg_error_str.go\<close>): the sentinels and the
    tables.
  \<^item> \<open>GoStd\<close>: what the sources use of \<open>strings\<close>, \<open>strconv\<close>, \<open>fmt\<close> and \<open>encoding/hex\<close>.
  \<^item> \<open>Messages\<close> (\<open>p.pb.go\<close>): messages, tokens and their accessors.
  \<^item> \<open>Externals\<close>: the packages that are not part of this repository, as records of functions, and what
    the code relies on as named predicates (\<open>nodeids_ok\<close>, \<open>hamt_ok\<close>, \<open>bloom_ok\<close> and others).
    \<open>RefLib\<close> has one concrete instance for which all of them hold; the sample runs use it.
  \<^item> \<open>LineCodec\<close>, \<open>NameIndex\<close>, \<open>Interleave\<close>: the interfaces, as locales. A structure with a text form
    that is read back; a list with an index by name; a service shared by sessions whose steps
    interleave, and such a service with a fact about one session that the others keep. They are
    interpreted on clients, clusters and end points; on the members of a cluster and the clusters of
    the registry; on the message loop, the server, the sections of the handlers and the critical
    sections of \<open>AddMember\<close>; and on the log of a connection.
  \<^item> \<open>ClientInfo\<close> (\<open>clientInfo.go\<close>), \<open>RegCluster\<close> (\<open>reg_cluster.go\<close>), \<open>RegCred\<close> (\<open>reg_cred.go\<close>):
    construction, operations, text form and parsers. One function of the source is one definition;
    its loops and long branches are definitions of their own.
  \<^item> \<open>Registry\<close> (\<open>registry.go\<close>, \<open>reg_options.go\<close>, \<open>version.go\<close>): the state that the sessions share.
    Pointers to clusters are indexes into \<open>reg_heap\<close>, so that a session and the two indexes can
    share a cluster; \<open>reg_draws\<close> counts the random numbers drawn.
  \<^item> \<open>MsgHandlers\<close> (\<open>msg_handlers.go\<close>), \<open>CnxHandler\<close> (\<open>cnxHandler.go\<close>), \<open>InHandler\<close> (\<open>in_handler.go\<close>):
    the handlers, the connection, the dispatch table and the message loop. A handler takes the
    registry and the state of its session and returns both.
  \<^item> \<open>SharedState\<close>, \<open>Sessions\<close>, \<open>Server\<close>: the invariant of the registry, what a session relies on, the
    protocol, and the theorems about the server as a whole. \<open>Race\<close>: overlapping calls of
    \<open>AddMember\<close>.
  \<^item> \<open>MemberNode\<close> (\<open>memberNode.go\<close>, \<open>member_info.go\<close>): the client's side of the exchanges. The state is
    \<open>MemberMaker\<close>; each exchange writes a request on the connection and reads the reply.
  \<^item> \<open>NodeLib\<close>: nodes, keys, connecting and the file system, as parameters with one concrete instance.
    \<open>RegNode\<close> (\<open>reg_node.go\<close>): the registry's node, its text form and parser. \<open>RegServer\<close>
    (\<open>reg_server.go\<close>, \<open>eph_server.go\<close>): the accept loop and the goroutine of a connection as steps,
    and runs of the server as the closure of a step relation. \<open>Overlap\<close> (\<open>msg_handlers.go\<close>,
    \<open>in_handler.go\<close>, \<open>reg_server.go\<close>): the same server with its handlers divided into sections, the
    points at which a handler can be interrupted being those where it takes a lock or uses the
    filter. \<open>Command\<close> (\<open>cmd/xlReg/xlReg.go\<close>): flags,
    options, setup and serving.
  \<^item> \<open>Clients\<close> (\<open>memberNode.go\<close>, \<open>admin_client.go\<close>, \<open>solo_client.go\<close>, \<open>user_client.go\<close>, \<open>bootstrap.go\<close>):
    how a client is made, connects, runs its exchanges and is stored.
  \<^item> \<open>Composition\<close>: the two ends of a connection together. An exchange is a request that the client
    writes, one turn of the server's loop, and the reply that the client reads.
  \<^item> \<open>SessionLog\<close>, \<open>Runs\<close>: whole runs. The log of a connection has an entry for each packet that the
    server has read and answered, and stays true whatever other connections do; a client's program at
    the other end reads what the server wrote, and the server what the client wrote.

  \<^bold>\<open>What is shown.\<close>
  \<^item> The server, message by message: exactly which messages end the process; exactly which of the others
    are refused, and that the rest get the reply and the next state of the protocol; a whole
    connection keeps the registry consistent and is closed; the loop of a connection ends.
  \<^item> The server, section by section (\<open>Overlap\<close>): however the sections of any number of handlers
    interleave, nothing is lost, the registry's indexes and those of its clusters stay sound, the IDs of
    all clusters and members are registered, and a session that has joined is a member of its cluster.
    That the names of the members of a cluster are different is not kept; it is only when messages do
    not overlap. The sections of one message, with no others in between, do what the handler does.
  \<^item> The handlers: what is accepted and changed by a client's message, a Create, a Join and a Get, on
    success and on failure.
  \<^item> The registry and its clusters: the indexes agree with the lists on every path, also on those that
    fail half way; names are unique; an ID is registered once and a new one is fresh;
    \<open>InsertUniqueNodeID\<close> returns exactly if the generator draws an unknown ID.
  \<^item> From the command line on: the options are in range; the command panics exactly on a configuration that
    its parser panics on; from the arguments to any state the server can reach, however connections
    are accepted and the sections of their handlers interleaved, the registry and the sessions are
    sound; the turns of one goroutine are what \<open>Start\<close> does; a second start with the same filter is
    refused.
  \<^item> Client and server together: after an exchange that neither end reports an error for, both ends agree
    on what it was about (the client's description, the cluster of a Create, the membership of a Join,
    the members of a Get). The same for whole runs of an administrator's, a user's and a
    solitary client and of a bootstrapper, with other connections in between, where only the client's
    own report counts: a client that was refused half way cannot end without an error.
  \<^item> The clients: which end points a member's node gets, when its construction panics, which errors the
    constructors lose, and how an administrator's client ends, with a server and without.
  \<^item> Concurrency: what overlapping calls of \<open>AddMember\<close> keep, and the schedule in which they add
    two members of the same name.
  \<^item> Text forms and wire forms are read back, within stated bounds; where they are not, the failing
    inputs are described.

  \<^bold>\<open>Loops.\<close> No fuel is used. Loops that need not end are \<open>partial_function (option)\<close>, and \<open>None\<close> becomes
  \<open>Hang\<close>; that they end, or when, is a theorem.

  \<^bold>\<open>Granularity.\<close> In \<open>Sessions\<close>, \<open>Server\<close>, \<open>RegServer\<close> and \<open>Runs\<close> a message is read, handled and answered
  in one step, and the steps of connections interleave; what is shown there holds when messages do not
  overlap. The source takes its locks more finely, and \<open>Overlap\<close> follows it. \<open>AddCluster\<close> is one critical
  section; \<open>AddMember\<close> is three, which \<open>Race\<close> interleaves on one cluster and \<open>Overlap\<close> in the whole server;
  each call of the filter and of the generator is a section of its own, since no lock is held between
  them. A section is indivisible: the filter is used, and the members of a cluster are read for a
  GetCluster, without a lock, and what the memory model of Go allows in a data race on them is not
  modelled. A panic in any goroutine ends the process, so no state follows it. In \<open>Composition\<close> the two ends take
  turns, as the clients, which wait for each reply, make them. In \<open>Runs\<close> only the two streams of a
  connection relate them: a read returns one packet as it was written, and no write fails.

  \<^bold>\<open>Not modelled.\<close> A read that never returns: a connection has the data that its peer sends until it closes.
  The code sets no deadlines, so a silent peer keeps a goroutine or a client waiting. The packages outside this repository (node, transport, cipher, protocol buffers, trie,
  Bloom filter, bit map) and the file system are parameters. Logging and what is printed on the
  terminal have no effect on the state and are left out, as are the pauses between the rounds of a Get.
  A client's channel \<open>DoneCh\<close> is the result of its run. Of \<open>p.pb.go\<close>, which is generated, the
  structures and the accessors in use are modelled and the descriptor tables are not. \<open>ParseRegistry\<close>
  and the text form of a server are stubs in the source, as are the accessors with which a cluster
  pretends to be a node; \<open>registrant.go\<close> has no declarations.
\<close>

text \<open>C40. The error number tables agree with the error values: for every error number, the string at
  the position the number selects is the text of the sentinel of the same name.
\<close>

theorem error_table_matches:
  "case sentinel_of c of None \<Rightarrow> True
   | Some e \<Rightarrow> XLREG_ERRORS ! nat (- 1 - errcode c) = ErrorText e"
  by (cases c) (simp_all add: errcode_def errconst_order_def XLREG_ERRORS_def)

end
